(* ===== verification/Prelude.thy ===== *)
theory Prelude
  imports Complex_Main "HOL-Library.Multiset"
begin

text \<open>
  Shared vocabulary of the development: the types that name MongoDB object ids and
  JavaScript timestamps, ASCII character classes as JavaScript's string functions and
  regular expressions see them, the decimal printing of a number inside a template
  literal (\<open>`${n}`\<close>), and the descending sort that the datastore's
  \<open>$sort: {field: -1}\<close> stage performs. The generic list lemmas that the
  component theories share are declared here, most of them into the collection
  \<open>model_simps\<close>.
\<close>

named_theorems model_simps "unfolding and evaluation rules shared by the component theories"

type_synonym object_id = nat
type_synonym timestamp = int

subsection \<open>ASCII character classes\<close>

definition is_digit :: "char \<Rightarrow> bool" where
  "is_digit c \<longleftrightarrow> 48 \<le> (of_char c :: nat) \<and> (of_char c :: nat) \<le> 57"

definition is_lower :: "char \<Rightarrow> bool" where
  "is_lower c \<longleftrightarrow> 97 \<le> (of_char c :: nat) \<and> (of_char c :: nat) \<le> 122"

definition is_upper :: "char \<Rightarrow> bool" where
  "is_upper c \<longleftrightarrow> 65 \<le> (of_char c :: nat) \<and> (of_char c :: nat) \<le> 90"

definition is_alnum :: "char \<Rightarrow> bool" where
  "is_alnum c \<longleftrightarrow> is_digit c \<or> is_lower c \<or> is_upper c"

text \<open>\<open>String.prototype.toLowerCase\<close> on an ASCII character.\<close>

definition lower_ascii :: "char \<Rightarrow> char" where
  "lower_ascii c = (if is_upper c then char_of (of_char c + (32 :: nat)) else c)"

definition digit_char :: "nat \<Rightarrow> char" where
  "digit_char d = char_of (48 + d)"

declare is_digit_def [model_simps] is_lower_def [model_simps] is_upper_def [model_simps]
  is_alnum_def [model_simps] lower_ascii_def [model_simps] digit_char_def [model_simps]

subsection \<open>Decimal numbers in strings\<close>

text \<open>A non-negative integer as a template literal prints it: decimal, no leading zero.\<close>

fun show_nat :: "nat \<Rightarrow> string" where
  "show_nat n = (if n < 10 then [digit_char n] else show_nat (n div 10) @ [digit_char (n mod 10)])"

declare show_nat.simps [simp del]

definition read_nat :: "string \<Rightarrow> nat" where
  "read_nat s = foldl (\<lambda>acc c. 10 * acc + (of_char c - 48)) 0 s"

text \<open>\<open>findOneAndUpdate\<close>: the first element that matches is replaced by its update.\<close>

fun update_first :: "('a \<Rightarrow> bool) \<Rightarrow> ('a \<Rightarrow> 'a) \<Rightarrow> 'a list \<Rightarrow> 'a list" where
  "update_first P f [] = []"
| "update_first P f (x # xs) = (if P x then f x # xs else x # update_first P f xs)"

subsection \<open>The datastore's descending sort\<close>

text \<open>
  \<open>$sort: {k: -1}\<close> orders by a key, greatest first. MongoDB leaves the order of
  equal keys open; the model keeps their input order (an insertion sort that puts an
  element before the equal ones already sorted), which is one of the orders the server
  may return.
\<close>

fun insort_desc :: "('a \<Rightarrow> 'k::linorder) \<Rightarrow> 'a \<Rightarrow> 'a list \<Rightarrow> 'a list" where
  "insort_desc f x [] = [x]"
| "insort_desc f x (y # ys) = (if f y \<le> f x then x # y # ys else y # insort_desc f x ys)"

fun sort_desc :: "('a \<Rightarrow> 'k::linorder) \<Rightarrow> 'a list \<Rightarrow> 'a list" where
  "sort_desc f [] = []"
| "sort_desc f (x # xs) = insort_desc f x (sort_desc f xs)"

abbreviation sorted_desc :: "('a \<Rightarrow> 'k::linorder) \<Rightarrow> 'a list \<Rightarrow> bool" where
  "sorted_desc f xs \<equiv> sorted_wrt (\<lambda>a b. f b \<le> f a) xs"

subsection \<open>Characters\<close>

lemma digit_char_is_digit [simp]: "d < 10 \<Longrightarrow> is_digit (digit_char d)"
  by (simp add: is_digit_def digit_char_def)

lemma of_char_digit_char [simp]: "d < 10 \<Longrightarrow> (of_char (digit_char d) :: nat) = 48 + d"
  by (simp add: digit_char_def)

lemma is_digit_not_upper: "is_digit c \<Longrightarrow> \<not> is_upper c"
  by (simp add: is_digit_def is_upper_def)

lemma lower_ascii_digit [simp]: "is_digit c \<Longrightarrow> lower_ascii c = c"
  by (simp add: lower_ascii_def is_digit_not_upper)

lemma lower_ascii_not_upper [simp]: "\<not> is_upper c \<Longrightarrow> lower_ascii c = c"
  by (simp add: lower_ascii_def)

lemma lower_ascii_hyphen [simp]: "lower_ascii CHR ''-'' = CHR ''-''"
  by (simp add: lower_ascii_def is_upper_def)

lemma lower_ascii_idem [simp]: "lower_ascii (lower_ascii c) = lower_ascii c"
  by (auto simp: lower_ascii_def is_upper_def)

lemma lower_ascii_not_upper_result: "\<not> is_upper (lower_ascii c)"
  by (auto simp: lower_ascii_def is_upper_def)

lemma is_lower_lower_ascii: "is_upper c \<Longrightarrow> is_lower (lower_ascii c)"
  by (auto simp: lower_ascii_def is_upper_def is_lower_def)

lemma is_alnum_lower_ascii [simp]: "is_alnum (lower_ascii c) = is_alnum c"
  by (auto simp: lower_ascii_def is_alnum_def is_upper_def is_lower_def is_digit_def)

subsection \<open>Printing and reading decimals\<close>

lemma show_nat_digits: "\<forall>c\<in>set (show_nat n). is_digit c"
proof (induction n rule: show_nat.induct)
  case (1 n)
  then show ?case by (subst show_nat.simps) auto
qed

lemma show_nat_nonempty [simp]: "show_nat n \<noteq> []"
  by (subst show_nat.simps) simp

lemma read_nat_snoc: "read_nat (xs @ [c]) = 10 * read_nat xs + (of_char c - 48)"
  by (simp add: read_nat_def)

lemma read_show_nat [simp]: "read_nat (show_nat n) = n"
proof (induction n rule: show_nat.induct)
  case (1 n)
  show ?case
  proof (cases "n < 10")
    case True
    then show ?thesis by (subst show_nat.simps) (simp add: read_nat_def)
  next
    case False
    with "1.IH" show ?thesis by (subst show_nat.simps) (simp add: read_nat_snoc)
  qed
qed

lemma show_nat_inj [simp]: "show_nat m = show_nat n \<longleftrightarrow> m = n"
  by (metis read_show_nat)

subsection \<open>Lists\<close>

text \<open>
  A list is free of duplicates when every element lies in a class (a filter) that is
  itself free of duplicates: the slug families of the catalog are such classes.
\<close>

lemma distinct_if_filters_distinct:
  "(\<And>x. x \<in> set xs \<Longrightarrow> \<exists>P. P x \<and> distinct (filter P xs)) \<Longrightarrow> distinct xs"
proof (induction xs)
  case Nil
  then show ?case by simp
next
  case (Cons y ys)
  have "distinct ys"
  proof (rule Cons.IH)
    fix x assume "x \<in> set ys"
    then have "\<exists>P. P x \<and> distinct (filter P (y # ys))"
      by (intro Cons.prems) simp
    then obtain P where "P x" and d: "distinct (filter P (y # ys))"
      by blast
    from d have "distinct (filter P ys)"
      by (simp split: if_splits)
    with \<open>P x\<close> show "\<exists>P. P x \<and> distinct (filter P ys)"
      by blast
  qed
  moreover have "\<exists>P. P y \<and> distinct (filter P (y # ys))"
    by (intro Cons.prems) simp
  then obtain P where "P y" and "distinct (filter P (y # ys))"
    by blast
  then have "y \<notin> set ys" by simp
  ultimately show ?case by simp
qed

lemma map_update_first:
  "(\<And>x. g (f x) = g x) \<Longrightarrow> map g (update_first P f xs) = map g xs"
  by (induction xs) auto

lemma find_update_first:
  "find P xs = Some x \<Longrightarrow> P (f x) \<Longrightarrow> find P (update_first P f xs) = Some (f x)"
  by (induction xs) (auto split: if_splits)

lemma update_first_find:
  "find P xs = Some x \<Longrightarrow> \<exists>ys zs. xs = ys @ x # zs \<and> update_first P f xs = ys @ f x # zs"
proof (induction xs)
  case Nil
  then show ?case by simp
next
  case (Cons y xs)
  show ?case
  proof (cases "P y")
    case True
    with Cons.prems show ?thesis by force
  next
    case False
    with Cons obtain ys zs where "xs = ys @ x # zs" "update_first P f xs = ys @ f x # zs"
      by auto
    with False show ?thesis by (metis append_Cons update_first.simps(2))
  qed
qed

lemma update_first_no_match:
  "\<forall>x\<in>set xs. \<not> P x \<Longrightarrow> update_first P f xs = xs"
  by (induction xs) auto

lemma update_first_all:
  "\<forall>x\<in>set xs. Q x \<Longrightarrow> (\<And>x. x \<in> set xs \<Longrightarrow> P x \<Longrightarrow> Q (f x)) \<Longrightarrow>
   \<forall>x\<in>set (update_first P f xs). Q x"
  by (induction xs) auto

lemma update_first_append_hit:
  "\<forall>y\<in>set ys. \<not> P y \<Longrightarrow> P x \<Longrightarrow> update_first P f (ys @ x # zs) = ys @ f x # zs"
  by (induction ys) auto

lemma update_first_keeps:
  "x \<in> set xs \<Longrightarrow> \<not> P x \<Longrightarrow> x \<in> set (update_first P f xs)"
  by (induction xs) auto

lemma set_update_first:
  "x \<in> set (update_first P f xs) \<Longrightarrow> x \<in> set xs \<or> (\<exists>y\<in>set xs. P y \<and> x = f y)"
  by (induction xs) (auto split: if_splits)

lemma find_Some_mem: "find P xs = Some x \<Longrightarrow> x \<in> set xs \<and> P x"
  by (induction xs) (auto split: if_splits)

lemma find_distinct_key:
  "distinct (map f xs) \<Longrightarrow> x \<in> set xs \<Longrightarrow> find (\<lambda>y. f y = f x) xs = Some x"
  by (induction xs) (auto simp: image_iff)

lemma find_append_unique:
  "x \<notin> set (map f xs) \<Longrightarrow> f y = x \<Longrightarrow> find (\<lambda>s. f s = x) (xs @ [y]) = Some y"
  by (induction xs) auto

lemma find_append:
  "find P (xs @ ys) = (case find P xs of None \<Rightarrow> find P ys | Some x \<Rightarrow> Some x)"
  by (induction xs) auto

lemma find_single_candidate:
  "\<forall>y\<in>set ys \<union> set zs. \<not> P y \<Longrightarrow> find P (ys @ x # zs) = (if P x then Some x else None)"
  by (induction ys) (auto simp: find_None_iff)

lemma distinct_map_replace:
  "distinct (map g (ys @ x # zs)) \<Longrightarrow> g y \<notin> g ` (set ys \<union> set zs) \<Longrightarrow>
   distinct (map g (ys @ y # zs))"
  by auto

subsection \<open>Means\<close>

lemma sum_list_lower: "\<forall>x\<in>set xs. a \<le> x \<Longrightarrow> real (length xs) * a \<le> sum_list xs"
  by (induction xs) (auto simp: algebra_simps)

lemma sum_list_upper: "\<forall>x\<in>set xs. x \<le> b \<Longrightarrow> sum_list xs \<le> real (length xs) * b"
  by (induction xs) (auto simp: algebra_simps)

text \<open>The mean of a non-empty list lies within any bounds of its elements.\<close>

lemma mean_bounds:
  assumes "xs \<noteq> []" and "\<forall>x\<in>set xs. a \<le> x \<and> x \<le> b"
  shows "a \<le> sum_list xs / real (length xs) \<and> sum_list xs / real (length xs) \<le> b"
proof -
  have pos: "0 < real (length xs)" using assms(1) by simp
  have "real (length xs) * a \<le> sum_list xs" and "sum_list xs \<le> real (length xs) * b"
    using assms(2) by (auto intro: sum_list_lower sum_list_upper)
  with pos show ?thesis
    by (simp add: pos_le_divide_eq pos_divide_le_eq mult.commute)
qed

lemma length_map_filter_le: "length (List.map_filter f xs) \<le> length xs"
  by (simp add: List.map_filter_def)

lemma in_set_map_filter:
  "y \<in> set (List.map_filter f xs) \<longleftrightarrow> (\<exists>x\<in>set xs. f x = Some y)"
  by (induction xs) (auto split: option.splits)

lemma mset_insort_desc [simp]: "mset (insort_desc f x xs) = add_mset x (mset xs)"
  by (induction xs) auto

lemma mset_sort_desc [simp]: "mset (sort_desc f xs) = mset xs"
  by (induction xs) auto

lemma set_sort_desc [simp]: "set (sort_desc f xs) = set xs"
  by (metis mset_sort_desc set_mset_mset)

lemma length_sort_desc [simp]: "length (sort_desc f xs) = length xs"
  by (metis mset_sort_desc size_mset)

lemma set_insort_desc: "set (insort_desc f x xs) = insert x (set xs)"
  by (metis mset_insort_desc set_mset_add_mset_insert set_mset_mset)

lemma sorted_insort_desc:
  "sorted_desc f xs \<Longrightarrow> sorted_desc f (insort_desc f x xs)"
  by (induction xs) (auto simp: set_insort_desc)

lemma sorted_sort_desc [simp]: "sorted_desc f (sort_desc f xs)"
  by (induction xs) (auto intro: sorted_insort_desc)

text \<open>
  A \<open>$limit\<close> after a \<open>$sort\<close> keeps the best elements: the first \<open>k\<close> of a list
  sorted by \<open>R\<close> are \<open>R\<close>-before every element left out.
\<close>

lemma sorted_wrt_take_drop:
  "sorted_wrt R xs \<Longrightarrow> \<forall>x\<in>set (take k xs). \<forall>y\<in>set (drop k xs). R x y"
  by (metis append_take_drop_id sorted_wrt_append)

lemma mset_take_drop_diff: "mset xs - mset (take k xs) = mset (drop k xs)"
  by (metis add_diff_cancel_left' append_take_drop_id mset_append)

lemma top_k_of_sorted:
  assumes "sorted_wrt R xs"
  shows "mset (take k xs) \<subseteq># mset xs \<and>
         (\<forall>x\<in>set (take k xs). \<forall>y\<in>#mset xs - mset (take k xs). R x y)"
proof -
  have "mset (take k xs) \<subseteq># mset xs"
    by (metis append_take_drop_id mset_append mset_subset_eq_add_left)
  with assms show ?thesis
    by (simp add: mset_take_drop_diff sorted_wrt_take_drop)
qed

text \<open>Splitting a list into pages of \<open>m\<close>: enough pages give the list back.\<close>

text \<open>An element of a sorted list that the first \<open>k\<close> leave out: then \<open>k\<close> were taken, all before it.\<close>

lemma top_k_excluded:
  assumes sorted: "sorted_wrt R xs" and y: "y \<in> set xs" and out: "y \<notin> set (take k xs)"
  shows "length (take k xs) = k \<and> (\<forall>x\<in>set (take k xs). R x y)"
proof -
  have c0: "count (mset (take k xs)) y = 0"
    using out by (simp add: count_eq_zero_iff)
  have c1: "0 < count (mset xs) y"
    using y by (simp only: count_greater_zero_iff set_mset_mset)
  have "y \<in># mset xs - mset (take k xs)"
    unfolding in_diff_count using c0 c1 by linarith
  then have "\<forall>x\<in>set (take k xs). R x y"
    using top_k_of_sorted [OF sorted, of k] by blast
  moreover have "length (take k xs) = k"
  proof (rule ccontr)
    assume "length (take k xs) \<noteq> k"
    then have "take k xs = xs" by simp
    with y out show False by simp
  qed
  ultimately show ?thesis by blast
qed

lemma concat_pages:
  "0 < m \<Longrightarrow> length xs \<le> m * n \<Longrightarrow> concat (map (\<lambda>k. take m (drop (m * k) xs)) [0..<n]) = xs"
proof (induction n arbitrary: xs)
  case 0
  then show ?case by simp
next
  case (Suc n)
  have "length (drop m xs) \<le> m * n" using Suc.prems by simp
  then have "concat (map (\<lambda>k. take m (drop (m * k) (drop m xs))) [0..<n]) = drop m xs"
    using Suc.IH Suc.prems(1) by blast
  moreover have "[0..<Suc n] = 0 # map Suc [0..<n]"
    by (simp add: map_Suc_upt upt_conv_Cons)
  ultimately show ?case
    by (simp del: upt_Suc add: comp_def drop_drop add.commute)
qed

lemma sorted_desc_take [simp]: "sorted_desc f xs \<Longrightarrow> sorted_desc f (take n xs)"
  by (rule sorted_wrt_take)

end
