(* ===== verification/Sanitize.thy ===== *)
theory Sanitize
  imports Prelude
begin

text \<open>
  The string functions the store model applies to a name before it is stored and
  slugged: the schema's \<open>trim: true\<close> setter (\<open>String.prototype.trim\<close>), the
  \<open>striptags\<close> package as \<^verbatim>\<open>striptags(name, null, "Default Store")\<close> calls it
  (\<open>src/models/Store.js\<close> line 70 and \<open>src/controllers/storeController.js\<close> line 117),
  and the \<open>slugs\<close> package (line 80). Neither package is part of the repository: they
  are modelled from the specification (section 4.1: tags stripped, text transliterated,
  lowercased, runs of other characters collapsed to one hyphen, hyphens trimmed) and
  from the packages' documented behaviour. Strings are byte strings (\<open>char list\<close>);
  non-ASCII letters are their UTF-8 bytes.
\<close>

subsection \<open>trim\<close>

definition is_space :: "char \<Rightarrow> bool" where
  "is_space c \<longleftrightarrow> (of_char c :: nat) = 32 \<or> (9 \<le> (of_char c :: nat) \<and> (of_char c :: nat) \<le> 13)"

definition trim :: "string \<Rightarrow> string" where
  "trim s = rev (dropWhile is_space (rev (dropWhile is_space s)))"

subsection \<open>striptags\<close>

text \<open>
  The package scans the input once with a three-state machine. In plain text a
  \<open><\<close> opens a tag; inside a tag, \<open>>\<close> closes it unless it is quoted or closes a
  nested \<open><\<close>, and the whole tag is replaced by the replacement string (the third
  argument; no tag is allowed when the second is \<open>null\<close>); \<open><!--\<close> opens a comment
  that only \<open>-->\<close> closes; a \<open><\<close> followed by a blank is kept as text. A tag still
  open at the end of the input is dropped.
\<close>

datatype strip_state = Plaintext | Html | Comment

record strip_ctx =
  st_state :: strip_state
  tag_buffer :: string
  depth :: nat
  in_quote :: "char option"
  strip_out :: string

definition strip_init :: strip_ctx where
  "strip_init = \<lparr>st_state = Plaintext, tag_buffer = [], depth = 0, in_quote = None, strip_out = []\<rparr>"

definition strip_step :: "string \<Rightarrow> strip_ctx \<Rightarrow> char \<Rightarrow> strip_ctx" where
  "strip_step repl x c =
    (case st_state x of
      Plaintext \<Rightarrow>
        (if c = CHR ''<'' then x\<lparr>st_state := Html, tag_buffer := tag_buffer x @ [c]\<rparr>
         else x\<lparr>strip_out := strip_out x @ [c]\<rparr>)
    | Html \<Rightarrow>
        (if c = CHR ''<'' then
           (if in_quote x \<noteq> None then x else x\<lparr>depth := Suc (depth x)\<rparr>)
         else if c = CHR ''>'' then
           (if in_quote x \<noteq> None then x
            else if 0 < depth x then x\<lparr>depth := depth x - 1\<rparr>
            else x\<lparr>in_quote := None, st_state := Plaintext, tag_buffer := [],
                   strip_out := strip_out x @ repl\<rparr>)
         else if c = CHR 0x22 \<or> c = CHR 0x27 then
           x\<lparr>in_quote := (if in_quote x = Some c then None
                          else (case in_quote x of None \<Rightarrow> Some c | q \<Rightarrow> q)),
             tag_buffer := tag_buffer x @ [c]\<rparr>
         else if c = CHR ''-'' then
           x\<lparr>st_state := (if tag_buffer x = ''<!-'' then Comment else Html),
             tag_buffer := tag_buffer x @ [c]\<rparr>
         else if c = CHR '' '' \<or> c = CHR 0x0A then
           (if tag_buffer x = ''<'' then
              x\<lparr>st_state := Plaintext, strip_out := strip_out x @ ''< '', tag_buffer := []\<rparr>
            else x\<lparr>tag_buffer := tag_buffer x @ [c]\<rparr>)
         else x\<lparr>tag_buffer := tag_buffer x @ [c]\<rparr>)
    | Comment \<Rightarrow>
        (if c = CHR ''>'' then
           x\<lparr>st_state := (if drop (length (tag_buffer x) - 2) (tag_buffer x) = ''--''
                           then Plaintext else Comment),
             tag_buffer := []\<rparr>
         else x\<lparr>tag_buffer := tag_buffer x @ [c]\<rparr>))"

definition striptags :: "string \<Rightarrow> string \<Rightarrow> string" where
  "striptags html repl = strip_out (foldl (strip_step repl) strip_init html)"

text \<open>The replacement the repository passes (\<open>src/models/Store.js\<close> line 70).\<close>

definition default_store :: string where
  "default_store = ''Default Store''"

subsection \<open>slugs\<close>

text \<open>
  Transliteration of the Latin-1 letters (UTF-8 lead byte \<open>0xC3\<close>) to their ASCII base
  letter, as the specification's example (\<^verbatim>\<open>Caf\<close> followed by e-acute, bytes \<open>0xC3 0xA9\<close>) becoming \<^verbatim>\<open>cafe\<close> requires.
\<close>

definition latin1_base :: "nat \<Rightarrow> char option" where
  "latin1_base b =
    (if 0x80 \<le> b \<and> b \<le> 0x85 then Some CHR ''A''
     else if b = 0x87 then Some CHR ''C''
     else if 0x88 \<le> b \<and> b \<le> 0x8B then Some CHR ''E''
     else if 0x8C \<le> b \<and> b \<le> 0x8F then Some CHR ''I''
     else if b = 0x91 then Some CHR ''N''
     else if 0x92 \<le> b \<and> b \<le> 0x96 then Some CHR ''O''
     else if 0x99 \<le> b \<and> b \<le> 0x9C then Some CHR ''U''
     else if b = 0x9D then Some CHR ''Y''
     else if 0xA0 \<le> b \<and> b \<le> 0xA5 then Some CHR ''a''
     else if b = 0xA7 then Some CHR ''c''
     else if 0xA8 \<le> b \<and> b \<le> 0xAB then Some CHR ''e''
     else if 0xAC \<le> b \<and> b \<le> 0xAF then Some CHR ''i''
     else if b = 0xB1 then Some CHR ''n''
     else if 0xB2 \<le> b \<and> b \<le> 0xB6 then Some CHR ''o''
     else if 0xB9 \<le> b \<and> b \<le> 0xBC then Some CHR ''u''
     else if b = 0xBD \<or> b = 0xBF then Some CHR ''y''
     else None)"

fun translit :: "string \<Rightarrow> string" where
  "translit [] = []"
| "translit [c] = [c]"
| "translit (c # d # cs) =
     (case (if (of_char c :: nat) = 0xC3 then latin1_base (of_char d) else None) of
        Some b \<Rightarrow> b # translit cs
      | None \<Rightarrow> c # translit (d # cs))"

text \<open>The maximal runs of letters and digits, with the (possibly empty) runs between separators.\<close>

fun alnum_runs :: "string \<Rightarrow> string list" where
  "alnum_runs [] = [[]]"
| "alnum_runs (c # cs) =
     (let r = alnum_runs cs in if is_alnum c then (c # hd r) # tl r else [] # r)"

text \<open>\<open>Array.prototype.join\<close>.\<close>

fun join_with :: "string \<Rightarrow> string list \<Rightarrow> string" where
  "join_with sep [] = []"
| "join_with sep [w] = w"
| "join_with sep (w # ws) = w @ sep @ join_with sep ws"

definition slugify :: "string \<Rightarrow> string" where
  "slugify s =
     join_with ''-'' (filter (\<lambda>w. w \<noteq> []) (alnum_runs (map lower_ascii (translit s))))"

text \<open>The characters a slug is made of.\<close>

definition slug_char :: "char \<Rightarrow> bool" where
  "slug_char c \<longleftrightarrow> is_lower c \<or> is_digit c \<or> c = CHR ''-''"

subsection \<open>Properties\<close>

text \<open>Text without a \<open><\<close> passes \<open>striptags\<close> unchanged.\<close>

lemma strip_step_plain:
  "st_state x = Plaintext \<Longrightarrow> c \<noteq> CHR ''<'' \<Longrightarrow>
   strip_step repl x c = x\<lparr>strip_out := strip_out x @ [c]\<rparr>"
  by (simp add: strip_step_def)

lemma foldl_strip_step_plain:
  "st_state x = Plaintext \<Longrightarrow> CHR ''<'' \<notin> set s \<Longrightarrow>
   foldl (strip_step repl) x s = x\<lparr>strip_out := strip_out x @ s\<rparr>"
  by (induction s arbitrary: x) (auto simp: strip_step_plain)

lemma striptags_no_tag [simp]: "CHR ''<'' \<notin> set s \<Longrightarrow> striptags s repl = s"
  by (simp add: striptags_def foldl_strip_step_plain strip_init_def)

lemma alnum_runs_nonempty [simp]: "alnum_runs s \<noteq> []"
  by (cases s) (simp_all add: Let_def)

lemma alnum_runs_chars:
  "w \<in> set (alnum_runs s) \<Longrightarrow> c \<in> set w \<Longrightarrow> c \<in> set s \<and> is_alnum c"
proof (induction s arbitrary: w rule: alnum_runs.induct)
  case 1
  then show ?case by simp
next
  case (2 c' cs)
  let ?r = "alnum_runs cs"
  have r: "?r = hd ?r # tl ?r" by simp
  show ?case
  proof (cases "is_alnum c'")
    case True
    with "2.prems"(1) have "w = c' # hd ?r \<or> w \<in> set (tl ?r)"
      by (simp add: Let_def)
    then show ?thesis
      using "2.IH" "2.prems"(2) True r by (metis list.set_intros(1,2) set_ConsD)
  next
    case False
    with "2.prems" "2.IH" show ?thesis by (auto simp: Let_def)
  qed
qed

lemma join_with_chars:
  "c \<in> set (join_with sep ws) \<Longrightarrow> c \<in> set sep \<or> (\<exists>w\<in>set ws. c \<in> set w)"
  by (induction sep ws rule: join_with.induct) auto

lemma slugify_chars: "c \<in> set (slugify s) \<Longrightarrow> slug_char c"
proof -
  assume "c \<in> set (slugify s)"
  then have "c = CHR ''-'' \<or> (c \<in> set (map lower_ascii (translit s)) \<and> is_alnum c)"
    unfolding slugify_def by (auto dest!: join_with_chars alnum_runs_chars)
  then show ?thesis
    by (auto simp: slug_char_def is_alnum_def lower_ascii_not_upper_result)
qed

lemma slug_char_not_upper: "slug_char c \<Longrightarrow> \<not> is_upper c"
  by (auto simp: slug_char_def is_upper_def is_lower_def is_digit_def)

lemma map_lower_slug [simp]: "\<forall>c\<in>set s. slug_char c \<Longrightarrow> map lower_ascii s = s"
  by (induction s) (auto dest: slug_char_not_upper)

end
