(* ===== verification/Slug.thy ===== *)
theory Slug
  imports Sanitize
begin

text \<open>
  The slug assigner of \<open>src/models/Store.js\<close> (lines 75--89). Given the slugs already
  stored, it queries every store whose slug matches the case-insensitive regular
  expression \<^verbatim>\<open>^(base)((-[0-9]*$)?)$\<close> and, when there are \<open>n > 0\<close> of them, appends
  \<open>-(n+1)\<close> to the base. This theory models the expression and the counting step over
  the list of stored slugs (a store without a slug field is \<open>None\<close>), and proves the
  invariant under which the scheme never repeats a slug: every stored slug lies in the
  family of a \<^emph>\<open>plain\<close> base (one that does not itself end in \<open>-digits\<close>), and each
  family holds exactly \<open>base, base-2, ..., base-n\<close> in creation order.
\<close>

subsection \<open>The regular expression\<close>

text \<open>The group \<^verbatim>\<open>((-[0-9]*$)?)\<close>: nothing, or a hyphen followed by digits only.\<close>

definition slug_suffix_ok :: "string \<Rightarrow> bool" where
  "slug_suffix_ok r = (case r of [] \<Rightarrow> True | c # ds \<Rightarrow> c = CHR ''-'' \<and> (\<forall>d\<in>set ds. is_digit d))"

text \<open>
  \<^verbatim>\<open>new RegExp(`^(${this.slug})((-[0-9]*$)?)$`, "i")\<close> tested against a stored slug. The base
  is a slug (letters, digits, hyphens), so it contains no metacharacter and matches
  literally; flag \<open>i\<close> compares both sides in lower case.
\<close>

definition slug_regex :: "string \<Rightarrow> string \<Rightarrow> bool" where
  "slug_regex base s \<longleftrightarrow>
     (let b = map lower_ascii base; t = map lower_ascii s
      in take (length b) t = b \<and> slug_suffix_ok (drop (length b) t))"

text \<open>\<^verbatim>\<open>this.constructor.find({ slug: slugRegEx })\<close>: the stored slugs that match.\<close>

definition stores_with_slug :: "string option list \<Rightarrow> string \<Rightarrow> string list" where
  "stores_with_slug slugs base =
     [s. Some s \<leftarrow> slugs, slug_regex base s]"

text \<open>Lines 80--87: the base, or the base with \<open>-(n+1)\<close> when \<open>n > 0\<close> stores matched.\<close>

definition next_slug :: "string option list \<Rightarrow> string \<Rightarrow> string" where
  "next_slug slugs base =
     (let n = length (stores_with_slug slugs base)
      in if n \<noteq> 0 then base @ ''-'' @ show_nat (n + 1) else base)"

subsection \<open>Families of slugs\<close>

text \<open>
  A plain base is made of slug characters and does not end in a hyphen followed by
  digits: the shape that a numbered slug \<open>base-k\<close> has.
\<close>

definition plain_base :: "string \<Rightarrow> bool" where
  "plain_base b \<longleftrightarrow>
     (\<forall>c\<in>set b. slug_char c) \<and>
     (case dropWhile is_digit (rev b) of [] \<Rightarrow> True | c # _ \<Rightarrow> c \<noteq> CHR ''-'')"

definition numbered :: "string \<Rightarrow> nat \<Rightarrow> string" where
  "numbered b k = b @ ''-'' @ show_nat k"

text \<open>The slugs a family holds after \<open>n\<close> stores with base \<open>b\<close> were created.\<close>

definition family :: "string \<Rightarrow> nat \<Rightarrow> string list" where
  "family b n = (if n = 0 then [] else b # map (numbered b) [2..<Suc n])"

definition slug_inv :: "string list \<Rightarrow> bool" where
  "slug_inv ss \<longleftrightarrow>
     (\<forall>s\<in>set ss. \<exists>b. plain_base b \<and> slug_regex b s) \<and>
     (\<forall>b. plain_base b \<longrightarrow> filter (slug_regex b) ss = family b (length (filter (slug_regex b) ss)))"

subsection \<open>The expression on lower-case slugs\<close>

lemma stores_with_slug_Some [simp]:
  "stores_with_slug (map Some ss) b = filter (slug_regex b) ss"
  by (induction ss) (simp_all add: stores_with_slug_def)

lemma slug_regex_iff:
  "slug_regex base s \<longleftrightarrow> (\<exists>r. map lower_ascii s = map lower_ascii base @ r \<and> slug_suffix_ok r)"
proof -
  have "\<And>b t. (take (length b) t = b \<and> slug_suffix_ok (drop (length b) t)) \<longleftrightarrow>
               (\<exists>r. t = b @ r \<and> slug_suffix_ok r)"
    by (metis append_eq_conv_conj)
  then show ?thesis by (simp add: slug_regex_def Let_def)
qed

lemma plain_base_lower [simp]: "plain_base b \<Longrightarrow> map lower_ascii b = b"
  by (simp add: plain_base_def)

lemma slug_suffix_ok_numbered: "slug_suffix_ok (''-'' @ show_nat k)"
  using show_nat_digits by (simp add: slug_suffix_ok_def)

lemma map_lower_show_nat [simp]: "map lower_ascii (show_nat k) = show_nat k"
  using show_nat_digits by (induction "show_nat k") (simp_all add: map_idI)

lemma slug_regex_base: "plain_base b \<Longrightarrow> slug_regex b b"
  by (simp add: slug_regex_iff slug_suffix_ok_def)

lemma slug_regex_numbered: "plain_base b \<Longrightarrow> slug_regex b (numbered b k)"
proof -
  assume b: "plain_base b"
  have "map lower_ascii (numbered b k) = b @ (''-'' @ show_nat k)"
    using b by (simp add: numbered_def)
  with b show ?thesis
    using slug_suffix_ok_numbered by (auto simp: slug_regex_iff)
qed

lemma plain_base_numeric_tail:
  "\<forall>d\<in>set ds. is_digit d \<Longrightarrow> \<not> plain_base (p @ CHR ''-'' # ds)"
proof -
  assume ds: "\<forall>d\<in>set ds. is_digit d"
  have "\<not> is_digit (CHR ''-'')" by (simp add: is_digit_def)
  with ds have "dropWhile is_digit (rev (p @ CHR ''-'' # ds)) = CHR ''-'' # rev p"
    by (simp add: dropWhile_append)
  then show ?thesis by (simp add: plain_base_def)
qed

text \<open>Two plain bases whose families share a slug are equal.\<close>

lemma plain_base_prefix:
  assumes b': "plain_base b'" and r: "slug_suffix_ok r"
    and eq: "b @ r = b' @ r'" and len: "length b \<le> length b'"
  shows "b = b'"
proof -
  from eq len obtain us where us: "b @ us = b'" "r = us @ r'"
    by (auto simp: append_eq_append_conv2)
  show ?thesis
  proof (cases us)
    case Nil
    with us show ?thesis by simp
  next
    case (Cons c us')
    with us r obtain ds where "c = CHR ''-''" "us' @ r' = ds" "\<forall>d\<in>set ds. is_digit d"
      by (auto simp: slug_suffix_ok_def)
    then have "\<forall>d\<in>set us'. is_digit d" by auto
    then have "\<not> plain_base (b @ CHR ''-'' # us')" by (rule plain_base_numeric_tail)
    with b' us Cons \<open>c = CHR ''-''\<close> show ?thesis by simp
  qed
qed

lemma slug_regex_unique_base:
  assumes "plain_base b" "plain_base b'" "slug_regex b s" "slug_regex b' s"
  shows "b = b'"
proof -
  from assms obtain r r' where
    r: "map lower_ascii s = b @ r" "slug_suffix_ok r" and
    r': "map lower_ascii s = b' @ r'" "slug_suffix_ok r'"
    by (auto simp: slug_regex_iff)
  show ?thesis
  proof (cases "length b \<le> length b'")
    case True
    with assms(2) r r' show ?thesis by (metis plain_base_prefix)
  next
    case False
    with assms(1) r r' show ?thesis by (metis plain_base_prefix nat_le_linear)
  qed
qed

subsection \<open>Families\<close>

lemma numbered_inj [simp]: "numbered b k = numbered b k' \<longleftrightarrow> k = k'"
  by (simp add: numbered_def)

lemma base_not_numbered [simp]: "b \<noteq> numbered b k"
  by (simp add: numbered_def)

lemma distinct_family: "distinct (family b n)"
  by (auto simp: family_def distinct_map inj_on_def)

lemma family_Suc:
  assumes "0 < n"
  shows "family b (Suc n) = family b n @ [numbered b (Suc n)]"
proof -
  from assms have "[2..<Suc (Suc n)] = [2..<Suc n] @ [Suc n]" by simp
  with assms show ?thesis by (simp add: family_def)
qed

lemma family_one: "family b (Suc 0) = [b]"
  by (simp add: family_def)

lemma length_family [simp]: "length (family b n) = n"
  by (cases n) (auto simp: family_def)

lemma slug_inv_Nil: "slug_inv []"
  by (simp add: slug_inv_def family_def)

text \<open>The invariant gives distinct slugs: each family is a distinct class.\<close>

lemma slug_inv_distinct: "slug_inv ss \<Longrightarrow> distinct ss"
proof (rule distinct_if_filters_distinct)
  fix s assume inv: "slug_inv ss" and s: "s \<in> set ss"
  then obtain b where b: "plain_base b" "slug_regex b s"
    by (auto simp: slug_inv_def)
  with inv have "filter (slug_regex b) ss = family b (length (filter (slug_regex b) ss))"
    by (simp add: slug_inv_def)
  then have "distinct (filter (slug_regex b) ss)"
    by (metis distinct_family)
  with b show "\<exists>P. P s \<and> distinct (filter P ss)" by blast
qed

subsection \<open>The counting step keeps the invariant\<close>

lemma next_slug_eq:
  "next_slug slugs b =
     (let n = length (stores_with_slug slugs b) in if n \<noteq> 0 then numbered b (Suc n) else b)"
  by (simp add: next_slug_def numbered_def)

lemma next_slug_in_family:
  "plain_base b \<Longrightarrow> slug_regex b (next_slug (map Some ss) b)"
  by (simp add: next_slug_eq Let_def slug_regex_base slug_regex_numbered)

lemma next_slug_extends_family:
  assumes "plain_base b" and "filter (slug_regex b) ss = family b n"
  shows "filter (slug_regex b) (ss @ [next_slug (map Some ss) b]) = family b (Suc n)"
proof -
  have n: "length (filter (slug_regex b) ss) = n"
    using assms(2) by simp
  show ?thesis
  proof (cases n)
    case 0
    with n assms(1) show ?thesis
      by (simp add: next_slug_eq slug_regex_base family_one)
  next
    case (Suc m)
    with n assms show ?thesis
      by (simp add: next_slug_eq family_Suc slug_regex_numbered)
  qed
qed

lemma slug_inv_next_slug:
  assumes inv: "slug_inv ss" and b: "plain_base b"
  shows "slug_inv (ss @ [next_slug (map Some ss) b])"
proof -
  let ?new = "next_slug (map Some ss) b"
  have new: "slug_regex b ?new" using b by (rule next_slug_in_family)
  have fam: "filter (slug_regex b') (ss @ [?new]) =
             family b' (length (filter (slug_regex b') (ss @ [?new])))"
    if b': "plain_base b'" for b'
  proof (cases "b' = b")
    case True
    from inv b have "filter (slug_regex b) ss = family b (length (filter (slug_regex b) ss))"
      by (simp add: slug_inv_def)
    with True b show ?thesis
      by (metis length_family next_slug_extends_family)
  next
    case False
    then have "\<not> slug_regex b' ?new"
      using b b' new slug_regex_unique_base by blast
    with inv b' show ?thesis by (simp add: slug_inv_def)
  qed
  from inv new b have "\<forall>s\<in>set (ss @ [?new]). \<exists>b. plain_base b \<and> slug_regex b s"
    by (auto simp: slug_inv_def)
  with fam show ?thesis by (simp add: slug_inv_def)
qed

end
