(* ===== verification/Review.thy ===== *)
theory Review
  imports Prelude
begin

text \<open>
  The review document of \<open>src/models/Review.js\<close>: its fields, the schema's validators
  (author, store and text required; a rating, when given, between 1 and 5), and the
  insertion of a review into the collection. The repository's \<open>src/\<close> has no review
  controller, so \<open>add_review\<close> follows the specification (section 3: a review is
  created once against a store and never changed).
\<close>

record review =
  review_id :: object_id
  r_created :: timestamp
  r_author :: "object_id option"
  r_store :: "object_id option"
  r_text :: string
  rating :: "real option"

text \<open>Mongoose's messages for the failed validators, in the schema's field order.\<close>

definition review_errors :: "review \<Rightarrow> string list" where
  "review_errors r =
     (if r_author r = None then [''You must supply an author''] else []) @
     (if r_store r = None then [''You must supply a store''] else []) @
     (if r_text r = [] then [''Your review must have a text''] else []) @
     (case rating r of
        None \<Rightarrow> []
      | Some x \<Rightarrow> (if x < 1 then [''rating is less than minimum allowed value (1)'']
                  else if 5 < x then [''rating is more than maximum allowed value (5)'']
                  else []))"

definition add_review :: "review list \<Rightarrow> review \<Rightarrow> string list + review list" where
  "add_review rs r = (let es = review_errors r in if es = [] then Inr (rs @ [r]) else Inl es)"

text \<open>The reviews of a store: the virtual \<open>reviews\<close> of \<open>src/models/Store.js\<close> (lines 138--142).\<close>

definition reviews_of :: "review list \<Rightarrow> object_id \<Rightarrow> review list" where
  "reviews_of rs sid = filter (\<lambda>r. r_store r = Some sid) rs"

lemma add_review_valid:
  "add_review rs r = Inr rs' \<Longrightarrow> rs' = rs @ [r] \<and> r_text r \<noteq> [] \<and>
     (\<forall>x. rating r = Some x \<longrightarrow> 1 \<le> x \<and> x \<le> 5)"
  by (auto simp: add_review_def review_errors_def Let_def split: if_splits option.splits)

end
