(* ===== verification/StoreModel.thy ===== *)
theory StoreModel
  imports Slug Review
begin

text \<open>
  The store document of \<open>src/models/Store.js\<close> and the handlers of
  \<open>src/controllers/storeController.js\<close> that write it. The collection is a list in
  insertion (natural) order; \<open>findOne\<close> without a sort returns the first match in it.
  Saving a new document follows Mongoose: the schema's setters (\<open>trim\<close>) apply when
  the document is built, validation runs before the pre-save hooks, then the two hooks
  run in the order they were registered (strip tags from the name, then assign the
  slug), then MongoDB inserts the document, which the \<open>2dsphere\<close> index refuses
  unless the location is a valid point. Object ids are numbers drawn from a counter.
\<close>

subsection \<open>Documents\<close>

record location =
  loc_type :: string
  coordinates :: "real option list"
  address :: string

record store =
  store_id :: object_id
  name :: string
  slug :: "string option"
  description :: string
  tags :: "string list"
  created :: timestamp
  location :: location
  photo :: "string option"
  author :: "object_id option"

text \<open>
  A request body as the edit form sends it (\<open>req.body\<close>): an empty coordinate field
  is cast to \<open>null\<close> (\<open>None\<close>); \<open>photo\<close> is set only when \<open>resize\<close> stored an upload;
  \<open>author\<close> is present only if the client sends one. The tags are checkboxes: with
  none checked the form sends no \<open>tags\<close> field, written \<open>in_tags = []\<close>. Any other
  schema path a client posts reaches the document as well: \<open>slug\<close> and \<open>created\<close>
  (\<open>in_slug\<close>, \<open>in_created\<close>), which the edit form never sends. A posted \<open>_id\<close> is
  not modelled: object ids come from the collection's counter.
\<close>

record store_input =
  in_name :: string
  in_description :: string
  in_tags :: "string list"
  in_coordinates :: "real option list"
  in_address :: string
  in_photo :: "string option"
  in_author :: "object_id option"
  in_slug :: "string option"
  in_created :: "timestamp option"

record catalog =
  stores :: "store list"
  reviews :: "review list"
  next_oid :: object_id

definition empty_catalog :: catalog where
  "empty_catalog = \<lparr>stores = [], reviews = [], next_oid = 1\<rparr>"

datatype store_error =
    ValidationError "string list"
  | GeoIndexError
  | TypeError
  | OwnerError string

subsection \<open>The schema\<close>

text \<open>\<^verbatim>\<open>new Store(req.body)\<close>: casting, the \<open>trim\<close> setters and the defaults (lines 12--51).\<close>

definition new_store :: "object_id \<Rightarrow> timestamp \<Rightarrow> store_input \<Rightarrow> store" where
  "new_store i now b =
     \<lparr>store_id = i, name = trim (in_name b), slug = in_slug b, description = trim (in_description b),
      tags = in_tags b, created = (case in_created b of None \<Rightarrow> now | Some t \<Rightarrow> t),
      location = \<lparr>loc_type = ''Point'', coordinates = in_coordinates b, address = in_address b\<rparr>,
      photo = in_photo b, author = in_author b\<rparr>"

text \<open>The schema's \<open>required\<close> validators, in field order (lines 13--50).\<close>

definition store_errors :: "store \<Rightarrow> string list" where
  "store_errors s =
     (if name s = [] then [''Please enter a store name!''] else []) @
     (if None \<in> set (coordinates (location s)) then [''You must supply coordinates''] else []) @
     (if address (location s) = [] then [''You must supply an address''] else []) @
     (if author s = None then [''You must supply an author''] else [])"

text \<open>The \<open>2dsphere\<close> index on \<open>location\<close> (lines 60--62) accepts a GeoJSON point only.\<close>

definition geo_point_ok :: "location \<Rightarrow> bool" where
  "geo_point_ok l \<longleftrightarrow> loc_type l = ''Point'' \<and>
     (case coordinates l of
        [Some lng, Some lat] \<Rightarrow> -180 \<le> lng \<and> lng \<le> 180 \<and> -90 \<le> lat \<and> lat \<le> 90
      | _ \<Rightarrow> False)"

subsection \<open>The pre-save hooks and save\<close>

text \<open>Lines 65--72: strip tags from a modified name (assigning the name runs \<open>trim\<close> again).\<close>

definition strip_name_hook :: "bool \<Rightarrow> store \<Rightarrow> store" where
  "strip_name_hook modified s =
     (if \<not> modified then s else s\<lparr>name := trim (striptags (name s) default_store)\<rparr>)"

text \<open>Lines 75--89: slug a modified name against the slugs stored so far.\<close>

definition slug_hook :: "string option list \<Rightarrow> bool \<Rightarrow> store \<Rightarrow> store" where
  "slug_hook slugs modified s =
     (if \<not> modified then s else s\<lparr>slug := Some (next_slug slugs (slugify (name s)))\<rparr>)"

text \<open>\<^verbatim>\<open>save()\<close> of a new document: every path of a new document is modified.\<close>

definition save_new :: "catalog \<Rightarrow> store \<Rightarrow> store_error + catalog \<times> store" where
  "save_new c s =
     (let es = store_errors s in
      if es \<noteq> [] then Inl (ValidationError es)
      else let s' = slug_hook (map slug (stores c)) True (strip_name_hook True s) in
           if geo_point_ok (location s') then Inr (c\<lparr>stores := stores c @ [s']\<rparr>, s')
           else Inl GeoIndexError)"

subsection \<open>Handlers\<close>

text \<open>A missing slug prints as \<open>undefined\<close> in a template literal.\<close>

definition slug_text :: "string option \<Rightarrow> string" where
  "slug_text so = (case so of None \<Rightarrow> ''undefined'' | Some s \<Rightarrow> s)"

text \<open>\<open>createStore\<close> (lines 61--70): the author is the logged-in user; redirect to the slug.\<close>

definition create_store ::
  "catalog \<Rightarrow> object_id \<Rightarrow> timestamp \<Rightarrow> store_input \<Rightarrow> store_error + catalog \<times> string" where
  "create_store c uid now b =
     (let s = new_store (next_oid c) now (b\<lparr>in_author := Some uid\<rparr>) in
      case save_new (c\<lparr>next_oid := Suc (next_oid c)\<rparr>) s of
        Inl e \<Rightarrow> Inl e
      | Inr (c', s') \<Rightarrow> Inr (c', ''/store/'' @ slug_text (slug s')))"

text \<open>\<^verbatim>\<open>Store.findOne({ _id: id })\<close>.\<close>

definition find_store :: "catalog \<Rightarrow> object_id \<Rightarrow> store option" where
  "find_store c sid = find (\<lambda>s. store_id s = sid) (stores c)"

text \<open>\<open>getStoreBySlug\<close> (lines 133--139): the store with its reviews, or \<open>None\<close> (\<open>next()\<close>).\<close>

definition get_store_by_slug :: "catalog \<Rightarrow> string \<Rightarrow> (store \<times> review list) option" where
  "get_store_by_slug c sl =
     (case find (\<lambda>s. slug s = Some sl) (stores c) of
        None \<Rightarrow> None
      | Some s \<Rightarrow> Some (s, reviews_of (reviews c) (store_id s)))"

text \<open>\<open>confirmOwner\<close> (lines 97--101).\<close>

definition confirm_owner :: "store \<Rightarrow> object_id \<Rightarrow> store_error + unit" where
  "confirm_owner s uid =
     (if author s \<noteq> Some uid then Inl (OwnerError ''You must own the store to edit it!'') else Inr ())"

text \<open>
  \<open>editStore\<close> (lines 103--110): a missing store makes \<open>confirmOwner\<close> read a field
  of \<open>null\<close>, a \<open>TypeError\<close>.
\<close>

definition edit_store :: "catalog \<Rightarrow> object_id \<Rightarrow> object_id \<Rightarrow> store_error + store" where
  "edit_store c sid uid =
     (case find_store c sid of
        None \<Rightarrow> Inl TypeError
      | Some s \<Rightarrow> (case confirm_owner s uid of Inl e \<Rightarrow> Inl e | Inr _ \<Rightarrow> Inr s))"

text \<open>
  \<open>updateStore\<close> (lines 112--131): strip tags from the name, then
  \<^verbatim>\<open>findOneAndUpdate({ _id }, req.body, { new: true, runValidators: true })\<close>. An update
  query runs the validators of the paths it sets, but no \<open>save\<close> hook: the slug is
  left as it was. A path the body does not carry (no tag, no photo, no author) keeps
  its stored value. A missing store is \<open>null\<close>, whose \<open>name\<close> the flash message reads.
\<close>

definition update_errors :: "string \<Rightarrow> store_input \<Rightarrow> string list" where
  "update_errors nm b =
     (if trim nm = [] then [''Please enter a store name!''] else []) @
     (if None \<in> set (in_coordinates b) then [''You must supply coordinates''] else []) @
     (if in_address b = [] then [''You must supply an address''] else [])"

definition apply_update :: "string \<Rightarrow> store_input \<Rightarrow> store \<Rightarrow> store" where
  "apply_update nm b s =
     s\<lparr>name := trim nm, description := trim (in_description b),
       tags := (if in_tags b = [] then tags s else in_tags b),
       location := \<lparr>loc_type = ''Point'', coordinates = in_coordinates b, address = in_address b\<rparr>,
       photo := (case in_photo b of None \<Rightarrow> photo s | Some p \<Rightarrow> Some p),
       author := (case in_author b of None \<Rightarrow> author s | Some a \<Rightarrow> Some a),
       slug := (case in_slug b of None \<Rightarrow> slug s | Some x \<Rightarrow> Some x),
       created := (case in_created b of None \<Rightarrow> created s | Some t \<Rightarrow> t)\<rparr>"

definition update_store ::
  "catalog \<Rightarrow> object_id \<Rightarrow> store_input \<Rightarrow> store_error + catalog \<times> string" where
  "update_store c sid b =
     (let nm = striptags (in_name b) default_store; es = update_errors nm b in
      if es \<noteq> [] then Inl (ValidationError es)
      else case find_store c sid of
        None \<Rightarrow> Inl TypeError
      | Some s \<Rightarrow>
          (let s' = apply_update nm b s in
           if geo_point_ok (location s') then
             Inr (c\<lparr>stores := update_first (\<lambda>t. store_id t = sid) (apply_update nm b) (stores c)\<rparr>,
                  ''/stores/'' @ show_nat sid @ ''/edit'')
           else Inl GeoIndexError))"

subsection \<open>Runs of creations\<close>

text \<open>Creations one at a time, each from the catalog the previous one left (section 8.1).\<close>

fun create_all ::
  "catalog \<Rightarrow> (object_id \<times> timestamp \<times> store_input) list \<Rightarrow> store_error + catalog" where
  "create_all c [] = Inr c"
| "create_all c ((u, t, b) # rs) =
     (case create_store c u t b of Inl e \<Rightarrow> Inl e | Inr (c', _) \<Rightarrow> create_all c' rs)"

text \<open>The name a creation stores, and the base its slug is built from.\<close>

definition stored_name :: "store_input \<Rightarrow> string" where
  "stored_name b = trim (striptags (trim (in_name b)) default_store)"

definition base_slug :: "store_input \<Rightarrow> string" where
  "base_slug b = slugify (stored_name b)"

text \<open>A request as the form sends it, used by the examples below.\<close>

definition form_input :: "string \<Rightarrow> store_input" where
  "form_input n =
     \<lparr>in_name = n, in_description = [], in_tags = [], in_coordinates = [Some (-79), Some 43],
      in_address = ''Main St'', in_photo = None, in_author = None, in_slug = None, in_created = None\<rparr>"

text \<open>A stored document for the examples: only id, name and tags vary.\<close>

definition sample_store :: "object_id \<Rightarrow> string \<Rightarrow> string list \<Rightarrow> store" where
  "sample_store i n ts =
     \<lparr>store_id = i, name = n, slug = Some n, description = [], tags = ts, created = 0,
      location = \<lparr>loc_type = ''Point'', coordinates = [Some 0, Some 0], address = ''x''\<rparr>,
      photo = None, author = Some 1\<rparr>"

subsection \<open>The catalog as a state machine\<close>

text \<open>
  A step creates a store, updates one, or adds a review. Creations are restricted to
  names whose base slug is plain (\<open>plain_base\<close>); without that restriction the
  counting scheme repeats slugs (theorem \<open>create_duplicate_slug\<close>). The relation is
  parametrised by the update bodies it admits: any body (\<open>\<lambda>_. True\<close>), or bodies
  without a \<open>slug\<close> field (\<open>no_slug_field\<close>), as the edit form posts them; a body
  with a slug sets it (theorem \<open>update_store_sets_slug\<close>).
\<close>

definition no_slug_field :: "store_input \<Rightarrow> bool" where
  "no_slug_field b \<longleftrightarrow> in_slug b = None"

inductive catalog_step :: "(store_input \<Rightarrow> bool) \<Rightarrow> catalog \<Rightarrow> catalog \<Rightarrow> bool"
  for ok :: "store_input \<Rightarrow> bool" where
  create: "create_store c u t b = Inr (c', p) \<Longrightarrow> plain_base (base_slug b) \<Longrightarrow> catalog_step ok c c'"
| update: "ok b \<Longrightarrow> update_store c sid b = Inr (c', p) \<Longrightarrow> catalog_step ok c c'"
| review: "add_review (reviews c) r = Inr rs \<Longrightarrow> catalog_step ok c (c\<lparr>reviews := rs\<rparr>)"

inductive reachable_catalog :: "(store_input \<Rightarrow> bool) \<Rightarrow> catalog \<Rightarrow> bool"
  for ok :: "store_input \<Rightarrow> bool" where
  init: "reachable_catalog ok empty_catalog"
| step: "reachable_catalog ok c \<Longrightarrow> catalog_step ok c c' \<Longrightarrow> reachable_catalog ok c'"

inductive_cases catalog_stepE: "catalog_step ok c c'"

subsection \<open>Invariants of the catalog\<close>

text \<open>Every store has a slug, and the slugs satisfy the family invariant of \<open>Slug\<close>.\<close>

definition catalog_slug_inv :: "catalog \<Rightarrow> bool" where
  "catalog_slug_inv c \<longleftrightarrow> (\<exists>ss. map slug (stores c) = map Some ss \<and> slug_inv ss)"

text \<open>Object ids are unique and below the next id to be drawn.\<close>

definition ids_inv :: "catalog \<Rightarrow> bool" where
  "ids_inv c \<longleftrightarrow> distinct (map store_id (stores c)) \<and> (\<forall>i\<in>set (map store_id (stores c)). i < next_oid c)"

text \<open>
  Every stored document has what the schema and the geo index require of it: a valid
  point, an address, an author and a slug (the name is left out: see
  \<open>create_store_empty_name\<close>).
\<close>

definition stored_ok :: "store \<Rightarrow> bool" where
  "stored_ok s \<longleftrightarrow> geo_point_ok (location s) \<and> address (location s) \<noteq> [] \<and> author s \<noteq> None \<and> slug s \<noteq> None"

definition schema_inv :: "catalog \<Rightarrow> bool" where
  "schema_inv c \<longleftrightarrow> (\<forall>s\<in>set (stores c). stored_ok s)"

text \<open>Every stored rating is between 1 and 5 (the \<open>min\<close> and \<open>max\<close> of \<open>Review.js\<close>).\<close>

definition ratings_inv :: "catalog \<Rightarrow> bool" where
  "ratings_inv c \<longleftrightarrow> (\<forall>r\<in>set (reviews c). \<forall>x. rating r = Some x \<longrightarrow> 1 \<le> x \<and> x \<le> 5)"

subsection \<open>What a successful creation does\<close>

lemma create_store_Inr:
  assumes "create_store c u t b = Inr (c', p)"
  obtains s' where "stores c' = stores c @ [s']"
    and "slug s' = Some (next_slug (map slug (stores c)) (base_slug b))"
    and "p = ''/store/'' @ next_slug (map slug (stores c)) (base_slug b)"
    and "name s' = stored_name b" and "author s' = Some u" and "store_id s' = next_oid c"
    and "created s' = (case in_created b of None \<Rightarrow> t | Some t' \<Rightarrow> t')" and "photo s' = in_photo b" and "coordinates (location s') = in_coordinates b" and "store_errors (new_store (next_oid c) t (b\<lparr>in_author := Some u\<rparr>)) = []"
    and "geo_point_ok (location s')" and "address (location s') \<noteq> []"
    and "reviews c' = reviews c" and "next_oid c' = Suc (next_oid c)"
  using assms
  by (auto simp: create_store_def save_new_def Let_def slug_hook_def strip_name_hook_def
      new_store_def stored_name_def base_slug_def slug_text_def store_errors_def split: if_splits)

lemma create_store_Inl_unchanged:
  "create_store c u t b = Inl e \<Longrightarrow> \<exists>es. e = ValidationError es \<or> e = GeoIndexError"
  by (auto simp: create_store_def save_new_def Let_def split: if_splits sum.splits)

lemma update_store_Inr:
  assumes "update_store c sid b = Inr (c', p)"
  obtains s where "find_store c sid = Some s"
    and "stores c' = update_first (\<lambda>t. store_id t = sid)
                       (apply_update (striptags (in_name b) default_store) b) (stores c)"
    and "reviews c' = reviews c" and "next_oid c' = next_oid c"
    and "p = ''/stores/'' @ show_nat sid @ ''/edit''"
    and "geo_point_ok (location (apply_update (striptags (in_name b) default_store) b s))"
    and "in_address b \<noteq> []"
  using assms
  by (auto simp: update_store_def update_errors_def Let_def split: if_splits option.splits)

lemma apply_update_keeps [simp]:
  "store_id (apply_update nm b s) = store_id s"
  "slug (apply_update nm b s) = (case in_slug b of None \<Rightarrow> slug s | Some x \<Rightarrow> Some x)"
  "created (apply_update nm b s) = (case in_created b of None \<Rightarrow> created s | Some t \<Rightarrow> t)"
  by (simp_all add: apply_update_def)

lemma update_store_found:
  assumes "update_store c sid b = Inr (c', p)" and "find_store c sid = Some s"
  shows "find_store c' sid = Some (apply_update (striptags (in_name b) default_store) b s)"
proof -
  from assms(1) have "stores c' = update_first (\<lambda>t. store_id t = sid)
                         (apply_update (striptags (in_name b) default_store) b) (stores c)"
    by (rule update_store_Inr)
  moreover from assms(2) have "find (\<lambda>t. store_id t = sid) (stores c) = Some s"
    by (simp add: find_store_def)
  moreover have "store_id s = sid"
    using assms(2) by (auto simp: find_store_def dest: find_Some_iff [THEN iffD1])
  ultimately show ?thesis
    by (simp add: find_store_def find_update_first)
qed

subsection \<open>The invariants are kept\<close>

lemma catalog_slug_inv_empty [simp]: "catalog_slug_inv empty_catalog"
  using slug_inv_Nil by (auto simp: catalog_slug_inv_def empty_catalog_def)

lemma catalog_slug_inv_distinct: "catalog_slug_inv c \<Longrightarrow> distinct (map slug (stores c))"
proof -
  assume "catalog_slug_inv c"
  then obtain ss where ss: "map slug (stores c) = map Some ss" "slug_inv ss"
    by (auto simp: catalog_slug_inv_def)
  from ss(2) have "distinct (map Some ss)"
    by (simp add: distinct_map slug_inv_distinct)
  with ss(1) show ?thesis by simp
qed

lemma create_store_slug_inv:
  assumes inv: "catalog_slug_inv c" and b: "plain_base (base_slug b)"
    and cr: "create_store c u t b = Inr (c', p)"
  shows "catalog_slug_inv c'"
proof -
  from inv obtain ss where ss: "map slug (stores c) = map Some ss" "slug_inv ss"
    by (auto simp: catalog_slug_inv_def)
  from cr obtain s' where "stores c' = stores c @ [s']"
    and "slug s' = Some (next_slug (map slug (stores c)) (base_slug b))"
    by (rule create_store_Inr)
  with ss have "map slug (stores c') = map Some (ss @ [next_slug (map Some ss) (base_slug b)])"
    by simp
  moreover have "slug_inv (ss @ [next_slug (map Some ss) (base_slug b)])"
    using ss(2) b by (rule slug_inv_next_slug)
  ultimately show ?thesis unfolding catalog_slug_inv_def by blast
qed

lemma create_all_slug_inv:
  "catalog_slug_inv c \<Longrightarrow> \<forall>(u, t, b)\<in>set rs. plain_base (base_slug b) \<Longrightarrow>
   create_all c rs = Inr c' \<Longrightarrow> catalog_slug_inv c'"
proof (induction rs arbitrary: c)
  case Nil
  then show ?case by simp
next
  case (Cons r rs)
  obtain u t b where r: "r = (u, t, b)" by (cases r)
  with Cons.prems(3) obtain c1 p where cr: "create_store c u t b = Inr (c1, p)"
    and rest: "create_all c1 rs = Inr c'"
    by (auto split: sum.splits)
  from Cons.prems(1,2) r cr have "catalog_slug_inv c1"
    by (auto intro: create_store_slug_inv)
  with Cons.prems(2) rest show ?case by (intro Cons.IH) auto
qed

lemma update_store_slugs:
  "update_store c sid b = Inr (c', p) \<Longrightarrow> no_slug_field b \<Longrightarrow> map slug (stores c') = map slug (stores c)"
  by (erule update_store_Inr) (simp add: map_update_first no_slug_field_def)

lemma update_store_slug_inv:
  "catalog_slug_inv c \<Longrightarrow> update_store c sid b = Inr (c', p) \<Longrightarrow> no_slug_field b \<Longrightarrow> catalog_slug_inv c'"
  by (simp add: catalog_slug_inv_def update_store_slugs)

lemma ids_inv_empty [simp]: "ids_inv empty_catalog"
  by (simp add: ids_inv_def empty_catalog_def)

lemma create_store_ids_inv:
  "ids_inv c \<Longrightarrow> create_store c u t b = Inr (c', p) \<Longrightarrow> ids_inv c'"
  by (erule create_store_Inr) (auto simp: ids_inv_def)

lemma update_store_ids_inv:
  "ids_inv c \<Longrightarrow> update_store c sid b = Inr (c', p) \<Longrightarrow> ids_inv c'"
  by (erule update_store_Inr) (simp add: ids_inv_def map_update_first)


lemma catalog_step_invs:
  "catalog_step no_slug_field c c' \<Longrightarrow> catalog_slug_inv c \<and> ids_inv c \<Longrightarrow> catalog_slug_inv c' \<and> ids_inv c'"
proof (induction rule: catalog_step.induct)
  case (create c u t b c' p)
  then show ?case by (blast intro: create_store_slug_inv create_store_ids_inv)
next
  case (update b c sid c' p)
  then show ?case by (blast intro: update_store_slug_inv update_store_ids_inv)
next
  case (review c r rs)
  then show ?case by (simp add: catalog_slug_inv_def ids_inv_def)
qed

lemma reachable_catalog_invs: "reachable_catalog no_slug_field c \<Longrightarrow> catalog_slug_inv c \<and> ids_inv c"
  by (induction rule: reachable_catalog.induct) (auto dest: catalog_step_invs)

lemma location_apply_update: "location (apply_update nm b t) = location (apply_update nm b s)"
  by (simp add: apply_update_def)

lemma stored_ok_apply_update:
  assumes "stored_ok t" and "geo_point_ok (location (apply_update nm b s))" and "in_address b \<noteq> []"
  shows "stored_ok (apply_update nm b t)"
  using assms unfolding stored_ok_def
  by (auto simp: location_apply_update [of nm b t s] apply_update_def split: option.splits)

lemma schema_step: "catalog_step ok c c' \<Longrightarrow> schema_inv c \<Longrightarrow> schema_inv c'"
proof (induction rule: catalog_step.induct)
  case (create c u t b c' p)
  then show ?case
    by (elim create_store_Inr) (auto simp: schema_inv_def stored_ok_def)
next
  case (update b c sid c' p)
  from update.hyps(2) show ?case
  proof (rule update_store_Inr)
    fix s
    assume us: "stores c' = update_first (\<lambda>t. store_id t = sid)
        (apply_update (striptags (in_name b) default_store) b) (stores c)"
      and g: "geo_point_ok (location (apply_update (striptags (in_name b) default_store) b s))"
      and a: "in_address b \<noteq> []"
    show "schema_inv c'"
      using update.prems unfolding schema_inv_def us
      by (intro update_first_all) (auto intro: stored_ok_apply_update [OF _ g a])
  qed
next
  case (review c r rs)
  then show ?case by (simp add: schema_inv_def)
qed

lemma ratings_step: "catalog_step ok c c' \<Longrightarrow> ratings_inv c \<Longrightarrow> ratings_inv c'"
proof (induction rule: catalog_step.induct)
  case (create c u t b c' p)
  then show ?case by (elim create_store_Inr) (simp add: ratings_inv_def)
next
  case (update b c sid c' p)
  then show ?case by (elim update_store_Inr) (simp add: ratings_inv_def)
next
  case (review c r rs)
  from review.hyps have "rs = reviews c @ [r] \<and> (\<forall>x. rating r = Some x \<longrightarrow> 1 \<le> x \<and> x \<le> 5)"
    by (blast dest: add_review_valid)
  with review.prems show ?case by (auto simp: ratings_inv_def)
qed

lemma reachable_catalog_schema_ratings: "reachable_catalog ok c \<Longrightarrow> schema_inv c \<and> ratings_inv c"
  by (induction rule: reachable_catalog.induct)
    (auto simp: schema_inv_def ratings_inv_def empty_catalog_def dest: schema_step ratings_step)

subsection \<open>Properties of the handlers\<close>

text \<open>
  C1. Slug uniqueness for sequential creation (specification, section 8.1): when stores
  are created one at a time from an empty catalog, and no name's base slug itself ends in
  a hyphen followed by digits, no two stores share a slug.
\<close>

theorem create_all_distinct_slugs:
  assumes "create_all empty_catalog rs = Inr c"
    and "\<forall>(u, t, b)\<in>set rs. plain_base (base_slug b)"
  shows "distinct (map slug (stores c))"
proof -
  have "catalog_slug_inv c"
    using catalog_slug_inv_empty assms(2,1) by (rule create_all_slug_inv)
  then show ?thesis by (rule catalog_slug_inv_distinct)
qed

theorem create_all_distinct_slugs_witness:
  "(case create_all empty_catalog [(7, 0, form_input ''Joe''), (8, 1, form_input ''Joe'')] of
      Inr c \<Rightarrow> map slug (stores c) = [Some ''joe'', Some ''joe-2''] \<and> distinct (map slug (stores c))
    | Inl _ \<Rightarrow> False)"
proof -
  let ?rs = "[(7::nat, 0::int, form_input ''Joe''), (8, 1, form_input ''Joe'')]"
  have ex: "create_all empty_catalog ?rs = Inr (projr (create_all empty_catalog ?rs))"
    by code_simp
  then obtain c where run: "create_all empty_catalog ?rs = Inr c"
    by blast
  have c: "c = projr (create_all empty_catalog ?rs)"
    by (simp only: run sum.sel)
  have plain: "\<forall>(u, t, b)\<in>set ?rs. plain_base (base_slug b)"
    by code_simp
  have "map slug (stores (projr (create_all empty_catalog ?rs))) = [Some ''joe'', Some ''joe-2'']"
    by code_simp
  then have slugs: "map slug (stores c) = [Some ''joe'', Some ''joe-2'']"
    by (simp only: c)
  show ?thesis
    using create_all_distinct_slugs [OF run plain] slugs by (simp only: run sum.case)
qed

text \<open>
  C2. The counting scheme is not unique in general: when the expression of a new
  store's base matches \<open>n \<ge> 1\<close> stored slugs and \<open>base-(n+1)\<close> is itself one of them,
  \<open>createStore\<close> stores a slug the catalog already holds. A store named \<^verbatim>\<open>Joe 2\<close>
  followed by one named \<^verbatim>\<open>Joe\<close> is such a case.
\<close>

theorem create_duplicate_slug:
  assumes cr: "create_store c u t b = Inr (c', p)"
    and n: "stores_with_slug (map slug (stores c)) (base_slug b) \<noteq> []"
    and taken: "Some (base_slug b @ ''-'' @ show_nat (length (stores_with_slug (map slug (stores c)) (base_slug b)) + 1))
                  \<in> set (map slug (stores c))"
  shows "\<not> distinct (map slug (stores c'))"
proof -
  from cr obtain s' where st: "stores c' = stores c @ [s']"
    and sl: "slug s' = Some (next_slug (map slug (stores c)) (base_slug b))"
    by (rule create_store_Inr)
  from sl n have "slug s' \<in> set (map slug (stores c))"
    using taken by (simp add: next_slug_def Let_def)
  with st show ?thesis by simp
qed

theorem create_duplicate_slug_witness:
  "let c = fst (projr (create_store empty_catalog 7 0 (form_input ''Joe 2'')))
   in stores_with_slug (map slug (stores c)) (base_slug (form_input ''Joe'')) = [''joe-2''] \<and>
      (case create_store c 8 1 (form_input ''Joe'') of
         Inr (c', p) \<Rightarrow> map slug (stores c') = [Some ''joe-2'', Some ''joe-2''] \<and> \<not> distinct (map slug (stores c'))
       | Inl _ \<Rightarrow> False)"
proof -
  define c where "c = fst (projr (create_store empty_catalog 7 0 (form_input ''Joe 2'')))"
  have ex: "create_store c 8 1 (form_input ''Joe'') = Inr (projr (create_store c 8 1 (form_input ''Joe'')))"
    unfolding c_def by code_simp
  obtain c' p where run: "create_store c 8 1 (form_input ''Joe'') = Inr (c', p)"
    using ex by (metis prod.collapse)
  have m: "stores_with_slug (map slug (stores c)) (base_slug (form_input ''Joe'')) = [''joe-2'']"
    unfolding c_def by code_simp
  have bs: "base_slug (form_input ''Joe'') = ''joe''" by code_simp
  have taken: "Some (''joe'' @ ''-'' @ show_nat (length [''joe-2''] + 1)) \<in> set (map slug (stores c))"
    unfolding c_def by code_simp
  have "map slug (stores (fst (projr (create_store c 8 1 (form_input ''Joe''))))) = [Some ''joe-2'', Some ''joe-2'']"
    unfolding c_def by code_simp
  then have sl: "map slug (stores c') = [Some ''joe-2'', Some ''joe-2'']"
    by (simp add: run)
  have "\<not> distinct (map slug (stores c'))"
    using create_duplicate_slug [OF run] m bs taken by simp
  with m sl show ?thesis
    unfolding c_def [symmetric] Let_def run by simp
qed

text \<open>
  C3. In every catalog reachable by creations (of names with a plain base slug),
  updates whose body has no \<open>slug\<close> field (as the edit form posts them) and reviews,
  slugs and object ids are unique, and every id is below the next one to be drawn.
\<close>

theorem reachable_catalog_unique:
  assumes "reachable_catalog no_slug_field c"
  shows "distinct (map slug (stores c)) \<and> distinct (map store_id (stores c)) \<and>
         (\<forall>s\<in>set (stores c). store_id s < next_oid c)"
proof -
  from assms have "catalog_slug_inv c" and "ids_inv c"
    by (auto dest: reachable_catalog_invs)
  then show ?thesis by (auto simp: ids_inv_def dest: catalog_slug_inv_distinct)
qed


text \<open>C3, at a catalog reached by one creation.\<close>

theorem reachable_catalog_unique_witness:
  "let c = fst (projr (create_store empty_catalog 7 0 (form_input ''Joe''))) in
     reachable_catalog no_slug_field c \<and> distinct (map slug (stores c)) \<and> distinct (map store_id (stores c)) \<and>
     (\<forall>s\<in>set (stores c). store_id s < next_oid c)"
proof -
  have ex: "create_store empty_catalog 7 0 (form_input ''Joe'') =
              Inr (projr (create_store empty_catalog 7 0 (form_input ''Joe'')))"
    by code_simp
  obtain c p where run: "create_store empty_catalog 7 0 (form_input ''Joe'') = Inr (c, p)"
    using ex by (metis prod.collapse)
  have plain: "plain_base (base_slug (form_input ''Joe''))"
    by code_simp
  have r: "reachable_catalog no_slug_field c"
    by (rule reachable_catalog.step [OF reachable_catalog.init catalog_step.create [OF run plain]])
  show ?thesis
    using r reachable_catalog_unique [OF r] by (simp add: run Let_def)
qed

text \<open>
  C4. Updating a store never recomputes its slug from the new name: \<open>updateStore\<close>
  writes through \<open>findOneAndUpdate\<close>, which runs no \<open>save\<close> hook, so the slug stays
  the one derived from the old name, unless the body itself carries a \<open>slug\<close> field.
\<close>

theorem update_store_stale_slug:
  assumes "update_store c sid b = Inr (c', p)" and "find_store c sid = Some s"
  shows "\<exists>s'. find_store c' sid = Some s' \<and>
             slug s' = (case in_slug b of None \<Rightarrow> slug s | Some x \<Rightarrow> Some x) \<and>
             name s' = trim (striptags (in_name b) default_store)"
  using update_store_found [OF assms] by (simp add: apply_update_def)

theorem update_store_stale_slug_witness:
  "let c = fst (projr (create_store empty_catalog 7 0 (form_input ''Joe''))) in
   find_store c 1 = Some (hd (stores c)) \<and>
   (case update_store c 1 (form_input ''Bob'') of
      Inr (c', p) \<Rightarrow> \<exists>s'. find_store c' 1 = Some s' \<and> slug s' = Some ''joe'' \<and> name s' = ''Bob''
    | Inl _ \<Rightarrow> False)"
proof -
  define c where "c = fst (projr (create_store empty_catalog 7 0 (form_input ''Joe'')))"
  have ex: "update_store c 1 (form_input ''Bob'') = Inr (projr (update_store c 1 (form_input ''Bob'')))"
    unfolding c_def by code_simp
  obtain c' p where run: "update_store c 1 (form_input ''Bob'') = Inr (c', p)"
    using ex by (metis prod.collapse)
  have found: "find_store c 1 = Some (hd (stores c))"
    unfolding c_def by code_simp
  have old: "slug (hd (stores c)) = Some ''joe''"
    unfolding c_def by code_simp
  have nm: "trim (striptags (in_name (form_input ''Bob'')) default_store) = ''Bob''"
    by code_simp
  have "in_slug (form_input ''Bob'') = None" by (simp add: form_input_def)
  with update_store_stale_slug [OF run found] old nm
  have "\<exists>s'. find_store c' 1 = Some s' \<and> slug s' = Some ''joe'' \<and> name s' = ''Bob''"
    by simp
  with found show ?thesis
    unfolding c_def [symmetric] Let_def run by simp
qed


text \<open>
  C5. \<open>updateStore\<close> calls no \<open>confirmOwner\<close> and passes the whole request body to the
  update: any logged-in user can update any store, and a body that carries an
  \<open>author\<close> field replaces the store's author (the specification says the author is
  set once and never changed, and that a non-author's update fails with OwnershipError).
\<close>

theorem update_store_sets_author:
  assumes "update_store c sid b = Inr (c', p)" and "find_store c sid = Some s"
    and "in_author b = Some a"
  shows "\<exists>s'. find_store c' sid = Some s' \<and> author s' = Some a"
  using update_store_found [OF assms(1,2)] assms(3) by (simp add: apply_update_def)

theorem update_store_sets_author_witness:
  "let c = fst (projr (create_store empty_catalog 7 0 (form_input ''Joe'')));
       b = (form_input ''Joe'')\<lparr>in_author := Some 9\<rparr>
   in find_store c 1 = Some (hd (stores c)) \<and> author (hd (stores c)) = Some 7 \<and>
      (case update_store c 1 b of
         Inr (c', p) \<Rightarrow> \<exists>s'. find_store c' 1 = Some s' \<and> author s' = Some 9
       | Inl _ \<Rightarrow> False)"
proof -
  define c where "c = fst (projr (create_store empty_catalog 7 0 (form_input ''Joe'')))"
  define b where "b = (form_input ''Joe'')\<lparr>in_author := Some (9::nat)\<rparr>"
  have ex: "update_store c 1 b = Inr (projr (update_store c 1 b))"
    unfolding c_def b_def by code_simp
  obtain c' p where run: "update_store c 1 b = Inr (c', p)"
    using ex by (metis prod.collapse)
  have found: "find_store c 1 = Some (hd (stores c))"
    unfolding c_def by code_simp
  have old: "author (hd (stores c)) = Some 7"
    unfolding c_def by code_simp
  have "\<exists>s'. find_store c' 1 = Some s' \<and> author s' = Some 9"
    using update_store_sets_author [OF run found] by (simp add: b_def)
  with found old show ?thesis
    unfolding c_def [symmetric] b_def [symmetric] Let_def run by simp
qed

text \<open>
  C13. The update body reaches the document whole, \<open>slug\<close> included: a body with a
  \<open>slug\<close> field sets the store's slug to it, even when another store already has that
  slug, and the catalog then holds two stores with one slug (\<open>getStoreBySlug\<close> shows
  the first of them).
\<close>

theorem update_store_sets_slug:
  assumes run: "update_store c sid b = Inr (c', p)" and found: "find_store c sid = Some s"
    and body: "in_slug b = Some x"
    and other: "t \<in> set (stores c)" "store_id t \<noteq> sid" "slug t = Some x"
  shows "\<exists>s'. find_store c' sid = Some s' \<and> slug s' = Some x \<and> t \<in> set (stores c') \<and>
           \<not> distinct (map slug (stores c'))"
proof -
  let ?s' = "apply_update (striptags (in_name b) default_store) b s"
  have f': "find_store c' sid = Some ?s'"
    by (rule update_store_found [OF run found])
  have sl: "slug ?s' = Some x"
    using body by simp
  have t': "t \<in> set (stores c')"
    using run other(1,2) by (elim update_store_Inr) (simp add: update_first_keeps)
  have "?s' \<in> set (stores c')" and "store_id ?s' = sid"
    using f' by (auto simp: find_store_def dest: find_Some_mem)
  with t' other(2,3) sl have "\<not> distinct (map slug (stores c'))"
    by (metis distinct_map inj_on_contraD)
  with f' sl t' show ?thesis by blast
qed

theorem update_store_sets_slug_witness:
  "let c = projr (create_all empty_catalog [(7, 0, form_input ''Joe''), (8, 1, form_input ''Bob'')]);
       b = (form_input ''Bob'')\<lparr>in_slug := Some ''joe''\<rparr>
   in (case update_store c 2 b of
         Inr (c', p) \<Rightarrow> \<exists>s'. find_store c' 2 = Some s' \<and> slug s' = Some ''joe'' \<and>
                          hd (stores c) \<in> set (stores c') \<and> \<not> distinct (map slug (stores c'))
       | Inl _ \<Rightarrow> False)"
proof -
  define c where "c = projr (create_all empty_catalog [(7, 0, form_input ''Joe''), (8, 1, form_input ''Bob'')])"
  define b where "b = (form_input ''Bob'')\<lparr>in_slug := Some ''joe''\<rparr>"
  have ex: "update_store c 2 b = Inr (projr (update_store c 2 b))"
    unfolding c_def b_def by code_simp
  obtain c' p where run: "update_store c 2 b = Inr (c', p)"
    using ex by (metis prod.collapse)
  have found: "find_store c 2 = Some (last (stores c))"
    unfolding c_def by code_simp
  have t: "hd (stores c) \<in> set (stores c)" and tid: "store_id (hd (stores c)) \<noteq> 2"
    and tsl: "slug (hd (stores c)) = Some ''joe''"
    unfolding c_def by code_simp+
  have "\<exists>s'. find_store c' 2 = Some s' \<and> slug s' = Some ''joe'' \<and> hd (stores c) \<in> set (stores c') \<and>
           \<not> distinct (map slug (stores c'))"
    by (rule update_store_sets_slug [OF run found _ t tid tsl]) (simp add: b_def)
  then show ?thesis
    unfolding c_def [symmetric] b_def [symmetric] Let_def run by simp
qed

text \<open>
  C6. \<open>editStore\<close> hands the edit form only to the store's author: it returns the
  store with the requested id, and only when that store's author is the user.
\<close>

theorem edit_store_owner:
  "edit_store c sid uid = Inr s \<Longrightarrow> find_store c sid = Some s \<and> author s = Some uid"
  by (auto simp: edit_store_def confirm_owner_def split: option.splits sum.splits if_splits)

theorem edit_store_owner_witness:
  "let c = fst (projr (create_store empty_catalog 7 0 (form_input ''Joe'')))
   in edit_store c 1 7 = Inr (hd (stores c)) \<and>
      find_store c 1 = Some (hd (stores c)) \<and> author (hd (stores c)) = Some 7"
proof -
  define c where "c = fst (projr (create_store empty_catalog 7 0 (form_input ''Joe'')))"
  have run: "edit_store c 1 7 = Inr (hd (stores c))"
    unfolding c_def by code_simp
  show ?thesis
    using edit_store_owner [OF run] run unfolding c_def [symmetric] Let_def by simp
qed

text \<open>
  C7. A successful \<open>createStore\<close> appends exactly one store: it has the next object
  id, the stored (trimmed, tag-stripped) name, the logged-in user as author, the slug
  the counting step chose for its base, and a valid point as location; the response
  redirects to that slug.
\<close>

theorem create_store_result:
  assumes "create_store c u t b = Inr (c', p)"
  shows "\<exists>s'. stores c' = stores c @ [s'] \<and> store_id s' = next_oid c \<and>
           name s' = stored_name b \<and> author s' = Some u \<and>
           slug s' = Some (next_slug (map slug (stores c)) (base_slug b)) \<and>
           geo_point_ok (location s') \<and>
           p = ''/store/'' @ next_slug (map slug (stores c)) (base_slug b)"
  using assms by (elim create_store_Inr) blast

theorem create_store_result_witness:
  "case create_store empty_catalog 7 0 (form_input ''<b>Joe</b>'') of
     Inr (c', p) \<Rightarrow> \<exists>s'. stores c' = [s'] \<and> name s' = ''Default StoreJoeDefault Store'' \<and>
                       author s' = Some 7 \<and> slug s' = Some ''default-storejoedefault-store'' \<and>
                       p = ''/store/default-storejoedefault-store''
   | Inl _ \<Rightarrow> False"
proof -
  have ex: "create_store empty_catalog 7 0 (form_input ''<b>Joe</b>'') =
              Inr (projr (create_store empty_catalog 7 0 (form_input ''<b>Joe</b>'')))"
    by code_simp
  obtain c' p where run: "create_store empty_catalog 7 0 (form_input ''<b>Joe</b>'') = Inr (c', p)"
    using ex by (metis prod.collapse)
  have nm: "stored_name (form_input ''<b>Joe</b>'') = ''Default StoreJoeDefault Store''"
    by code_simp
  have sl: "next_slug [] (base_slug (form_input ''<b>Joe</b>'')) = ''default-storejoedefault-store''"
    by code_simp
  show ?thesis
    using create_store_result [OF run] nm sl unfolding run by (simp add: empty_catalog_def) blast
qed

text \<open>
  C8. A name that is empty after trimming fails the schema's \<open>required\<close> validator:
  \<open>createStore\<close> stores nothing and reports "Please enter a store name!".
\<close>

theorem create_store_name_required:
  assumes "trim (in_name b) = []"
  shows "\<exists>es. create_store c u t b = Inl (ValidationError es) \<and> ''Please enter a store name!'' \<in> set es"
  using assms
  by (simp add: create_store_def save_new_def new_store_def store_errors_def Let_def)

theorem create_store_name_required_witness:
  "trim (in_name (form_input ''   '')) = [] \<and>
   (\<exists>es. create_store empty_catalog 7 0 (form_input ''   '') = Inl (ValidationError es) \<and>
        ''Please enter a store name!'' \<in> set es)"
proof -
  have "trim (in_name (form_input ''   '')) = []" by code_simp
  then show ?thesis using create_store_name_required by blast
qed

text \<open>
  The specification's example (section 8.3): a store named \<^verbatim>\<open>Clean Bandit Caf\<close> + e-acute + \<^verbatim>\<open>!!\<close>
  gets the slug \<^verbatim>\<open>clean-bandit-cafe\<close>, and a second store of the same name gets
  \<^verbatim>\<open>clean-bandit-cafe-2\<close>.
\<close>

theorem spec_slug_example:
  "case create_all empty_catalog
          [(7, 0, form_input (''Clean Bandit Caf'' @ [CHR 0xC3, CHR 0xA9] @ ''!!'')),
           (8, 1, form_input (''Clean Bandit Caf'' @ [CHR 0xC3, CHR 0xA9] @ ''!!''))] of
     Inr c \<Rightarrow> map slug (stores c) = [Some ''clean-bandit-cafe'', Some ''clean-bandit-cafe-2'']
   | Inl _ \<Rightarrow> False"
  by code_simp

text \<open>
  C39. Every store of a reachable catalog, whatever update bodies are admitted, has
  what the schema and the geo index require of it: a valid GeoJSON point, an address, an
  author and a slug.
\<close>

theorem reachable_catalog_schema:
  assumes "reachable_catalog ok c"
  shows "\<forall>s\<in>set (stores c). geo_point_ok (location s) \<and> address (location s) \<noteq> [] \<and>
           author s \<noteq> None \<and> slug s \<noteq> None"
  using reachable_catalog_schema_ratings [OF assms] by (simp add: schema_inv_def stored_ok_def)

theorem reachable_catalog_schema_witness:
  "let c = fst (projr (create_store empty_catalog 7 0 (form_input ''Joe''))) in
   reachable_catalog (\<lambda>_. True) c \<and> (\<forall>s\<in>set (stores c). geo_point_ok (location s) \<and> address (location s) \<noteq> [] \<and>
     author s \<noteq> None \<and> slug s \<noteq> None)"
proof -
  have ex: "create_store empty_catalog 7 0 (form_input ''Joe'') =
              Inr (projr (create_store empty_catalog 7 0 (form_input ''Joe'')))"
    by code_simp
  obtain c p where run: "create_store empty_catalog 7 0 (form_input ''Joe'') = Inr (c, p)"
    using ex by (metis prod.collapse)
  have plain: "plain_base (base_slug (form_input ''Joe''))"
    by code_simp
  have r: "reachable_catalog (\<lambda>_. True) c"
    by (rule reachable_catalog.step [OF reachable_catalog.init catalog_step.create [OF run plain]])
  show ?thesis
    using r reachable_catalog_schema [OF r] by (simp add: run Let_def)
qed

text \<open>
  C40. The name is the one required field a stored store can lack. Validation runs
  before the hooks, so a name that is non-empty after trimming passes the
  \<open>required\<close> validator even when the \<open>striptags\<close> hook then removes all of it (an
  unclosed tag such as \<^verbatim>\<open><abc\<close>): \<open>createStore\<close> succeeds, stores the empty name
  with a slug counted from the empty base, and redirects to it.
\<close>

theorem create_store_empty_name:
  assumes ne: "trim (in_name b) \<noteq> []" and empty: "stored_name b = []"
    and co: "None \<notin> set (in_coordinates b)" and ad: "in_address b \<noteq> []"
    and pt: "geo_point_ok \<lparr>loc_type = ''Point'', coordinates = in_coordinates b, address = in_address b\<rparr>"
  shows "\<exists>c' s'. create_store c u t b = Inr (c', ''/store/'' @ next_slug (map slug (stores c)) (slugify [])) \<and>
           stores c' = stores c @ [s'] \<and> name s' = [] \<and>
           slug s' = Some (next_slug (map slug (stores c)) (slugify []))"
proof -
  have "store_errors (new_store (next_oid c) t (b\<lparr>in_author := Some u\<rparr>)) = []"
    using ne co ad by (simp add: store_errors_def new_store_def)
  then have ex: "\<exists>c' p. create_store c u t b = Inr (c', p)"
    using pt empty by (simp add: create_store_def save_new_def Let_def slug_hook_def strip_name_hook_def
        new_store_def stored_name_def)
  then obtain c' p where run: "create_store c u t b = Inr (c', p)" by blast
  from run obtain s' where "stores c' = stores c @ [s']"
    and "slug s' = Some (next_slug (map slug (stores c)) (base_slug b))"
    and "p = ''/store/'' @ next_slug (map slug (stores c)) (base_slug b)"
    and "name s' = stored_name b"
    by (rule create_store_Inr)
  with run empty show ?thesis by (auto simp: base_slug_def)
qed

theorem create_store_empty_name_witness:
  "trim (in_name (form_input ''<abc'')) \<noteq> [] \<and> stored_name (form_input ''<abc'') = [] \<and>
   (\<exists>c' s'. create_store empty_catalog 7 0 (form_input ''<abc'') = Inr (c', ''/store/'') \<and>
      stores c' = [s'] \<and> name s' = [] \<and> slug s' = Some [])"
proof -
  have ne: "trim (in_name (form_input ''<abc'')) \<noteq> []" and em: "stored_name (form_input ''<abc'') = []"
    and co: "None \<notin> set (in_coordinates (form_input ''<abc''))"
    and ad: "in_address (form_input ''<abc'') \<noteq> []"
    and pt: "geo_point_ok \<lparr>loc_type = ''Point'', coordinates = in_coordinates (form_input ''<abc''),
                           address = in_address (form_input ''<abc'')\<rparr>"
    and sl: "next_slug (map slug (stores empty_catalog)) (slugify []) = []"
    by code_simp+
  show ?thesis
    using create_store_empty_name [OF ne em co ad pt, of empty_catalog 7 0] ne em sl
    by (simp add: empty_catalog_def)
qed

end
