(* ===== verification/Aggregates.thy ===== *)
theory Aggregates
  imports StoreModel "HOL-Library.Option_ord"
begin

text \<open>
  The two aggregation pipelines of \<open>src/models/Store.js\<close> and the tag page of
  \<open>src/controllers/storeController.js\<close>. Each pipeline stage is its own definition:
  \<open>$unwind\<close> (\<open>unwind_tags\<close>), \<open>$group\<close> with \<open>$sum: 1\<close> (\<open>group_count\<close>, a fold
  over the unwound documents that bumps one counter per key, in first-occurrence
  order), \<open>$lookup\<close> and \<open>$match\<close> (\<open>with_reviews\<close>, \<open>top_candidates\<close>),
  \<open>$project\<close> with \<open>$avg\<close> (\<open>project_top\<close>, \<open>avg_rating\<close>), \<open>$sort\<close> with key
  \<open>-1\<close> (\<open>sort_desc\<close> of the prelude; \<open>null\<close> sorts below every number, as
  \<open>None\<close> does in \<open>Option_ord\<close>) and \<open>$limit\<close> (\<open>take\<close>).
\<close>

subsection \<open>getTagsList\<close>

text \<open>\<^verbatim>\<open>{ $unwind: "$tags" }\<close>: one document per tag occurrence; an empty array yields none.\<close>

definition unwind_tags :: "store list \<Rightarrow> string list" where
  "unwind_tags ss = concat (map tags ss)"

text \<open>\<^verbatim>\<open>{ $group: { _id: "$tags", count: { $sum: 1 } } }\<close>, one document at a time.\<close>

fun group_add :: "('k \<times> nat) list \<Rightarrow> 'k \<Rightarrow> ('k \<times> nat) list" where
  "group_add [] k = [(k, 1)]"
| "group_add ((k', n) # g) k = (if k' = k then (k', Suc n) # g else (k', n) # group_add g k)"

definition group_count :: "'k list \<Rightarrow> ('k \<times> nat) list" where
  "group_count ks = foldl group_add [] ks"

text \<open>Lines 92--100: unwind, group, \<^verbatim>\<open>{ $sort: { count: -1 } }\<close>.\<close>

definition get_tags_list :: "store list \<Rightarrow> (string \<times> nat) list" where
  "get_tags_list ss = sort_desc snd (group_count (unwind_tags ss))"

subsection \<open>getStoresByTag\<close>

text \<open>
  Lines 141--148: the filter \<^verbatim>\<open>{ tags: tag }\<close> matches a store whose array contains the
  tag; without a tag the filter is \<^verbatim>\<open>{ tags: { $exists: true } }\<close>, and every saved store
  has the field (Mongoose gives an array path the default \<open>[]\<close>).
\<close>

definition tag_query :: "string option \<Rightarrow> store \<Rightarrow> bool" where
  "tag_query tag s = (case tag of None \<Rightarrow> True | Some t \<Rightarrow> t \<in> set (tags s))"

definition get_stores_by_tag :: "catalog \<Rightarrow> string option \<Rightarrow> (string \<times> nat) list \<times> store list" where
  "get_stores_by_tag c tag = (get_tags_list (stores c), filter (tag_query tag) (stores c))"

subsection \<open>getTopStores\<close>

text \<open>The projected document of lines 122--129.\<close>

record top_store =
  ts_id :: object_id
  ts_photo :: "string option"
  ts_name :: string
  ts_reviews :: "review list"
  ts_slug :: "string option"
  average_rating :: "real option"

text \<open>\<^verbatim>\<open>$avg\<close> ignores reviews without a numeric rating; with none it is \<open>null\<close>.\<close>

definition avg_rating :: "review list \<Rightarrow> real option" where
  "avg_rating rs =
     (let xs = [x. Some x \<leftarrow> map rating rs] in
      if xs = [] then None else Some (sum_list xs / real (length xs)))"

text \<open>\<^verbatim>\<open>$lookup\<close> (lines 107--112): every store with the reviews whose \<open>store\<close> is its id.\<close>

definition with_reviews :: "catalog \<Rightarrow> (store \<times> review list) list" where
  "with_reviews c = map (\<lambda>s. (s, reviews_of (reviews c) (store_id s))) (stores c)"

text \<open>\<^verbatim>\<open>$match: { "reviews.1": { $exists: true } }\<close> (lines 116--118): a second review exists.\<close>

definition top_candidates :: "catalog \<Rightarrow> (store \<times> review list) list" where
  "top_candidates c = filter (\<lambda>(s, rs). 2 \<le> length rs) (with_reviews c)"

definition project_top :: "store \<times> review list \<Rightarrow> top_store" where
  "project_top sr =
     (case sr of (s, rs) \<Rightarrow>
        \<lparr>ts_id = store_id s, ts_photo = photo s, ts_name = name s, ts_reviews = rs,
         ts_slug = slug s, average_rating = avg_rating rs\<rparr>)"

text \<open>Lines 102--135: lookup, match, project, sort by the average, limit to 10.\<close>

definition get_top_stores :: "catalog \<Rightarrow> top_store list" where
  "get_top_stores c = take 10 (sort_desc average_rating (map project_top (top_candidates c)))"


subsection \<open>Examples\<close>

text \<open>Reviews for the examples (stores are \<open>sample_store\<close>): only the fields the pipelines read vary.\<close>

definition sample_review :: "object_id \<Rightarrow> object_id \<Rightarrow> real option \<Rightarrow> review" where
  "sample_review i sid x =
     \<lparr>review_id = i, r_created = 0, r_author = Some 1, r_store = Some sid, r_text = ''ok'', rating = x\<rparr>"

subsection \<open>The group stage\<close>

lemma map_of_group_add:
  "map_of (group_add g k) = (map_of g)(k \<mapsto> (case map_of g k of None \<Rightarrow> 1 | Some n \<Rightarrow> Suc n))"
  by (induction g k rule: group_add.induct) (auto simp: fun_eq_iff)

lemma keys_group_add: "fst ` set (group_add g k) = insert k (fst ` set g)"
  by (induction g k rule: group_add.induct) auto

lemma distinct_group_add: "distinct (map fst g) \<Longrightarrow> distinct (map fst (group_add g k))"
  by (induction g k rule: group_add.induct) (auto simp: keys_group_add)

lemma map_of_foldl_group_add:
  "map_of (foldl group_add g ks) k =
     (case map_of g k of
        None \<Rightarrow> (if k \<in> set ks then Some (count_list ks k) else None)
      | Some n \<Rightarrow> Some (n + count_list ks k))"
  by (induction ks arbitrary: g) (auto simp: map_of_group_add split: option.splits)

lemma distinct_group_count: "distinct (map fst (group_count ks))"
proof -
  have "distinct (map fst g) \<Longrightarrow> distinct (map fst (foldl group_add g ks))" for g
    by (induction ks arbitrary: g) (simp_all add: distinct_group_add)
  then show ?thesis by (simp add: group_count_def)
qed

lemma group_count_iff:
  "(t, n) \<in> set (group_count ks) \<longleftrightarrow> t \<in> set ks \<and> n = count_list ks t"
proof -
  have "map_of (group_count ks) t = (if t \<in> set ks then Some (count_list ks t) else None)"
    by (simp add: group_count_def map_of_foldl_group_add)
  moreover have "(t, n) \<in> set (group_count ks) \<longleftrightarrow> map_of (group_count ks) t = Some n"
    using distinct_group_count by (metis map_of_SomeD map_of_is_SomeI)
  ultimately show ?thesis by auto
qed

lemmas tags_list_simps = get_tags_list_def group_count_iff distinct_group_count

subsection \<open>The top-rated pipeline\<close>

lemma top_candidates_reviews:
  "(s, rs) \<in> set (top_candidates c) \<Longrightarrow> rs = reviews_of (reviews c) (store_id s) \<and> 2 \<le> length rs"
  by (auto simp: top_candidates_def with_reviews_def)

subsection \<open>Properties of the aggregations\<close>

text \<open>
  C12. The tag facet lists each tag of the catalog once, with the number of its
  occurrences over all stores' tag arrays (a store that lists a tag twice counts twice),
  in non-increasing order of count.
\<close>

theorem get_tags_list_correct:
  "distinct (map fst (get_tags_list ss)) \<and>
   ((t, n) \<in> set (get_tags_list ss) \<longleftrightarrow> t \<in> set (unwind_tags ss) \<and> n = count_list (unwind_tags ss) t) \<and>
   sorted_desc snd (get_tags_list ss)"
proof -
  have "mset (map fst (get_tags_list ss)) = mset (map fst (group_count (unwind_tags ss)))"
    by (simp add: get_tags_list_def)
  then have "distinct (map fst (get_tags_list ss))"
    using distinct_group_count by (metis mset_eq_imp_distinct_iff)
  then show ?thesis by (simp add: tags_list_simps)
qed

text \<open>
  The specification's example (section 8.6): tags \<open>[vegan]\<close>, \<open>[vegan, cafe]\<close>
  and \<open>[cafe]\<close> give \<open>vegan: 2\<close> and \<open>cafe: 2\<close>; a store listing \<open>vegan\<close> twice adds
  two to its count.
\<close>

theorem spec_tags_example:
  "get_tags_list [sample_store 1 ''a'' [''vegan''], sample_store 2 ''b'' [''vegan'', ''cafe''],
                  sample_store 3 ''c'' [''cafe'']] = [(''vegan'', 2), (''cafe'', 2)] \<and>
   get_tags_list [sample_store 1 ''a'' [''vegan'', ''vegan''], sample_store 2 ''b'' [''cafe'']] =
     [(''vegan'', 2), (''cafe'', 1)]"
  by code_simp

text \<open>
  C15. Without a tag, \<open>getStoresByTag\<close> lists every store, also those with no tag at
  all: \<^verbatim>\<open>{ $exists: true }\<close> holds for the empty array every store has. The
  specification says only stores with at least one tag are listed.
\<close>

theorem stores_by_tag_none_untagged:
  assumes "s \<in> set (stores c)" and "tags s = []"
  shows "s \<in> set (snd (get_stores_by_tag c None))"
  using assms by (simp add: get_stores_by_tag_def tag_query_def)

theorem stores_by_tag_none_untagged_witness:
  "let c = \<lparr>stores = [sample_store 1 ''a'' []], reviews = [], next_oid = 2\<rparr> in
   sample_store 1 ''a'' [] \<in> set (stores c) \<and> tags (sample_store 1 ''a'' []) = [] \<and>
   sample_store 1 ''a'' [] \<in> set (snd (get_stores_by_tag c None))"
proof -
  have "tags (sample_store 1 ''a'' []) = []" by (simp add: sample_store_def)
  then show ?thesis
    using stores_by_tag_none_untagged [of "sample_store 1 ''a'' []"
        "\<lparr>stores = [sample_store 1 ''a'' []], reviews = [], next_oid = 2\<rparr>"]
    by (simp add: Let_def)
qed

text \<open>
  C16. \<open>getTopStores\<close> returns at most ten entries, in non-increasing order of average
  rating; each entry is a store with at least two reviews, carries exactly that store's
  reviews, and its average is the mean of their ratings.
\<close>

theorem get_top_stores_correct:
  "length (get_top_stores c) \<le> 10 \<and> sorted_desc average_rating (get_top_stores c) \<and>
   (\<forall>x\<in>set (get_top_stores c).
      ts_reviews x = reviews_of (reviews c) (ts_id x) \<and> 2 \<le> length (ts_reviews x) \<and>
      average_rating x = avg_rating (ts_reviews x))"
proof -
  have "ts_reviews x = reviews_of (reviews c) (ts_id x) \<and> 2 \<le> length (ts_reviews x) \<and>
        average_rating x = avg_rating (ts_reviews x)" if x: "x \<in> set (get_top_stores c)" for x
  proof -
    from x have "x \<in> set (map project_top (top_candidates c))"
      by (auto simp: get_top_stores_def dest: in_set_takeD)
    then obtain sr where sr: "sr \<in> set (top_candidates c)" "x = project_top sr"
      by auto
    obtain s rs where "sr = (s, rs)" by (cases sr)
    with sr show ?thesis
      by (auto simp: project_top_def dest: top_candidates_reviews)
  qed
  moreover have "length (get_top_stores c) \<le> 10" "sorted_desc average_rating (get_top_stores c)"
    by (simp_all add: get_top_stores_def)
  ultimately show ?thesis by blast
qed

theorem get_top_stores_correct_witness:
  "let c = \<lparr>stores = [sample_store 1 ''A'' [], sample_store 2 ''B'' []],
            reviews = [sample_review 10 1 (Some 5), sample_review 11 1 (Some 4)], next_oid = 3\<rparr> in
   get_top_stores c \<noteq> [] \<and> length (get_top_stores c) \<le> 10 \<and>
   (\<forall>x\<in>set (get_top_stores c). 2 \<le> length (ts_reviews x) \<and> average_rating x = Some (9 / 2))"
proof -
  define c where "c = \<lparr>stores = [sample_store 1 ''A'' [], sample_store 2 ''B'' []],
            reviews = [sample_review 10 1 (Some 5), sample_review 11 1 (Some 4)], next_oid = 3\<rparr>"
  have ne: "get_top_stores c \<noteq> []" unfolding c_def by code_simp
  have avg: "\<forall>x\<in>set (get_top_stores c). avg_rating (ts_reviews x) = Some (9 / 2)"
    unfolding c_def by code_simp
  show ?thesis
    using get_top_stores_correct [of c] ne avg unfolding c_def [symmetric] Let_def by auto
qed

text \<open>
  C17. The leaderboard is the top ten of the stores with at least two reviews: such a
  store is left off only when the board is full, with ten entries, each rated at
  least as high as the store's own average.
\<close>

theorem get_top_stores_top_k:
  assumes s: "s \<in> set (stores c)" and two: "2 \<le> length (reviews_of (reviews c) (store_id s))"
    and out: "store_id s \<notin> set (map ts_id (get_top_stores c))"
  shows "length (get_top_stores c) = 10 \<and>
         (\<forall>x\<in>set (get_top_stores c). avg_rating (reviews_of (reviews c) (store_id s)) \<le> average_rating x)"
proof -
  let ?rs = "reviews_of (reviews c) (store_id s)"
  let ?all = "map project_top (top_candidates c)"
  let ?sorted = "sort_desc average_rating ?all"
  define e where "e = project_top (s, ?rs)"
  have e_in: "e \<in> set ?all"
    using s two by (auto simp: e_def top_candidates_def with_reviews_def)
  have e_out: "e \<notin> set (get_top_stores c)"
    using out by (force simp: e_def project_top_def)
  have top: "get_top_stores c = take 10 ?sorted"
    by (simp add: get_top_stores_def)
  have "length (get_top_stores c) = 10 \<and> (\<forall>x\<in>set (get_top_stores c). average_rating e \<le> average_rating x)"
    using top_k_excluded [OF sorted_sort_desc [of average_rating ?all], of e 10] e_in e_out unfolding top by simp
  then show ?thesis
    by (simp add: e_def project_top_def)
qed

theorem get_top_stores_top_k_witness:
  "let c = \<lparr>stores = map (\<lambda>i. sample_store i ''s'' []) [1..<12],
            reviews = concat (map (\<lambda>i. [sample_review (2 * i) i (Some (real i)),
                                          sample_review (2 * i + 1) i (Some (real i))]) [1..<12]),
            next_oid = 12\<rparr> in
   sample_store 1 ''s'' [] \<in> set (stores c) \<and>
   2 \<le> length (reviews_of (reviews c) (store_id (sample_store 1 ''s'' []))) \<and>
   store_id (sample_store 1 ''s'' []) \<notin> set (map ts_id (get_top_stores c)) \<and>
   length (get_top_stores c) = 10 \<and>
   (\<forall>x\<in>set (get_top_stores c). avg_rating (reviews_of (reviews c) (store_id (sample_store 1 ''s'' []))) \<le> average_rating x)"
proof -
  define c where "c = \<lparr>stores = map (\<lambda>i. sample_store i ''s'' []) [1..<12],
            reviews = concat (map (\<lambda>i. [sample_review (2 * i) i (Some (real i)),
                                          sample_review (2 * i + 1) i (Some (real i))]) [1..<12]),
            next_oid = 12\<rparr>"
  have s: "sample_store 1 ''s'' [] \<in> set (stores c)"
    and two: "2 \<le> length (reviews_of (reviews c) (store_id (sample_store 1 ''s'' [])))"
    and out: "store_id (sample_store 1 ''s'' []) \<notin> set (map ts_id (get_top_stores c))"
    unfolding c_def by code_simp+
  show ?thesis
    using get_top_stores_top_k [OF s two out] s two out unfolding c_def [symmetric] Let_def by blast
qed

text \<open>
  The specification's example (section 8.5): store A with ratings 5 and 5 and
  store B with the single rating 4 give only A, with average 5. A review without a
  rating counts toward the two reviews but not toward the average.
\<close>

theorem spec_top_example:
  "map (\<lambda>t. (ts_name t, average_rating t))
     (get_top_stores \<lparr>stores = [sample_store 1 ''A'' [], sample_store 2 ''B'' []],
        reviews = [sample_review 10 1 (Some 5), sample_review 11 1 (Some 5), sample_review 12 2 (Some 4)],
        next_oid = 3\<rparr>) = [(''A'', Some 5)] \<and>
   map (\<lambda>t. (ts_name t, average_rating t))
     (get_top_stores \<lparr>stores = [sample_store 1 ''A'' []],
        reviews = [sample_review 10 1 (Some 5), sample_review 11 1 None], next_oid = 2\<rparr>) = [(''A'', Some 5)]"
  by code_simp

text \<open>
  C38. In a reachable catalog, whatever update bodies are admitted, every average rating on the leaderboard lies between 1
  and 5: the schema keeps each stored rating in that range, and \<open>$avg\<close> of values in a
  range stays in it.
\<close>

theorem top_stores_rating_bounds:
  assumes "reachable_catalog ok c"
  shows "\<forall>t\<in>set (get_top_stores c). \<forall>x. average_rating t = Some x \<longrightarrow> 1 \<le> x \<and> x \<le> 5"
proof (intro ballI allI impI)
  fix t x assume t: "t \<in> set (get_top_stores c)" and x: "average_rating t = Some x"
  have ok: "ratings_inv c"
    using reachable_catalog_schema_ratings [OF assms] by blast
  from t obtain s rs where "(s, rs) \<in> set (top_candidates c)" and "t = project_top (s, rs)"
    by (auto simp: get_top_stores_def dest!: in_set_takeD)
  then have rs: "set rs \<subseteq> set (reviews c)" and avg: "avg_rating rs = Some x"
    using x by (auto simp: top_candidates_def with_reviews_def reviews_of_def project_top_def)
  let ?xs = "[y. Some y \<leftarrow> map rating rs]"
  from avg have ne: "?xs \<noteq> []" and xe: "x = sum_list ?xs / real (length ?xs)"
    by (auto simp: avg_rating_def Let_def split: if_splits)
  have "\<forall>y\<in>set ?xs. 1 \<le> y \<and> y \<le> 5"
    using ok rs by (fastforce simp: ratings_inv_def split: option.splits)
  with ne show "1 \<le> x \<and> x \<le> 5"
    unfolding xe by (rule mean_bounds)
qed

theorem top_stores_rating_bounds_witness:
  "let c0 = fst (projr (create_store empty_catalog 7 0 (form_input ''Joe'')));
       c = c0\<lparr>reviews := [sample_review 1 1 (Some 5), sample_review 2 1 (Some 4)]\<rparr>
   in reachable_catalog (\<lambda>_. True) c \<and> map average_rating (get_top_stores c) = [Some (9 / 2)] \<and>
      (\<forall>t\<in>set (get_top_stores c). \<forall>x. average_rating t = Some x \<longrightarrow> 1 \<le> x \<and> x \<le> 5)"
proof -
  have ex: "create_store empty_catalog 7 0 (form_input ''Joe'') =
              Inr (projr (create_store empty_catalog 7 0 (form_input ''Joe'')))"
    by code_simp
  obtain c0 p where run: "create_store empty_catalog 7 0 (form_input ''Joe'') = Inr (c0, p)"
    using ex by (metis prod.collapse)
  have plain: "plain_base (base_slug (form_input ''Joe''))"
    by code_simp
  have r0: "reachable_catalog (\<lambda>_. True) c0"
    by (rule reachable_catalog.step [OF reachable_catalog.init catalog_step.create [OF run plain]])
  have rv0: "reviews c0 = []"
    using run by (elim create_store_Inr) (simp add: empty_catalog_def)
  have a1: "add_review [] (sample_review 1 1 (Some 5)) = Inr [sample_review 1 1 (Some 5)]"
    and a2: "add_review [sample_review 1 1 (Some 5)] (sample_review 2 1 (Some 4)) =
               Inr [sample_review 1 1 (Some 5), sample_review 2 1 (Some 4)]"
    by code_simp+
  let ?r1 = "[sample_review 1 1 (Some 5)]" and ?r2 = "[sample_review 1 1 (Some 5), sample_review 2 1 (Some 4)]"
  have s1: "catalog_step (\<lambda>_. True) c0 (c0\<lparr>reviews := ?r1\<rparr>)"
    by (rule catalog_step.review [of c0 "sample_review 1 1 (Some 5)"]) (unfold rv0, rule a1)
  have sel: "reviews (c0\<lparr>reviews := ?r1\<rparr>) = ?r1"
    by simp
  have s2: "catalog_step (\<lambda>_. True) (c0\<lparr>reviews := ?r1\<rparr>) ((c0\<lparr>reviews := ?r1\<rparr>)\<lparr>reviews := ?r2\<rparr>)"
    by (rule catalog_step.review [of _ "sample_review 2 1 (Some 4)"]) (unfold sel, rule a2)
  have r2: "reachable_catalog (\<lambda>_. True) (c0\<lparr>reviews := ?r2\<rparr>)"
    using reachable_catalog.step [OF reachable_catalog.step [OF r0 s1] s2] by simp
  have avg: "map average_rating (get_top_stores
      ((fst (projr (create_store empty_catalog 7 0 (form_input ''Joe''))))
         \<lparr>reviews := [sample_review 1 1 (Some 5), sample_review 2 1 (Some 4)]\<rparr>)) = [Some (9 / 2)]"
    by code_simp
  show ?thesis
    using r2 top_stores_rating_bounds [OF r2] avg unfolding run by (simp add: Let_def)
qed

end
