(* ===== verification/Queries.thy ===== *)
theory Queries
  imports Aggregates
begin

text \<open>
  The read-only queries of \<open>src/controllers/storeController.js\<close>: the paginated list
  (\<open>getStores\<close>), the full-text search (\<open>searchStores\<close>) and the proximity search
  behind the map (\<open>mapStores\<close>). The relevance score of MongoDB's text index and the
  spherical distance of its \<open>2dsphere\<close> index are parameters: the score sees only the
  indexed fields (name and description, \<open>src/models/Store.js\<close> lines 54--57), and a
  store without a valid point has no distance. A failed MongoDB query is a
  \<open>query_error\<close>.
\<close>

datatype query_error = NegativeSkip | InvalidQuery

subsection \<open>getStores\<close>

datatype page_result =
    Redirect int
  | Render "store list" int nat nat

text \<open>
  \<^verbatim>\<open>req.params.page || 1\<close>: a route parameter is a non-empty string, truthy even when it
  is \<^verbatim>\<open>"0"\<close>; only an absent parameter gives page 1. The parameter is modelled numeric.
\<close>

definition page_of :: "int option \<Rightarrow> int" where
  "page_of param = (case param of None \<Rightarrow> 1 | Some p \<Rightarrow> p)"

text \<open>\<^verbatim>\<open>Math.ceil(count / limit)\<close> with \<^verbatim>\<open>limit = 4\<close>.\<close>

definition page_count :: "nat \<Rightarrow> nat" where
  "page_count n = nat \<lceil>real n / 4\<rceil>"

text \<open>
  Lines 73--95: sort by \<open>created\<close> descending, skip \<open>page * 4 - 4\<close>, take 4, count the
  stores; an empty page past the first redirects to the last page. MongoDB refuses a
  negative skip.
\<close>

definition get_stores :: "catalog \<Rightarrow> int option \<Rightarrow> query_error + page_result" where
  "get_stores c param =
     (let page = page_of param; skip = page * 4 - 4 in
      if skip < 0 then Inl NegativeSkip
      else
        let ss = take 4 (drop (nat skip) (sort_desc created (stores c)));
            count = length (stores c); pages = page_count count
        in if ss = [] \<and> skip \<noteq> 0 then Inr (Redirect (int pages))
           else Inr (Render ss page pages count))"

subsection \<open>searchStores\<close>

text \<open>
  Lines 153--163: \<^verbatim>\<open>find({ $text: { $search: q } }, { score: { $meta: "textScore" } })\<close>:
  the stores the index matches, each with its score.
\<close>

text \<open>
  The text index of \<open>Store.js\<close> (lines 54--57): the fields \<open>name\<close> and
  \<open>description\<close>, which \<open>$text\<close> scores against the query.
\<close>

definition text_index :: "store \<Rightarrow> string \<times> string" where
  "text_index st = (name st, description st)"

definition text_matches ::
  "(string \<Rightarrow> string \<times> string \<Rightarrow> real option) \<Rightarrow> catalog \<Rightarrow> string \<Rightarrow> (store \<times> real) list" where
  "text_matches score c q = [(st, x). st \<leftarrow> stores c, Some x \<leftarrow> [score q (text_index st)]]"

text \<open>
  Lines 150--171: sort by score descending, limit to 5. Without a \<open>q\<close> parameter
  \<open>$search\<close> is \<open>undefined\<close> and MongoDB rejects the query.
\<close>

definition search_stores ::
  "(string \<Rightarrow> string \<times> string \<Rightarrow> real option) \<Rightarrow> catalog \<Rightarrow> string option \<Rightarrow>
   query_error + (store \<times> real) list" where
  "search_stores score c q =
     (case q of
        None \<Rightarrow> Inl InvalidQuery
      | Some s \<Rightarrow> Inr (take 5 (sort_desc snd (text_matches score c s))))"

subsection \<open>mapStores\<close>

definition store_point :: "store \<Rightarrow> (real \<times> real) option" where
  "store_point s = (case coordinates (location s) of [Some lng, Some lat] \<Rightarrow> Some (lng, lat) | _ \<Rightarrow> None)"

text \<open>
  Lines 175--190: \<open>$near\<close> with \<open>$maxDistance: 10000\<close> returns the stores within 10 km,
  nearest first; \<open>.limit(10)\<close>.
\<close>

definition near_entry ::
  "(real \<times> real \<Rightarrow> real \<times> real \<Rightarrow> real) \<Rightarrow> real \<times> real \<Rightarrow> store \<Rightarrow> (store \<times> real) option" where
  "near_entry distance q s =
     (case store_point s of
        None \<Rightarrow> None
      | Some pt \<Rightarrow> if distance q pt \<le> 10000 then Some (s, distance q pt) else None)"

definition near_query ::
  "(real \<times> real \<Rightarrow> real \<times> real \<Rightarrow> real) \<Rightarrow> catalog \<Rightarrow> real \<times> real \<Rightarrow> (store \<times> real) list" where
  "near_query distance c q = take 10 (sort_key snd (List.map_filter (near_entry distance q) (stores c)))"

text \<open>\<^verbatim>\<open>.select("slug name description location photo")\<close> (line 189).\<close>

record map_store =
  ms_id :: object_id
  ms_slug :: "string option"
  ms_name :: string
  ms_description :: string
  ms_location :: location
  ms_photo :: "string option"

definition project_map :: "store \<Rightarrow> map_store" where
  "project_map s =
     \<lparr>ms_id = store_id s, ms_slug = slug s, ms_name = name s, ms_description = description s,
      ms_location = location s, ms_photo = photo s\<rparr>"

text \<open>
  Lines 173--192: \<^verbatim>\<open>[req.query.lng, req.query.lat].map(parseFloat)\<close> gives \<open>NaN\<close>
  (\<open>None\<close>) for a malformed number, which MongoDB rejects as a point.
\<close>

definition map_stores ::
  "(real \<times> real \<Rightarrow> real \<times> real \<Rightarrow> real) \<Rightarrow> catalog \<Rightarrow> real option \<Rightarrow> real option \<Rightarrow>
   query_error + map_store list" where
  "map_stores distance c lng lat =
     (case (lng, lat) of
        (Some x, Some y) \<Rightarrow> Inr (map (project_map \<circ> fst) (near_query distance c (x, y)))
      | _ \<Rightarrow> Inl InvalidQuery)"


subsection \<open>Lemmas\<close>

lemma page_count_eq: "page_count n = (n + 3) div 4"
proof -
  have "real n / 4 = real_of_int (int n) / real_of_int 4" by simp
  then have c: "\<lceil>real n / 4\<rceil> = - (- int n div 4)" by (simp only: ceiling_divide_eq_div)
  have "- (- int n div 4) = int ((n + 3) div 4)" by presburger
  with c show ?thesis by (simp add: page_count_def)
qed

lemma get_stores_page:
  assumes "k < page_count (length (stores c))"
  shows "get_stores c (Some (int k + 1)) =
           Inr (Render (take 4 (drop (4 * k) (sort_desc created (stores c)))) (int k + 1)
                 (page_count (length (stores c))) (length (stores c)))"
proof -
  from assms have "4 * k < length (sort_desc created (stores c))"
    by (simp add: page_count_eq)
  then have "take 4 (drop (4 * k) (sort_desc created (stores c))) \<noteq> []"
    by simp
  moreover have "nat ((int k + 1) * 4 - 4) = 4 * k" by simp
  ultimately show ?thesis
    by (simp add: get_stores_def page_of_def Let_def)
qed

lemma get_stores_Redirect:
  "get_stores c p = Inr (Redirect k) \<Longrightarrow> k = int (page_count (length (stores c)))"
  by (auto simp: get_stores_def Let_def split: if_splits)

text \<open>The last page never redirects: it renders, or (with no store) its skip is negative.\<close>

lemma get_stores_last_page:
  "get_stores c (Some (int (page_count (length (stores c))))) \<noteq> Inr (Redirect r)"
proof (cases "page_count (length (stores c))")
  case 0
  then show ?thesis by (simp add: get_stores_def page_of_def)
next
  case (Suc k)
  then have "k < page_count (length (stores c))" by simp
  from get_stores_page [OF this] Suc show ?thesis by (simp add: add.commute)
qed

lemma set_text_matches:
  "(st, x) \<in> set (text_matches score c q) \<longleftrightarrow>
     st \<in> set (stores c) \<and> score q (name st, description st) = Some x"
  by (auto simp: text_matches_def text_index_def split: option.splits)

lemma near_entry_Some:
  "near_entry distance q s' = Some (s, d) \<longleftrightarrow>
     s' = s \<and> (\<exists>pt. store_point s = Some pt \<and> d = distance q pt) \<and> d \<le> 10000"
  by (cases "store_point s'") (auto simp: near_entry_def)

lemma set_near_candidates:
  "(s, d) \<in> set (List.map_filter (near_entry distance q) (stores c)) \<longleftrightarrow>
     s \<in> set (stores c) \<and> (\<exists>pt. store_point s = Some pt \<and> d = distance q pt) \<and> d \<le> 10000"
  by (auto simp: in_set_map_filter near_entry_Some)

subsection \<open>Properties of the queries\<close>

text \<open>
  C19. When no two stores have the same creation time, the pages of the list partition
  it: the windows of pages \<open>1, ..., ceil(count / 4)\<close>, in page order, hold every store
  exactly once, newest first. (With equal times each page's query may order the tied
  stores differently, and MongoDB does not promise one order across queries.)
\<close>

theorem get_stores_pages:
  assumes "distinct (map created (stores c))"
  shows "mset (concat (map (\<lambda>k. case get_stores c (Some (int k + 1)) of Inr (Render w _ _ _) \<Rightarrow> w | _ \<Rightarrow> [])
                  [0..<page_count (length (stores c))])) = mset (stores c) \<and>
         sorted_desc created (concat (map (\<lambda>k. case get_stores c (Some (int k + 1)) of Inr (Render w _ _ _) \<Rightarrow> w | _ \<Rightarrow> [])
                  [0..<page_count (length (stores c))]))"
proof -
  let ?l = "sort_desc created (stores c)"
  let ?n = "page_count (length (stores c))"
  have "map (\<lambda>k. case get_stores c (Some (int k + 1)) of Inr (Render w _ _ _) \<Rightarrow> w | _ \<Rightarrow> []) [0..<?n] =
        map (\<lambda>k. take 4 (drop (4 * k) ?l)) [0..<?n]"
    by (rule map_cong) (simp_all add: get_stores_page)
  moreover have "length ?l \<le> 4 * ?n"
    by (simp add: page_count_eq)
  then have "concat (map (\<lambda>k. take 4 (drop (4 * k) ?l)) [0..<?n]) = ?l"
    by (simp add: concat_pages)
  ultimately have "concat (map (\<lambda>k. case get_stores c (Some (int k + 1)) of Inr (Render w _ _ _) \<Rightarrow> w | _ \<Rightarrow> [])
                     [0..<?n]) = ?l"
    by (simp only:)
  then show ?thesis by simp
qed

theorem get_stores_pages_witness:
  "let c = \<lparr>stores = map (\<lambda>i. (sample_store i ''s'' [])\<lparr>created := int i\<rparr>) [1..<7], reviews = [], next_oid = 7\<rparr> in
   distinct (map created (stores c)) \<and>
   mset (concat (map (\<lambda>k. case get_stores c (Some (int k + 1)) of Inr (Render w _ _ _) \<Rightarrow> w | _ \<Rightarrow> [])
                  [0..<page_count (length (stores c))])) = mset (stores c) \<and>
   sorted_desc created (concat (map (\<lambda>k. case get_stores c (Some (int k + 1)) of Inr (Render w _ _ _) \<Rightarrow> w | _ \<Rightarrow> [])
                  [0..<page_count (length (stores c))])) \<and>
   page_count (length (stores c)) = 2"
proof -
  define c where "c = \<lparr>stores = map (\<lambda>i. (sample_store i ''s'' [])\<lparr>created := int i\<rparr>) [1..<7], reviews = [], next_oid = 7\<rparr>"
  have d: "distinct (map created (stores c))" and n: "page_count (length (stores c)) = 2"
    unfolding c_def by code_simp+
  show ?thesis
    using get_stores_pages [OF d] d n unfolding c_def [symmetric] Let_def by blast
qed

text \<open>
  C20. A redirect past the end lands on a page that renders stores, whenever there are
  stores: the target is the last page, at least 1, and its window is not empty.
\<close>

theorem get_stores_redirect_target:
  assumes "get_stores c p = Inr (Redirect k)" and "stores c \<noteq> []"
  shows "1 \<le> k \<and> (\<exists>w. get_stores c (Some k) = Inr (Render w k (nat k) (length (stores c))) \<and> w \<noteq> [])"
proof -
  let ?n = "page_count (length (stores c))"
  from assms(1) have k: "k = int ?n"
    by (auto simp: get_stores_def Let_def split: if_splits)
  from assms(2) have pos: "0 < ?n"
    by (cases "stores c") (simp_all add: page_count_eq div_greater_zero_iff)
  then have j: "?n - 1 < ?n" by simp
  have "int (?n - 1) + 1 = k" using k pos by simp
  moreover have "0 < length (stores c)"
    using assms(2) by simp
  then have "4 * ((length (stores c) + 3) div 4 - 1) < length (stores c)"
    by presburger
  then have "4 * (?n - 1) < length (stores c)"
    by (simp add: page_count_eq)
  ultimately show ?thesis
    using get_stores_page [OF j] k pos by auto
qed

theorem get_stores_redirect_target_witness:
  "let c = \<lparr>stores = [sample_store 1 ''a'' [], sample_store 2 ''b'' [], sample_store 3 ''c'' []],
            reviews = [], next_oid = 4\<rparr> in
   get_stores c (Some 2) = Inr (Redirect 1) \<and> stores c \<noteq> [] \<and>
   (\<exists>w. get_stores c (Some 1) = Inr (Render w 1 1 3) \<and> w \<noteq> [])"
proof -
  define c where "c = \<lparr>stores = [sample_store 1 ''a'' [], sample_store 2 ''b'' [], sample_store 3 ''c'' []],
            reviews = [], next_oid = 4\<rparr>"
  have r: "get_stores c (Some 2) = Inr (Redirect 1)"
    unfolding c_def by code_simp
  have ne: "stores c \<noteq> []" and len: "length (stores c) = 3"
    unfolding c_def by simp_all
  show ?thesis
    using get_stores_redirect_target [OF r ne] r ne len unfolding c_def [symmetric] Let_def by simp
qed

text \<open>
  C22. With no stores every page past the first redirects to page 0, and page 0 (like
  any page below 1) makes the skip negative, which MongoDB rejects: the redirect leads to
  an error instead of an empty list (the specification treats a non-positive page as
  page 1).
\<close>

theorem get_stores_empty_redirect_error:
  assumes "stores c = []" and "1 < p"
  shows "get_stores c (Some p) = Inr (Redirect 0) \<and> (\<forall>q<1. get_stores c (Some q) = Inl NegativeSkip)"
  using assms by (simp add: get_stores_def page_of_def page_count_def Let_def)

theorem get_stores_empty_redirect_error_witness:
  "stores empty_catalog = [] \<and> 1 < (2::int) \<and> get_stores empty_catalog (Some 2) = Inr (Redirect 0) \<and>
   get_stores empty_catalog (Some 0) = Inl NegativeSkip"
  using get_stores_empty_redirect_error [of empty_catalog 2] by (simp add: empty_catalog_def)

text \<open>
  C23. A text search returns at most five matches, by non-increasing score; each is a
  store of the catalog with the score the index gives its name and description, and
  every match left out scores no higher than any match returned.
\<close>

theorem search_stores_correct:
  "case search_stores score c (Some q) of
     Inr r \<Rightarrow> length r \<le> 5 \<and> sorted_desc snd r \<and>
       (\<forall>(st, x)\<in>set r. st \<in> set (stores c) \<and> score q (name st, description st) = Some x) \<and>
       (\<forall>p\<in>set r. \<forall>p'\<in>#mset (text_matches score c q) - mset r. snd p' \<le> snd p)
   | Inl _ \<Rightarrow> False"
proof -
  let ?l = "sort_desc snd (text_matches score c q)"
  have "\<forall>(st, x)\<in>set (take 5 ?l). st \<in> set (stores c) \<and> score q (name st, description st) = Some x"
    by (auto dest: in_set_takeD simp: set_text_matches)
  moreover have "mset (take 5 ?l) \<subseteq># mset ?l \<and>
                 (\<forall>p\<in>set (take 5 ?l). \<forall>p'\<in>#mset ?l - mset (take 5 ?l). snd p' \<le> snd p)"
    by (rule top_k_of_sorted) simp
  ultimately show ?thesis
    by (simp add: search_stores_def)
qed

theorem search_stores_correct_witness:
  "let c = \<lparr>stores = [sample_store 1 ''a'' [], sample_store 2 ''b'' []], reviews = [], next_oid = 3\<rparr>;
       score = (\<lambda>q (n, d). if n = q then Some (1::real) else None)
   in case search_stores score c (Some ''b'') of
        Inr r \<Rightarrow> length r \<le> 5 \<and> (\<forall>(st, x)\<in>set r. st \<in> set (stores c) \<and> x = 1)
      | Inl _ \<Rightarrow> False"
proof -
  define c where "c = \<lparr>stores = [sample_store 1 ''a'' [], sample_store 2 ''b'' []], reviews = [], next_oid = 3\<rparr>"
  define score :: "string \<Rightarrow> string \<times> string \<Rightarrow> real option" where
    "score = (\<lambda>q (n, d). if n = q then Some (1::real) else None)"
  have "case search_stores score c (Some ''b'') of
     Inr r \<Rightarrow> length r \<le> 5 \<and> sorted_desc snd r \<and>
       (\<forall>(st, x)\<in>set r. st \<in> set (stores c) \<and> score ''b'' (name st, description st) = Some x) \<and>
       (\<forall>p\<in>set r. \<forall>p'\<in>#mset (text_matches score c ''b'') - mset r. snd p' \<le> snd p)
   | Inl _ \<Rightarrow> False"
    by (rule search_stores_correct)
  then show ?thesis
    unfolding c_def [symmetric] score_def [symmetric] Let_def
    by (auto simp: search_stores_def score_def split: if_splits)
qed

text \<open>
  C24. Geo ordering (specification, section 8.4): the proximity query returns at most
  ten stores, by non-decreasing distance from the query point, each a store with a
  valid point within 10 km; every store within 10 km left out is no nearer than any
  store returned.
\<close>

theorem near_query_correct:
  "length (near_query distance c q) \<le> 10 \<and> sorted (map snd (near_query distance c q)) \<and>
   (\<forall>(s, d)\<in>set (near_query distance c q).
      s \<in> set (stores c) \<and> (\<exists>pt. store_point s = Some pt \<and> d = distance q pt) \<and> d \<le> 10000) \<and>
   (\<forall>p\<in>set (near_query distance c q).
      \<forall>p'\<in>#mset (List.map_filter (near_entry distance q) (stores c)) - mset (near_query distance c q). snd p \<le> snd p')"
proof -
  let ?l = "sort_key snd (List.map_filter (near_entry distance q) (stores c))"
  have sorted: "sorted_wrt (\<lambda>a b. snd a \<le> snd b) ?l"
    using sorted_sort_key [of snd "List.map_filter (near_entry distance q) (stores c)"] by (simp add: sorted_map)
  have "\<forall>(s, d)\<in>set (take 10 ?l).
      s \<in> set (stores c) \<and> (\<exists>pt. store_point s = Some pt \<and> d = distance q pt) \<and> d \<le> 10000"
    by (auto dest: in_set_takeD simp: set_near_candidates)
  moreover have "mset (take 10 ?l) \<subseteq># mset ?l \<and>
                 (\<forall>p\<in>set (take 10 ?l). \<forall>p'\<in>#mset ?l - mset (take 10 ?l). snd p \<le> snd p')"
    using sorted by (rule top_k_of_sorted)
  moreover have "sorted (map snd (take 10 ?l))"
    by (metis sorted_sort_key sorted_wrt_take take_map)
  ultimately show ?thesis
    by (simp add: near_query_def)
qed

theorem near_query_correct_witness:
  "let c = \<lparr>stores = [sample_store 1 ''a'' [], sample_store 2 ''b'' []], reviews = [], next_oid = 3\<rparr>;
       distance = (\<lambda>(a, b) (x, y). \<bar>a - x\<bar> + \<bar>b - y\<bar>)
   in near_query distance c (1, 0) \<noteq> [] \<and>
      (\<forall>(s, d)\<in>set (near_query distance c (1, 0)). s \<in> set (stores c) \<and> d \<le> 10000)"
proof -
  define c where "c = \<lparr>stores = [sample_store 1 ''a'' [], sample_store 2 ''b'' []], reviews = [], next_oid = 3\<rparr>"
  define distance :: "real \<times> real \<Rightarrow> real \<times> real \<Rightarrow> real" where
    "distance = (\<lambda>(a, b) (x, y). \<bar>a - x\<bar> + \<bar>b - y\<bar>)"
  have ne: "near_query distance c (1, 0) \<noteq> []"
    unfolding c_def distance_def by code_simp
  show ?thesis
    using near_query_correct [of distance c "(1, 0)"] ne
    unfolding c_def [symmetric] distance_def [symmetric] Let_def by auto
qed

end
