(* ===== verification/Accounts.thy ===== *)
theory Accounts
  imports StoreModel
begin

text \<open>
  The user document of \<open>src/models/User.js\<close> and the account handlers of
  \<open>src/controllers/userController.js\<close>: registration (\<open>validateRegister\<close>,
  \<open>register\<close>) and \<open>updateAccount\<close>. The users collection is a list in insertion
  order. A password is kept as given: its hashing by \<open>passport-local-mongoose\<close> is not
  modelled. E-mail syntax (\<open>validator.isEmail\<close>) is a parameter \<open>valid_email\<close>.
\<close>

record user =
  user_id :: object_id
  email :: string
  user_name :: string
  password :: "string option"
  reset_token :: "string option"
  reset_expires :: "timestamp option"
  hearts :: "object_id list"

record user_db =
  users :: "user list"
  next_uid :: object_id

definition empty_users :: user_db where
  "empty_users = \<lparr>users = [], next_uid = 1\<rparr>"

datatype auth_error =
    ValidationFailed "string list"
  | UserExists
  | DuplicateEmail
  | NoAccount
  | HeadersSent
  | NullUser
  | NoUser

definition find_user :: "user_db \<Rightarrow> object_id \<Rightarrow> user option" where
  "find_user db uid = find (\<lambda>u. user_id u = uid) (users db)"

subsection \<open>Registration and account\<close>

text \<open>The schema's \<open>lowercase\<close> and \<open>trim\<close> setters on \<open>email\<close> (\<open>User.js\<close> lines 14--17).\<close>

definition email_setters :: "string \<Rightarrow> string" where
  "email_setters s = trim (map lower_ascii s)"

text \<open>
  The sanitizer \<open>normalizeEmail\<close> of the \<open>validator\<close> package, which
  \<open>validateRegister\<close> calls (\<open>userController.js\<close> lines 26--30). The package is not in
  the repository; it is modelled from its documentation. Of the options passed, only
  \<open>gmail_remove_subaddress\<close> is an option of the package's interface:
  \<open>remove_dots\<close> and \<open>remove_extension\<close> are names of an older interface and are ignored,
  so the default \<open>gmail_remove_dots\<close> applies. The address splits at its last \<open>@\<close>; the
  domain is lowercased; for \<open>gmail.com\<close> and \<open>googlemail.com\<close> every single dot of the
  local part is removed (a run of two or more is kept, as \<open>dotsReplacer\<close> does), an
  empty result is \<open>false\<close> (\<open>None\<close>), the local part is lowercased and the domain
  becomes \<open>gmail.com\<close>; any other local part is lowercased. The package's removal of
  sub-addresses at Outlook, Yahoo and iCloud domains is not modelled.
\<close>

function gmail_dots :: "string \<Rightarrow> string" where
  "gmail_dots [] = []"
| "gmail_dots (c # cs) =
     (if c = CHR ''.'' then
        (let run = takeWhile (\<lambda>x. x = CHR ''.'') cs in
         (if run = [] then [] else c # run) @ gmail_dots (dropWhile (\<lambda>x. x = CHR ''.'') cs))
      else c # gmail_dots cs)"
  by pat_completeness auto
termination
  by (relation "measure length") (auto simp: le_imp_less_Suc length_dropWhile_le)

definition split_email :: "string \<Rightarrow> string \<times> string" where
  "split_email s =
     (rev (drop 1 (dropWhile (\<lambda>c. c \<noteq> CHR ''@'') (rev s))), rev (takeWhile (\<lambda>c. c \<noteq> CHR ''@'') (rev s)))"

definition normalize_email_lib :: "string \<Rightarrow> string option" where
  "normalize_email_lib s =
     (case split_email s of
        (u, d) \<Rightarrow>
          (let d' = map lower_ascii d in
           if d' = ''gmail.com'' \<or> d' = ''googlemail.com'' then
             (let u' = gmail_dots u in if u' = [] then None else Some (map lower_ascii u' @ ''@gmail.com''))
           else Some (map lower_ascii u @ ''@'' @ d')))"

text \<open>
  The sanitized \<open>req.body.email\<close> (a \<open>false\<close> result becomes the string
  \<^verbatim>\<open>false\<close> when cast by the schema), and the address registration stores: the
  sanitized one through the schema's setters.
\<close>

definition sanitize_email :: "string \<Rightarrow> string" where
  "sanitize_email s = (case normalize_email_lib s of None \<Rightarrow> ''false'' | Some e \<Rightarrow> e)"

definition normalize_email :: "string \<Rightarrow> string" where
  "normalize_email s = email_setters (sanitize_email s)"

text \<open>\<open>validateRegister\<close> (\<open>userController.js\<close> lines 20--53): the express-validator checks, in order.\<close>

definition register_errors ::
  "(string \<Rightarrow> bool) \<Rightarrow> string \<Rightarrow> string \<Rightarrow> string \<Rightarrow> string \<Rightarrow> string list" where
  "register_errors valid_email nm em pw pc =
     (if nm = [] then [''You must supply a name!''] else []) @
     (if \<not> valid_email em then [''That email is not valid''] else []) @
     (if pw = [] then [''Password cannot be blank''] else []) @
     (if pc = [] then [''Confirmed Password cannot be blank''] else []) @
     (if pc \<noteq> pw then [''Oops! your passwords do not match''] else [])"

text \<open>
  The schema's validators on a user's \<open>email\<close> and \<open>name\<close> (\<open>User.js\<close> lines 13--25),
  in field order, after the setters ran.
\<close>

definition user_errors :: "(string \<Rightarrow> bool) \<Rightarrow> string \<Rightarrow> string \<Rightarrow> string list" where
  "user_errors valid_email e nm =
     (if e = [] then [''Please supply an email address'']
      else if \<not> valid_email e then [''Invalid email address''] else []) @
     (if trim nm = [] then [''Please supply a name''] else [])"

text \<open>
  \<open>register\<close> (lines 55--62) after \<open>validateRegister\<close>: \<open>User.register\<close> refuses an
  e-mail (the username field) that is already registered, and otherwise saves the new
  user, which runs the schema's validators (a name of blanks passes \<open>notEmpty\<close> but
  is trimmed to the empty string and fails \<open>required\<close>).
\<close>

definition register ::
  "(string \<Rightarrow> bool) \<Rightarrow> user_db \<Rightarrow> string \<Rightarrow> string \<Rightarrow> string \<Rightarrow> string \<Rightarrow> auth_error + user_db" where
  "register valid_email db nm em pw pc =
     (let es = register_errors valid_email nm em pw pc in
      if es \<noteq> [] then Inl (ValidationFailed es)
      else let e = normalize_email em in
        if e \<in> set (map email (users db)) then Inl UserExists
        else if user_errors valid_email e nm \<noteq> [] then Inl (ValidationFailed (user_errors valid_email e nm))
        else Inr (db\<lparr>users := users db @
                      [\<lparr>user_id = next_uid db, email = e, user_name = trim nm, password = Some pw,
                        reset_token = None, reset_expires = None, hearts = []\<rparr>],
                    next_uid := Suc (next_uid db)\<rparr>))"

text \<open>
  \<open>updateAccount\<close> (lines 68--81): \<open>$set\<close> of name and e-mail as posted, through the
  schema's setters and validators (no \<open>normalizeEmail\<close> here); the unique index on
  \<open>email\<close> refuses an address another user has.
\<close>

definition update_account ::
  "(string \<Rightarrow> bool) \<Rightarrow> user_db \<Rightarrow> object_id \<Rightarrow> string \<Rightarrow> string \<Rightarrow> auth_error + user_db" where
  "update_account valid_email db uid nm em =
     (let e = email_setters em; es = user_errors valid_email e nm in if es \<noteq> [] then Inl (ValidationFailed es)
         else if \<exists>u\<in>set (users db). user_id u \<noteq> uid \<and> email u = e then Inl DuplicateEmail
         else Inr (db\<lparr>users := update_first (\<lambda>u. user_id u = uid)
                                 (\<lambda>u. u\<lparr>user_name := trim nm, email := e\<rparr>) (users db)\<rparr>))"

text \<open>
  The virtual \<open>gravatar\<close> (\<open>User.js\<close> lines 39--42): the avatar URL built from the
  hash of the stored e-mail address; the hash (\<open>md5\<close>) is a parameter.
\<close>

definition gravatar :: "(string \<Rightarrow> string) \<Rightarrow> user \<Rightarrow> string" where
  "gravatar md5 u = ''https://gravatar.com/avatar/'' @ md5 (email u) @ ''?s=200''"

text \<open>A sample e-mail check for the examples: an address with an at sign.\<close>

definition sample_valid_email :: "string \<Rightarrow> bool" where
  "sample_valid_email s \<longleftrightarrow> CHR ''@'' \<in> set s"

text \<open>A registered user for the examples, with its hearts.\<close>

definition sample_user :: "object_id \<Rightarrow> object_id list \<Rightarrow> user" where
  "sample_user i hs =
     \<lparr>user_id = i, email = ''a@b'', user_name = ''A'', password = Some ''pw'',
      reset_token = None, reset_expires = None, hearts = hs\<rparr>"

subsection \<open>Lemmas\<close>

lemma register_Inr:
  assumes "register ve db nm em pw pc = Inr db'"
  shows "normalize_email em \<notin> set (map email (users db)) \<and>
    users db' = users db @ [\<lparr>user_id = next_uid db, email = normalize_email em, user_name = trim nm,
      password = Some pw, reset_token = None, reset_expires = None, hearts = []\<rparr>]"
  using assms by (auto simp: register_def Let_def split: if_splits)

lemma lower_sanitize_email: "map lower_ascii (sanitize_email s) = sanitize_email s"
  by (simp add: sanitize_email_def normalize_email_lib_def Let_def lower_ascii_def is_upper_def
      split: prod.split option.split)

lemma find_user_Some: "find_user db uid = Some u \<Longrightarrow> u \<in> set (users db) \<and> user_id u = uid"
  unfolding find_user_def by (rule find_Some_mem)

text \<open>In a collection with distinct ids, the first user with a given id is the only one.\<close>

lemma find_id_split:
  assumes "distinct (map user_id xs)" and "find (\<lambda>v. user_id v = i) xs = Some u"
  obtains ys zs where "xs = ys @ u # zs" and "update_first (\<lambda>v. user_id v = i) f xs = ys @ f u # zs"
    and "\<forall>v\<in>set ys \<union> set zs. user_id v \<noteq> i"
proof -
  from update_first_find [OF assms(2)] obtain ys zs where
    xs: "xs = ys @ u # zs" and upd: "update_first (\<lambda>v. user_id v = i) f xs = ys @ f u # zs"
    by blast
  have "user_id u = i" using find_Some_mem [OF assms(2)] by simp
  with assms(1) xs have "\<forall>v\<in>set ys \<union> set zs. user_id v \<noteq> i"
    by (force simp: image_iff)
  with xs upd show ?thesis by (rule that)
qed

lemma find_id_unique:
  "distinct (map user_id xs) \<Longrightarrow> u \<in> set xs \<Longrightarrow> find (\<lambda>v. user_id v = user_id u) xs = Some u"
  by (induction xs) auto

lemma update_account_Inr:
  assumes "update_account ve db uid nm em = Inr db'"
  shows "\<forall>u\<in>set (users db). user_id u \<noteq> uid \<longrightarrow> email u \<noteq> email_setters em"
    and "users db' = update_first (\<lambda>u. user_id u = uid)
           (\<lambda>u. u\<lparr>user_name := trim nm, email := email_setters em\<rparr>) (users db)"
    and "next_uid db' = next_uid db"
  using assms by (auto simp: update_account_def Let_def split: if_splits)

end
