(* ===== verification/Favourites.thy ===== *)
theory Favourites
  imports Accounts
begin

text \<open>
  Favourites: \<open>heartStore\<close> and \<open>hearts\<close> of \<open>src/controllers/storeController.js\<close>,
  over the users collection of \<open>Accounts\<close> and the stores of \<open>StoreModel\<close>.
\<close>

text \<open>
  \<open>storeController.js\<close> lines 201--202: the operator is chosen from the hearts of the
  session's user, \<open>$pull\<close> when the store is among them, \<open>$addToSet\<close> otherwise.
\<close>

datatype heart_op = Pull | AddToSet

definition heart_operator :: "object_id list \<Rightarrow> object_id \<Rightarrow> heart_op" where
  "heart_operator hs sid = (if sid \<in> set hs then Pull else AddToSet)"

text \<open>What the operator does to the stored array: \<open>$pull\<close> removes every occurrence,
  \<open>$addToSet\<close> appends the value unless it is present.\<close>

primrec apply_heart_op :: "heart_op \<Rightarrow> object_id \<Rightarrow> object_id list \<Rightarrow> object_id list" where
  "apply_heart_op Pull sid hs = removeAll sid hs"
| "apply_heart_op AddToSet sid hs = (if sid \<in> set hs then hs else hs @ [sid])"

text \<open>
  \<open>heartStore\<close> (lines 198--209): \<open>findByIdAndUpdate\<close> with the operator and
  \<open>new: true\<close>; the response is the updated user (\<open>null\<close> when there is none).
\<close>

definition heart_store :: "user_db \<Rightarrow> object_id \<Rightarrow> object_id \<Rightarrow> auth_error + user_db \<times> user" where
  "heart_store db uid sid =
     (case find_user db uid of
        None \<Rightarrow> Inl NoUser
      | Some u \<Rightarrow>
          (let op = heart_operator (hearts u) sid;
               upd = (\<lambda>v. v\<lparr>hearts := apply_heart_op op sid (hearts v)\<rparr>)
           in Inr (db\<lparr>users := update_first (\<lambda>v. user_id v = uid) upd (users db)\<rparr>, upd u)))"

text \<open>\<open>hearts\<close> (lines 211--220): \<^verbatim>\<open>Store.find({ _id: { $in: req.user.hearts } })\<close>.\<close>

definition hearted_stores :: "catalog \<Rightarrow> user \<Rightarrow> store list" where
  "hearted_stores c u = filter (\<lambda>s. store_id s \<in> set (hearts u)) (stores c)"

subsection \<open>Lemmas\<close>

lemma set_apply_heart_op:
  "set (apply_heart_op (heart_operator hs sid) sid hs) =
     (if sid \<in> set hs then set hs - {sid} else insert sid (set hs))"
  by (auto simp: heart_operator_def)

lemma distinct_apply_heart_op [simp]: "distinct hs \<Longrightarrow> distinct (apply_heart_op op sid hs)"
  by (cases op) (auto simp: distinct_removeAll)

lemma heart_store_Inr:
  assumes "heart_store db uid sid = Inr (db', u')"
  obtains u where "find_user db uid = Some u"
    and "u' = u\<lparr>hearts := apply_heart_op (heart_operator (hearts u) sid) sid (hearts u)\<rparr>"
    and "users db' = update_first (\<lambda>v. user_id v = uid)
           (\<lambda>v. v\<lparr>hearts := apply_heart_op (heart_operator (hearts u) sid) sid (hearts v)\<rparr>) (users db)"
  using assms by (auto simp: heart_store_def Let_def split: option.splits)

lemma heart_store_find:
  assumes "heart_store db uid sid = Inr (db', u')"
  shows "find_user db' uid = Some u'"
  using assms
proof (rule heart_store_Inr)
  fix u assume u: "find_user db uid = Some u" and "u' = u\<lparr>hearts := apply_heart_op
      (heart_operator (hearts u) sid) sid (hearts u)\<rparr>"
    and "users db' = update_first (\<lambda>v. user_id v = uid)
      (\<lambda>v. v\<lparr>hearts := apply_heart_op (heart_operator (hearts u) sid) sid (hearts v)\<rparr>) (users db)"
  moreover have "user_id u = uid"
    using find_user_Some [OF u] by simp
  ultimately show ?thesis
    unfolding find_user_def by (simp add: find_update_first)
qed

lemma hearted_stores_cong:
  "set (hearts u) = set (hearts v) \<Longrightarrow> hearted_stores c u = hearted_stores c v"
  by (simp add: hearted_stores_def)

lemma heart_store_set:
  assumes "heart_store db uid sid = Inr (db', u')" and "find_user db uid = Some u"
  shows "set (hearts u') = (if sid \<in> set (hearts u) then set (hearts u) - {sid} else insert sid (set (hearts u)))"
  using assms(1)
proof (rule heart_store_Inr)
  fix u0 :: user
  assume "find_user db uid = Some u0"
    and "u' = u0\<lparr>hearts := apply_heart_op (heart_operator (hearts u0) sid) sid (hearts u0)\<rparr>"
  with assms(2) show ?thesis
    by (simp add: set_apply_heart_op)
qed

end
