(* ===== verification/PasswordReset.thy ===== *)
theory PasswordReset
  imports Accounts
begin

text \<open>
  The password-reset flow of \<open>src/controllers/authController.js\<close> (\<open>forgot\<close>,
  \<open>reset\<close>, \<open>confirmedPasswords\<close>, \<open>update\<close>) and the mail it sends through
  \<open>src/handlers/mail.js\<close>. A \<open>findOne\<close> by e-mail compares the stored (normalised)
  address with the query value as given.
\<close>

text \<open>
  A mail as \<open>send\<close> of \<open>src/handlers/mail.js\<close> (lines 27--39) hands it to the transport:
  sender, recipient (the user's address), subject, the template's file name and the
  reset link that the template renders into the HTML and text bodies. The SMTP
  transport (lines 9--16) is not modelled.
\<close>

record mail =
  mail_from :: string
  mail_to :: string
  mail_subject :: string
  mail_filename :: string
  mail_url :: string

definition send_mail :: "user \<Rightarrow> string \<Rightarrow> string \<Rightarrow> string \<Rightarrow> mail" where
  "send_mail u filename subject url =
     \<lparr>mail_from = ''Pratik <pratikch1253@gmail.com>'', mail_to = email u, mail_subject = subject,
      mail_filename = filename, mail_url = url\<rparr>"

text \<open>
  The bodies of the mail: \<open>generateHTML\<close> (lines 19--26) renders the pug template
  \<open>views/email/<filename>.pug\<close> with the mail's options and inlines its CSS, and
  \<open>send\<close> (lines 28--29) derives the text body from the HTML. The libraries
  (\<open>pug.renderFile\<close>, \<open>juice\<close>, \<open>htmlToText.fromString\<close>) and \<open>__dirname\<close> are
  parameters.
\<close>

definition generate_html ::
  "(string \<Rightarrow> mail \<Rightarrow> string) \<Rightarrow> (string \<Rightarrow> string) \<Rightarrow> string \<Rightarrow> string \<Rightarrow> mail \<Rightarrow> string" where
  "generate_html render_file juice dir filename opts =
     juice (render_file (dir @ ''/../views/email/'' @ filename @ ''.pug'') opts)"

definition mail_bodies ::
  "(string \<Rightarrow> mail \<Rightarrow> string) \<Rightarrow> (string \<Rightarrow> string) \<Rightarrow> (string \<Rightarrow> string) \<Rightarrow> string \<Rightarrow> mail \<Rightarrow>
   string \<times> string" where
  "mail_bodies render_file juice html_to_text dir m =
     (let html = generate_html render_file juice dir (mail_filename m) m in (html, html_to_text html))"

text \<open>
  \<open>forgot\<close> (\<open>authController.js\<close> lines 39--63): look the user up by the e-mail as posted,
  give it a fresh token (a parameter: \<open>crypto.randomBytes(20)\<close>) valid for one hour,
  save it, and mail the link \<^verbatim>\<open>http://${req.headers.host}/account/reset/${token}\<close>,
  whose host is the request's \<open>Host\<close> header.
\<close>

definition forgot ::
  "user_db \<Rightarrow> string \<Rightarrow> timestamp \<Rightarrow> string \<Rightarrow> string \<Rightarrow> auth_error + user_db \<times> mail" where
  "forgot db em now tok host =
     (case find (\<lambda>u. email u = em) (users db) of
        None \<Rightarrow> Inl NoAccount
      | Some u \<Rightarrow>
          (let u' = u\<lparr>reset_token := Some tok, reset_expires := Some (now + 3600000)\<rparr> in
           Inr (db\<lparr>users := update_first (\<lambda>v. user_id v = user_id u)
                    (\<lambda>v. v\<lparr>reset_token := Some tok, reset_expires := Some (now + 3600000)\<rparr>) (users db)\<rparr>,
                send_mail u' ''password-reset'' ''Password Reset'' (''http://'' @ host @ ''/account/reset/'' @ tok))))"

text \<open>
  The lookup of \<open>reset\<close> and \<open>update\<close> (lines 67--70, 90--93): the token matches and
  \<^verbatim>\<open>resetPasswordExpires: { $gt: Date.now() }\<close>.
\<close>

definition token_user :: "user_db \<Rightarrow> string \<Rightarrow> timestamp \<Rightarrow> user option" where
  "token_user db t now =
     find (\<lambda>u. reset_token u = Some t \<and> (case reset_expires u of None \<Rightarrow> False | Some e \<Rightarrow> now < e))
       (users db)"

text \<open>
  \<open>reset\<close> (lines 65--77): with no user the handler redirects but does not return, so it
  goes on to render and fails on a response already sent.
\<close>

definition reset_page :: "user_db \<Rightarrow> string \<Rightarrow> timestamp \<Rightarrow> auth_error + unit" where
  "reset_page db t now = (case token_user db t now of None \<Rightarrow> Inl HeadersSent | Some _ \<Rightarrow> Inr ())"

text \<open>\<open>confirmedPasswords\<close> (lines 79--87).\<close>

definition confirmed_passwords :: "string \<Rightarrow> string \<Rightarrow> bool" where
  "confirmed_passwords pw pc \<longleftrightarrow> pw = pc"

text \<open>
  \<open>update\<close> (lines 89--108): with no user the handler redirects, does not return, and
  calls \<open>setPassword\<close> on \<open>null\<close>; otherwise it sets the password and clears the token
  and its expiry.
\<close>

definition update_password :: "user_db \<Rightarrow> string \<Rightarrow> timestamp \<Rightarrow> string \<Rightarrow> auth_error + user_db" where
  "update_password db t now pw =
     (case token_user db t now of
        None \<Rightarrow> Inl NullUser
      | Some u \<Rightarrow>
          Inr (db\<lparr>users := update_first (\<lambda>v. user_id v = user_id u)
                    (\<lambda>v. v\<lparr>password := Some pw, reset_token := None, reset_expires := None\<rparr>) (users db)\<rparr>))"

subsection \<open>Lemmas\<close>

lemma token_user_Some:
  "token_user db t now = Some u \<Longrightarrow>
   u \<in> set (users db) \<and> reset_token u = Some t \<and> (\<exists>e. reset_expires u = Some e \<and> now < e)"
  unfolding token_user_def by (drule find_Some_mem) (auto split: option.splits)

lemma update_password_Inr:
  assumes "update_password db t now pw = Inr db'"
  obtains u where "token_user db t now = Some u"
    and "users db' = update_first (\<lambda>v. user_id v = user_id u)
           (\<lambda>v. v\<lparr>password := Some pw, reset_token := None, reset_expires := None\<rparr>) (users db)"
  using assms by (auto simp: update_password_def split: option.splits)

lemma forgot_Inr:
  assumes "forgot db em now tok host = Inr (db', m)"
  obtains u where "find (\<lambda>u. email u = em) (users db) = Some u"
    and "users db' = update_first (\<lambda>v. user_id v = user_id u)
           (\<lambda>v. v\<lparr>reset_token := Some tok, reset_expires := Some (now + 3600000)\<rparr>) (users db)"
    and "mail_to m = em" and "mail_url m = ''http://'' @ host @ ''/account/reset/'' @ tok"
  using assms by (auto simp: forgot_def send_mail_def Let_def split: option.splits dest: find_Some_mem)

lemma forgot_token_user:
  assumes run: "forgot db em t0 tok host = Inr (db', m)"
    and ids: "distinct (map user_id (users db))"
    and fresh: "\<forall>v\<in>set (users db). reset_token v \<noteq> Some tok"
  shows "\<exists>u'. token_user db' tok now = (if now < t0 + 3600000 then Some u' else None)"
  using run
proof (rule forgot_Inr)
  fix u :: user
  assume "find (\<lambda>u. email u = em) (users db) = Some u"
    and us: "users db' = update_first (\<lambda>v. user_id v = user_id u)
      (\<lambda>v. v\<lparr>reset_token := Some tok, reset_expires := Some (t0 + 3600000)\<rparr>) (users db)"
  then have "find (\<lambda>v. user_id v = user_id u) (users db) = Some u"
    using ids by (simp add: find_Some_mem find_id_unique)
  from find_id_split [OF ids this] obtain ys zs where xs: "users db = ys @ u # zs"
    and upd: "users db' = ys @ u\<lparr>reset_token := Some tok, reset_expires := Some (t0 + 3600000)\<rparr> # zs"
    unfolding us by blast
  from fresh xs have "\<forall>v\<in>set ys \<union> set zs. reset_token v \<noteq> Some tok"
    by auto
  then show ?thesis
    unfolding token_user_def upd by (subst find_single_candidate) auto
qed

end
