(* ===== verification/Users.thy ===== *)
theory Users
  imports Favourites PasswordReset
begin

text \<open>
  The users collection as a state machine: every request that changes it
  (registration, account update, heart, reset request, password reset) is a step, and
  the invariant \<open>users_inv\<close> holds in every reachable state. The properties of the user
  side are stated here.
\<close>

subsection \<open>The users collection as a state machine\<close>

text \<open>
  Every request that changes the users collection, with the inputs the request
  carries; the e-mail syntax check is fixed across the run.
\<close>

inductive user_step :: "(string \<Rightarrow> bool) \<Rightarrow> user_db \<Rightarrow> user_db \<Rightarrow> bool" where
  register: "register ve db nm em pw pc = Inr db' \<Longrightarrow> user_step ve db db'"
| account: "update_account ve db uid nm em = Inr db' \<Longrightarrow> user_step ve db db'"
| heart: "heart_store db uid sid = Inr (db', u') \<Longrightarrow> user_step ve db db'"
| forgot: "forgot db em now tok host = Inr (db', m) \<Longrightarrow> user_step ve db db'"
| update: "update_password db t now pw = Inr db' \<Longrightarrow> user_step ve db db'"

inductive reachable_users :: "(string \<Rightarrow> bool) \<Rightarrow> user_db \<Rightarrow> bool" where
  init: "reachable_users ve empty_users"
| step: "reachable_users ve db \<Longrightarrow> user_step ve db db' \<Longrightarrow> reachable_users ve db'"

inductive_cases user_stepE: "user_step ve db db'"

text \<open>
  The invariant of the collection: ids are distinct and below the counter, e-mail
  addresses are distinct (the unique index), no store is twice among a user's hearts,
  and a reset token is stored exactly when its expiry is.
\<close>

definition user_ok :: "user \<Rightarrow> bool" where
  "user_ok u \<longleftrightarrow> distinct (hearts u) \<and> (reset_token u = None \<longleftrightarrow> reset_expires u = None)"

definition users_inv :: "user_db \<Rightarrow> bool" where
  "users_inv db \<longleftrightarrow>
     distinct (map user_id (users db)) \<and> (\<forall>i\<in>set (map user_id (users db)). i < next_uid db) \<and>
     distinct (map email (users db)) \<and> (\<forall>u\<in>set (users db). user_ok u)"

subsection \<open>The invariant\<close>

lemma users_inv_empty: "users_inv empty_users"
  by (simp add: users_inv_def empty_users_def)

lemma users_inv_keep:
  assumes "users_inv db" and "map user_id (users db') = map user_id (users db)"
    and "map email (users db') = map email (users db)" and "next_uid db' = next_uid db"
    and "\<forall>u\<in>set (users db'). user_ok u"
  shows "users_inv db'"
  using assms unfolding users_inv_def by simp

lemma register_inv:
  "users_inv db \<Longrightarrow> register ve db nm em pw pc = Inr db' \<Longrightarrow> users_inv db'"
proof -
  assume inv: "users_inv db" and run: "register ve db nm em pw pc = Inr db'"
  then have fresh: "next_uid db \<notin> set (map user_id (users db))"
    unfolding users_inv_def by blast
  from inv run fresh show ?thesis
    unfolding register_def Let_def users_inv_def
    by (auto simp: user_ok_def less_Suc_eq split: if_splits)
qed

lemma update_account_inv:
  assumes inv: "users_inv db" and run: "update_account ve db uid nm em = Inr db'"
  shows "users_inv db'"
proof -
  let ?f = "\<lambda>u. u\<lparr>user_name := trim nm, email := email_setters em\<rparr>"
  have other: "\<forall>u\<in>set (users db). user_id u \<noteq> uid \<longrightarrow> email u \<noteq> email_setters em"
    and us: "users db' = update_first (\<lambda>u. user_id u = uid) ?f (users db)"
    and nx: "next_uid db' = next_uid db"
    using update_account_Inr [OF run] by blast+
  have ids: "map user_id (users db') = map user_id (users db)"
    unfolding us by (simp add: map_update_first)
  have ok: "\<forall>u\<in>set (users db'). user_ok u"
    using inv unfolding us users_inv_def by (intro update_first_all) (auto simp: user_ok_def)
  have "distinct (map email (users db'))"
  proof (cases "find (\<lambda>u. user_id u = uid) (users db)")
    case None
    then have "users db' = users db"
      unfolding us by (simp add: update_first_no_match find_None_iff)
    with inv show ?thesis by (simp add: users_inv_def)
  next
    case (Some u)
    from inv have "distinct (map user_id (users db))" by (simp add: users_inv_def)
    from find_id_split [OF this Some] obtain ys zs where xs: "users db = ys @ u # zs"
      and upd: "update_first (\<lambda>u. user_id u = uid) ?f (users db) = ys @ ?f u # zs"
      and rest: "\<forall>v\<in>set ys \<union> set zs. user_id v \<noteq> uid" .
    from other rest xs have "email (?f u) \<notin> email ` (set ys \<union> set zs)"
      by auto
    moreover have "distinct (map email (ys @ u # zs))"
      using inv xs by (simp add: users_inv_def)
    ultimately show ?thesis
      unfolding us upd by (rule distinct_map_replace [rotated])
  qed
  with inv ids nx ok show ?thesis
    by (simp add: users_inv_def)
qed

lemma heart_store_inv:
  assumes inv: "users_inv db" and run: "heart_store db uid sid = Inr (db', u')"
  shows "users_inv db'"
  using run
proof (rule heart_store_Inr)
  fix u :: user
  assume us: "users db' = update_first (\<lambda>v. user_id v = uid)
      (\<lambda>v. v\<lparr>hearts := apply_heart_op (heart_operator (hearts u) sid) sid (hearts v)\<rparr>) (users db)"
  have nx: "next_uid db' = next_uid db"
    using run by (auto simp: heart_store_def Let_def split: option.splits)
  have ok: "\<forall>v\<in>set (users db'). user_ok v"
    using inv unfolding us users_inv_def by (intro update_first_all) (auto simp: user_ok_def)
  show ?thesis
    by (rule users_inv_keep [OF inv]) (simp_all add: us nx ok map_update_first)
qed

lemma forgot_inv:
  assumes inv: "users_inv db" and run: "forgot db em now tok host = Inr (db', m)"
  shows "users_inv db'"
  using run
proof (rule forgot_Inr)
  fix u :: user
  assume us: "users db' = update_first (\<lambda>v. user_id v = user_id u)
      (\<lambda>v. v\<lparr>reset_token := Some tok, reset_expires := Some (now + 3600000)\<rparr>) (users db)"
  have nx: "next_uid db' = next_uid db"
    using run by (auto simp: forgot_def Let_def split: option.splits)
  have ok: "\<forall>v\<in>set (users db'). user_ok v"
    using inv unfolding us users_inv_def by (intro update_first_all) (auto simp: user_ok_def)
  show ?thesis
    by (rule users_inv_keep [OF inv]) (simp_all add: us nx ok map_update_first)
qed

lemma update_password_inv:
  assumes inv: "users_inv db" and run: "update_password db t now pw = Inr db'"
  shows "users_inv db'"
  using run
proof (rule update_password_Inr)
  fix u :: user
  assume us: "users db' = update_first (\<lambda>v. user_id v = user_id u)
      (\<lambda>v. v\<lparr>password := Some pw, reset_token := None, reset_expires := None\<rparr>) (users db)"
  have nx: "next_uid db' = next_uid db"
    using run by (auto simp: update_password_def split: option.splits)
  have ok: "\<forall>v\<in>set (users db'). user_ok v"
    using inv unfolding us users_inv_def by (intro update_first_all) (auto simp: user_ok_def)
  show ?thesis
    by (rule users_inv_keep [OF inv]) (simp_all add: us nx ok map_update_first)
qed

lemma user_step_inv: "user_step ve db db' \<Longrightarrow> users_inv db \<Longrightarrow> users_inv db'"
proof (induction rule: user_step.induct)
  case register
  then show ?case by (rule register_inv [rotated])
next
  case account
  then show ?case by (rule update_account_inv [rotated])
next
  case heart
  then show ?case by (rule heart_store_inv [rotated])
next
  case forgot
  then show ?case by (rule forgot_inv [rotated])
next
  case update
  then show ?case by (rule update_password_inv [rotated])
qed

subsection \<open>Properties of the user side\<close>

text \<open>
  C25. In every reachable state of the users collection (any sequence of registrations,
  account updates, hearts, reset requests and password resets) ids are distinct and
  below the counter, e-mail addresses are distinct, no store is twice among a user's
  hearts, and a reset token is stored exactly when its expiry is.
\<close>

theorem reachable_users_inv:
  "reachable_users ve db \<Longrightarrow> users_inv db"
proof (induction rule: reachable_users.induct)
  case init
  show ?case by (rule users_inv_empty)
next
  case (step ve db db')
  then show ?case by (blast intro: user_step_inv)
qed

theorem reachable_users_inv_witness:
  "users_inv (projr (register sample_valid_email empty_users ''Joe'' ''Joe@Example.com'' ''pw'' ''pw''))"
proof -
  have reg: "register sample_valid_email empty_users ''Joe'' ''Joe@Example.com'' ''pw'' ''pw'' =
      Inr (projr (register sample_valid_email empty_users ''Joe'' ''Joe@Example.com'' ''pw'' ''pw''))"
    by code_simp
  have "reachable_users sample_valid_email
          (projr (register sample_valid_email empty_users ''Joe'' ''Joe@Example.com'' ''pw'' ''pw''))"
    by (rule reachable_users.step [OF reachable_users.init user_step.register [OF reg]])
  then show ?thesis by (rule reachable_users_inv)
qed

text \<open>
  C26. \<open>heartStore\<close> toggles one store: afterwards the stored user is the one returned,
  and its hearted-stores page lists the stores it listed before, with the toggled store
  added when it was absent and removed when it was present.
\<close>

theorem heart_store_hearted:
  assumes "heart_store db uid sid = Inr (db', u')" and "find_user db uid = Some u"
  shows "find_user db' uid = Some u' \<and>
    hearted_stores c u' =
      filter (\<lambda>s. if store_id s = sid then sid \<notin> set (hearts u) else store_id s \<in> set (hearts u)) (stores c)"
proof
  show "find_user db' uid = Some u'"
    using assms(1) by (rule heart_store_find)
  show "hearted_stores c u' =
      filter (\<lambda>s. if store_id s = sid then sid \<notin> set (hearts u) else store_id s \<in> set (hearts u)) (stores c)"
    unfolding hearted_stores_def heart_store_set [OF assms]
    by (rule filter_cong) auto
qed

theorem heart_store_hearted_witness:
  "case heart_store \<lparr>users = [sample_user 1 [5]], next_uid = 2\<rparr> 1 6 of
     Inr (db', u') \<Rightarrow>
       hearted_stores \<lparr>stores = [sample_store 5 ''A'' [], sample_store 6 ''B'' [], sample_store 7 ''C'' []],
         reviews = [], next_oid = 8\<rparr> u' = [sample_store 5 ''A'' [], sample_store 6 ''B'' []]
   | Inl _ \<Rightarrow> False"
proof -
  let ?db = "\<lparr>users = [sample_user 1 [5]], next_uid = 2\<rparr>"
  let ?c = "\<lparr>stores = [sample_store 5 ''A'' [], sample_store 6 ''B'' [], sample_store 7 ''C'' []],
         reviews = [], next_oid = 8\<rparr>"
  have ex: "heart_store ?db 1 6 = Inr (projr (heart_store ?db 1 6))"
    by code_simp
  obtain db' u' where run: "heart_store ?db 1 6 = Inr (db', u')"
    using ex by (metis prod.collapse)
  have fu: "find_user ?db 1 = Some (sample_user 1 [5])"
    by code_simp
  have "hearted_stores ?c u' =
     filter (\<lambda>s. if store_id s = 6 then 6 \<notin> set (hearts (sample_user 1 [5]))
                 else store_id s \<in> set (hearts (sample_user 1 [5]))) (stores ?c)"
    using heart_store_hearted [OF run fu] by blast
  also have "\<dots> = [sample_store 5 ''A'' [], sample_store 6 ''B'' []]"
    by code_simp
  finally show ?thesis
    unfolding run by simp
qed

text \<open>
  Hearting the same store twice restores the user's hearted-stores page.
\<close>

theorem heart_store_twice:
  assumes run1: "heart_store db uid sid = Inr (db1, u1)"
    and run2: "heart_store db1 uid sid = Inr (db2, u2)"
    and u: "find_user db uid = Some u"
  shows "hearted_stores c u2 = hearted_stores c u"
proof (rule hearted_stores_cong)
  have "find_user db1 uid = Some u1"
    using run1 by (rule heart_store_find)
  with run2 have "set (hearts u2) =
      (if sid \<in> set (hearts u1) then set (hearts u1) - {sid} else insert sid (set (hearts u1)))"
    by (rule heart_store_set)
  moreover have "set (hearts u1) =
      (if sid \<in> set (hearts u) then set (hearts u) - {sid} else insert sid (set (hearts u)))"
    using run1 u by (rule heart_store_set)
  ultimately show "set (hearts u2) = set (hearts u)"
    by (auto split: if_splits)
qed

theorem heart_store_twice_witness:
  "case heart_store \<lparr>users = [sample_user 1 [5, 6]], next_uid = 2\<rparr> 1 5 of
     Inr (db1, u1) \<Rightarrow>
       (case heart_store db1 1 5 of
          Inr (db2, u2) \<Rightarrow>
            hearted_stores \<lparr>stores = [sample_store 5 ''A'' [], sample_store 6 ''B'' []],
              reviews = [], next_oid = 7\<rparr> u2 = [sample_store 5 ''A'' [], sample_store 6 ''B'' []]
        | Inl _ \<Rightarrow> False)
   | Inl _ \<Rightarrow> False"
proof -
  let ?db = "\<lparr>users = [sample_user 1 [5, 6]], next_uid = 2\<rparr>"
  let ?c = "\<lparr>stores = [sample_store 5 ''A'' [], sample_store 6 ''B'' []], reviews = [], next_oid = 7\<rparr>"
  have ex1: "heart_store ?db 1 5 = Inr (projr (heart_store ?db 1 5))"
    by code_simp
  obtain db1 u1 where run1: "heart_store ?db 1 5 = Inr (db1, u1)"
    using ex1 by (metis prod.collapse)
  have ex2: "heart_store (fst (projr (heart_store ?db 1 5))) 1 5 =
      Inr (projr (heart_store (fst (projr (heart_store ?db 1 5))) 1 5))"
    by code_simp
  obtain db2 u2 where run2: "heart_store db1 1 5 = Inr (db2, u2)"
    using ex2 unfolding run1 by (metis fst_conv sum.sel(2) prod.collapse)
  have fu: "find_user ?db 1 = Some (sample_user 1 [5, 6])"
    by code_simp
  have "hearted_stores ?c u2 = hearted_stores ?c (sample_user 1 [5, 6])"
    using run1 run2 fu by (rule heart_store_twice)
  also have "\<dots> = [sample_store 5 ''A'' [], sample_store 6 ''B'' []]"
    by code_simp
  finally show ?thesis
    by (simp only: run1 run2 sum.case prod.case)
qed

text \<open>
  C28. \<open>forgot\<close> mails the account's address the link
  \<^verbatim>\<open>http://<host>/account/reset/<token>\<close>, and with a fresh token the reset page
  accepts it exactly during the hour after the request.
\<close>

theorem forgot_reset_window:
  assumes run: "forgot db em t0 tok host = Inr (db', m)"
    and ids: "distinct (map user_id (users db))"
    and fresh: "\<forall>v\<in>set (users db). reset_token v \<noteq> Some tok"
  shows "mail_to m = em \<and> mail_url m = ''http://'' @ host @ ''/account/reset/'' @ tok \<and>
    (reset_page db' tok now = Inr () \<longleftrightarrow> now < t0 + 3600000)"
proof (intro conjI)
  show "mail_to m = em" and "mail_url m = ''http://'' @ host @ ''/account/reset/'' @ tok"
    using run by (auto elim: forgot_Inr)
  obtain u' where "token_user db' tok now = (if now < t0 + 3600000 then Some u' else None)"
    using forgot_token_user [OF run ids fresh] by blast
  then show "reset_page db' tok now = Inr () \<longleftrightarrow> now < t0 + 3600000"
    by (simp add: reset_page_def)
qed

theorem forgot_reset_window_witness:
  "case forgot \<lparr>users = [sample_user 1 []], next_uid = 2\<rparr> ''a@b'' 0 ''abc'' ''localhost:7777'' of
     Inr (db', m) \<Rightarrow> mail_url m = ''http://localhost:7777/account/reset/abc'' \<and> reset_page db' ''abc'' 3599999 = Inr () \<and>
       reset_page db' ''abc'' 3600000 \<noteq> Inr ()
   | Inl _ \<Rightarrow> False"
proof -
  let ?db = "\<lparr>users = [sample_user 1 []], next_uid = 2\<rparr>"
  have ex: "forgot ?db ''a@b'' 0 ''abc'' ''localhost:7777'' = Inr (projr (forgot ?db ''a@b'' 0 ''abc'' ''localhost:7777''))"
    by code_simp
  obtain db' m where run: "forgot ?db ''a@b'' 0 ''abc'' ''localhost:7777'' = Inr (db', m)"
    using ex by (metis prod.collapse)
  have ids: "distinct (map user_id (users ?db))" and fresh: "\<forall>v\<in>set (users ?db). reset_token v \<noteq> Some ''abc''"
    by (simp_all add: sample_user_def)
  show ?thesis
    using forgot_reset_window [OF run ids fresh, of 3599999] forgot_reset_window [OF run ids fresh, of 3600000]
    unfolding run by simp
qed

text \<open>
  C29. A successful \<open>update\<close> resets the password of the user the token names and
  clears its token and expiry; no user is added or removed.
\<close>

theorem update_password_resets:
  assumes run: "update_password db t now pw = Inr db'"
    and ids: "distinct (map user_id (users db))"
  shows "\<exists>u. token_user db t now = Some u \<and>
    find_user db' (user_id u) = Some (u\<lparr>password := Some pw, reset_token := None, reset_expires := None\<rparr>) \<and>
    map user_id (users db') = map user_id (users db)"
  using run
proof (rule update_password_Inr)
  fix u :: user
  assume tu: "token_user db t now = Some u"
    and us: "users db' = update_first (\<lambda>v. user_id v = user_id u)
      (\<lambda>v. v\<lparr>password := Some pw, reset_token := None, reset_expires := None\<rparr>) (users db)"
  have "find (\<lambda>v. user_id v = user_id u) (users db) = Some u"
    using ids token_user_Some [OF tu] by (simp add: find_id_unique)
  then have "find_user db' (user_id u) = Some (u\<lparr>password := Some pw, reset_token := None, reset_expires := None\<rparr>)"
    unfolding find_user_def us by (simp add: find_update_first)
  moreover have "map user_id (users db') = map user_id (users db)"
    unfolding us by (simp add: map_update_first)
  ultimately show ?thesis
    using tu by blast
qed

theorem update_password_resets_witness:
  "case update_password \<lparr>users = [(sample_user 1 [])\<lparr>reset_token := Some ''abc'', reset_expires := Some 100\<rparr>],
       next_uid = 2\<rparr> ''abc'' 10 ''new'' of
     Inr db' \<Rightarrow> find_user db' 1 = Some ((sample_user 1 [])\<lparr>password := Some ''new''\<rparr>)
   | Inl _ \<Rightarrow> False"
proof -
  let ?u = "(sample_user 1 [])\<lparr>reset_token := Some ''abc'', reset_expires := Some 100\<rparr>"
  let ?db = "\<lparr>users = [?u], next_uid = 2\<rparr>"
  have ex: "update_password ?db ''abc'' 10 ''new'' = Inr (projr (update_password ?db ''abc'' 10 ''new''))"
    by code_simp
  obtain db' where run: "update_password ?db ''abc'' 10 ''new'' = Inr db'"
    using ex by blast
  have tu: "token_user ?db ''abc'' 10 = Some ?u"
    by code_simp
  have ids: "distinct (map user_id (users ?db))"
    by simp
  have "find_user db' (user_id ?u) =
      Some (?u\<lparr>password := Some ''new'', reset_token := None, reset_expires := None\<rparr>)"
    using update_password_resets [OF run ids] tu by auto
  then show ?thesis
    unfolding run by (simp add: sample_user_def)
qed

text \<open>
  C30. A reset token is single use: when no other user holds it, a second \<open>update\<close>
  with the token of a successful one, at any time and with any password, finds no user
  (and fails on \<open>null\<close>).
\<close>

theorem reset_token_single_use:
  assumes run: "update_password db t now pw = Inr db'"
    and ids: "distinct (map user_id (users db))"
    and one: "length (filter (\<lambda>v. reset_token v = Some t) (users db)) \<le> 1"
  shows "update_password db' t now' pw' = Inl NullUser"
  using run
proof (rule update_password_Inr)
  fix u :: user
  assume tu: "token_user db t now = Some u"
    and us: "users db' = update_first (\<lambda>v. user_id v = user_id u)
      (\<lambda>v. v\<lparr>password := Some pw, reset_token := None, reset_expires := None\<rparr>) (users db)"
  have tok: "u \<in> set (users db)" "reset_token u = Some t"
    using token_user_Some [OF tu] by simp_all
  then have "find (\<lambda>v. user_id v = user_id u) (users db) = Some u"
    using ids by (simp add: find_id_unique)
  from find_id_split [OF ids this] obtain ys zs where xs: "users db = ys @ u # zs"
    and upd: "users db' = ys @ u\<lparr>password := Some pw, reset_token := None, reset_expires := None\<rparr> # zs"
    unfolding us by blast
  have "filter (\<lambda>v. reset_token v = Some t) ys = [] \<and> filter (\<lambda>v. reset_token v = Some t) zs = []"
    using one tok(2) unfolding xs by simp
  then have "\<forall>v\<in>set ys \<union> set zs. reset_token v \<noteq> Some t"
    by (auto simp: filter_empty_conv)
  then have "token_user db' t now' = None"
    unfolding token_user_def upd by (subst find_single_candidate) auto
  then show ?thesis
    by (simp add: update_password_def)
qed

theorem reset_token_single_use_witness:
  "case update_password \<lparr>users = [(sample_user 1 [])\<lparr>reset_token := Some ''abc'', reset_expires := Some 100\<rparr>],
       next_uid = 2\<rparr> ''abc'' 10 ''new'' of
     Inr db' \<Rightarrow> update_password db' ''abc'' 11 ''other'' = Inl NullUser
   | Inl _ \<Rightarrow> False"
proof -
  let ?db = "\<lparr>users = [(sample_user 1 [])\<lparr>reset_token := Some ''abc'', reset_expires := Some 100\<rparr>],
       next_uid = 2\<rparr>"
  have ex: "update_password ?db ''abc'' 10 ''new'' = Inr (projr (update_password ?db ''abc'' 10 ''new''))"
    by code_simp
  obtain db' where run: "update_password ?db ''abc'' 10 ''new'' = Inr db'"
    using ex by blast
  have ids: "distinct (map user_id (users ?db))"
    and one: "length (filter (\<lambda>v. reset_token v = Some ''abc'') (users ?db)) \<le> 1"
    by simp_all
  show ?thesis
    using reset_token_single_use [OF run ids one, of 11 "''other''"] unfolding run by simp
qed

text \<open>
  C31. Once the hour after a reset request has passed, the token is refused, and both
  handlers then fail after redirecting: \<open>reset\<close> renders into a response already sent
  and \<open>update\<close> calls \<open>setPassword\<close> on \<open>null\<close> (the early returns are missing).
\<close>

theorem expired_token_handlers_fail:
  assumes run: "forgot db em t0 tok host = Inr (db', m)"
    and ids: "distinct (map user_id (users db))"
    and fresh: "\<forall>v\<in>set (users db). reset_token v \<noteq> Some tok"
    and late: "t0 + 3600000 \<le> now"
  shows "reset_page db' tok now = Inl HeadersSent \<and> update_password db' tok now pw = Inl NullUser"
proof -
  obtain u' where "token_user db' tok now = (if now < t0 + 3600000 then Some u' else None)"
    using forgot_token_user [OF run ids fresh] by blast
  with late have "token_user db' tok now = None"
    by simp
  then show ?thesis
    by (simp add: reset_page_def update_password_def)
qed

theorem expired_token_handlers_fail_witness:
  "case forgot \<lparr>users = [sample_user 1 []], next_uid = 2\<rparr> ''a@b'' 0 ''abc'' ''localhost:7777'' of
     Inr (db', m) \<Rightarrow> update_password db' ''abc'' 3600000 ''new'' = Inl NullUser
   | Inl _ \<Rightarrow> False"
proof -
  let ?db = "\<lparr>users = [sample_user 1 []], next_uid = 2\<rparr>"
  have ex: "forgot ?db ''a@b'' 0 ''abc'' ''localhost:7777'' = Inr (projr (forgot ?db ''a@b'' 0 ''abc'' ''localhost:7777''))"
    by code_simp
  obtain db' m where run: "forgot ?db ''a@b'' 0 ''abc'' ''localhost:7777'' = Inr (db', m)"
    using ex by (metis prod.collapse)
  have ids: "distinct (map user_id (users ?db))" and fresh: "\<forall>v\<in>set (users ?db). reset_token v \<noteq> Some ''abc''"
    by (simp_all add: sample_user_def)
  show ?thesis
    using expired_token_handlers_fail [OF run ids fresh, of 3600000 "''new''"] unfolding run by simp
qed

text \<open>
  C36. The reset link's host is the request's \<open>Host\<close> header: whoever posts
  \<open>forgot\<close> for an address, with any \<open>Host\<close>, has the account's owner mailed a link
  to that host carrying the fresh token, and whoever receives the link can, within the
  hour, set the account's password to a value of their choice.
\<close>

theorem forgot_link_host_forged:
  assumes run: "forgot db em t0 tok host = Inr (db', m)"
    and ids: "distinct (map user_id (users db))"
    and fresh: "\<forall>v\<in>set (users db). reset_token v \<noteq> Some tok" and soon: "now < t0 + 3600000"
  shows "\<exists>u db''. find (\<lambda>u. email u = em) (users db) = Some u \<and> mail_to m = email u \<and>
           mail_url m = ''http://'' @ host @ ''/account/reset/'' @ tok \<and>
           update_password db' tok now pw = Inr db'' \<and>
           (\<exists>v\<in>set (users db''). user_id v = user_id u \<and> password v = Some pw)"
proof -
  let ?g = "\<lambda>v. v\<lparr>reset_token := Some tok, reset_expires := Some (t0 + 3600000)\<rparr>"
  let ?h = "\<lambda>v. v\<lparr>password := Some pw, reset_token := None, reset_expires := None\<rparr>"
  obtain u where fu: "find (\<lambda>u. email u = em) (users db) = Some u"
    and us: "users db' = update_first (\<lambda>v. user_id v = user_id u) ?g (users db)"
    and mt: "mail_to m = em" and mu: "mail_url m = ''http://'' @ host @ ''/account/reset/'' @ tok"
    using run by (rule forgot_Inr)
  have eu: "email u = em"
    using fu by (auto dest: find_Some_iff [THEN iffD1])
  have "find (\<lambda>v. user_id v = user_id u) (users db) = Some u"
    using ids fu by (simp add: find_Some_mem find_id_unique)
  from find_id_split [OF ids this] obtain ys zs where xs: "users db = ys @ u # zs"
    and upd: "update_first (\<lambda>v. user_id v = user_id u) ?g (users db) = ys @ ?g u # zs"
    and rest: "\<forall>v\<in>set ys \<union> set zs. user_id v \<noteq> user_id u" .
  have other: "\<forall>v\<in>set ys \<union> set zs. reset_token v \<noteq> Some tok"
    using fresh xs by auto
  have tu: "token_user db' tok now = Some (?g u)"
    unfolding token_user_def us upd using other soon by (subst find_single_candidate) auto
  let ?db'' = "db'\<lparr>users := ys @ ?h (?g u) # zs\<rparr>"
  have "update_password db' tok now pw = Inr ?db''"
    using tu rest unfolding update_password_def us upd by (simp add: update_first_append_hit)
  moreover have "\<exists>v\<in>set (users ?db''). user_id v = user_id u \<and> password v = Some pw"
    by simp
  ultimately show ?thesis
    using fu mt mu eu by (intro exI [of _ u] exI [of _ ?db'']) auto
qed

theorem forgot_link_host_forged_witness:
  "case forgot \<lparr>users = [sample_user 1 []], next_uid = 2\<rparr> ''a@b'' 0 ''abc'' ''evil.example'' of
     Inr (db', m) \<Rightarrow>
       mail_to m = ''a@b'' \<and> mail_url m = ''http://evil.example/account/reset/abc'' \<and>
       (case update_password db' ''abc'' 10 ''pwned'' of
          Inr db'' \<Rightarrow> (\<exists>v\<in>set (users db''). user_id v = 1 \<and> password v = Some ''pwned'')
        | Inl _ \<Rightarrow> False)
   | Inl _ \<Rightarrow> False"
proof -
  let ?db = "\<lparr>users = [sample_user 1 []], next_uid = 2\<rparr>"
  have ex: "forgot ?db ''a@b'' 0 ''abc'' ''evil.example'' = Inr (projr (forgot ?db ''a@b'' 0 ''abc'' ''evil.example''))"
    by code_simp
  obtain db' m where run: "forgot ?db ''a@b'' 0 ''abc'' ''evil.example'' = Inr (db', m)"
    using ex by (metis prod.collapse)
  have ids: "distinct (map user_id (users ?db))" and fresh: "\<forall>v\<in>set (users ?db). reset_token v \<noteq> Some ''abc''"
    and f: "find (\<lambda>u. email u = ''a@b'') (users ?db) = Some (sample_user 1 [])"
    and e: "email (sample_user 1 []) = ''a@b''" and i: "user_id (sample_user 1 []) = 1"
    by code_simp+
  obtain u db'' where "find (\<lambda>u. email u = ''a@b'') (users ?db) = Some u" and "mail_to m = email u"
    and "mail_url m = ''http://evil.example/account/reset/abc''"
    and "update_password db' ''abc'' 10 ''pwned'' = Inr db''"
    and "\<exists>v\<in>set (users db''). user_id v = user_id u \<and> password v = Some ''pwned''"
    using forgot_link_host_forged [OF run ids fresh, of 10 "''pwned''"] by auto
  with f e i show ?thesis
    unfolding run by auto
qed

end
