(* ===== verification/Client.thy ===== *)
theory Client
  imports Queries Users
begin

text \<open>
  The browser modules that talk to the server (\<open>src/public/javascripts/modules\<close>).
  \<open>heart.js\<close> posts a heart and updates the page from the response; \<open>map.js\<close> asks
  the proximity query for the stores near a point and draws a marker with a popup for
  each. A page is a record of what the module reads and writes; a request is the
  server handler of the other theories, so each event of the page is one step of both.
  \<open>autocomplete.js\<close> only copies a Google Places result into two form fields and is
  not modelled.
\<close>

subsection \<open>heart.js\<close>

text \<open>The heart button's classes and the count in the navigation bar.\<close>

record heart_view =
  hearted :: bool
  heart_count :: nat
  floating :: bool

text \<open>
  What \<open>res.data\<close> is: the user \<open>heartStore\<close> responds with, or another body (the
  \<open>null\<close> of a missing user, or the login page a logged-out request is redirected to).
\<close>

datatype heart_response = UserJson user | OtherBody

text \<open>
  The \<open>then\<close> callback of \<open>ajaxHeart\<close> (\<open>heart.js\<close> lines 7--16): toggle the class, then read
  \<open>res.data.hearts.length\<close>. On another body that read throws after the toggle; the
  \<open>catch\<close> only logs.
\<close>

definition ajax_heart :: "heart_view \<Rightarrow> heart_response \<Rightarrow> heart_view" where
  "ajax_heart v r =
     (let h = \<not> hearted v in
      case r of
        OtherBody \<Rightarrow> v\<lparr>hearted := h\<rparr>
      | UserJson u \<Rightarrow> v\<lparr>hearted := h, heart_count := length (hearts u), floating := (h \<or> floating v)\<rparr>)"

text \<open>The timer of lines 12--14.\<close>

definition float_timeout :: "heart_view \<Rightarrow> heart_view" where
  "float_timeout v = v\<lparr>floating := False\<rparr>"

text \<open>A click (lines 3--18): the post runs \<open>heartStore\<close>, the page handles the response.\<close>

definition heart_click :: "user_db \<Rightarrow> object_id \<Rightarrow> object_id \<Rightarrow> heart_view \<Rightarrow> user_db \<times> heart_view" where
  "heart_click db uid sid v =
     (case heart_store db uid sid of
        Inl _ \<Rightarrow> (db, ajax_heart v OtherBody)
      | Inr (db', u') \<Rightarrow> (db', ajax_heart v (UserJson u')))"

subsection \<open>map.js\<close>

text \<open>The map's default centre (\<open>map.js\<close> lines 5--9), as latitude and longitude.\<close>

definition map_default :: "real \<times> real" where
  "map_default = (43.2, -79.8)"

record marker =
  mk_position :: "(real \<times> real) option"
  mk_place :: map_store

text \<open>
  Lines 23--34: \<^verbatim>\<open>const [placeLng, placeLat] = place.location.coordinates\<close> and the
  position \<^verbatim>\<open>{ lat: placeLat, lng: placeLng }\<close>; without two numbers there is no
  position.
\<close>

definition make_marker :: "map_store \<Rightarrow> marker" where
  "make_marker p =
     \<lparr>mk_position = (case coordinates (ms_location p) of
                       Some lng # Some lat # _ \<Rightarrow> Some (lat, lng)
                     | _ \<Rightarrow> None),
      mk_place = p\<rparr>"

datatype map_view = NoPlacesAlert | Markers "marker list" | RequestFailed

text \<open>
  \<open>loadPlaces\<close> (lines 9--56): \<^verbatim>\<open>/api/stores/near?lat=...&lng=...\<close> is
  \<open>mapStores\<close>, which builds the point \<open>[lng, lat]\<close>; an empty answer is an alert, a
  failed request is never handled.
\<close>

definition load_places ::
  "(real \<times> real \<Rightarrow> real \<times> real \<Rightarrow> real) \<Rightarrow> catalog \<Rightarrow> real \<Rightarrow> real \<Rightarrow> map_view" where
  "load_places distance c lat lng =
     (case map_stores distance c (Some lng) (Some lat) of
        Inl _ \<Rightarrow> RequestFailed
      | Inr [] \<Rightarrow> NoPlacesAlert
      | Inr ps \<Rightarrow> Markers (map make_marker ps))"

text \<open>The popup of a marker (lines 38--47): its link and its image.\<close>

definition popup_link :: "marker \<Rightarrow> string" where
  "popup_link m = ''/store/'' @ slug_text (ms_slug (mk_place m))"

definition popup_photo :: "marker \<Rightarrow> string" where
  "popup_photo m =
     ''/uploads/'' @ (case ms_photo (mk_place m) of
                       None \<Rightarrow> ''store.png''
                     | Some ph \<Rightarrow> if ph = [] then ''store.png'' else ph)"

text \<open>
  \<open>makeMap\<close> (lines 58--73): the map first loads the places around the default centre,
  then around every place chosen in its \<^verbatim>\<open>geolocate\<close> field.
\<close>

definition make_map ::
  "(real \<times> real \<Rightarrow> real \<times> real \<Rightarrow> real) \<Rightarrow> catalog \<Rightarrow> map_view" where
  "make_map distance c = load_places distance c (fst map_default) (snd map_default)"

definition map_place_changed ::
  "(real \<times> real \<Rightarrow> real \<times> real \<Rightarrow> real) \<Rightarrow> catalog \<Rightarrow> real \<times> real \<Rightarrow> map_view" where
  "map_place_changed distance c place = load_places distance c (fst place) (snd place)"

subsection \<open>autocomplete.js\<close>

text \<open>
  The \<open>place_changed\<close> listener (\<open>autocomplete.js\<close> lines 5--9) writes the chosen
  place's latitude and longitude, a pair \<open>(lat, lng)\<close>, into the form's \<open>lat\<close> and
  \<open>lng\<close> fields; the store form (a view, not under \<open>src/\<close>) posts them as
  \<^verbatim>\<open>location[coordinates][1]\<close> and \<^verbatim>\<open>location[coordinates][0]\<close>, the GeoJSON order
  \<open>[lng, lat]\<close>. The Enter key is kept from submitting the form (lines 12--14).
\<close>

definition place_input :: "store_input \<Rightarrow> real \<times> real \<Rightarrow> store_input" where
  "place_input b place = b\<lparr>in_coordinates := [Some (snd place), Some (fst place)]\<rparr>"

text \<open>The \<open>keydown\<close> listener (lines 12--14): \<open>preventDefault\<close> on key code 13, Enter.\<close>

definition address_keydown :: "nat \<Rightarrow> bool" where
  "address_keydown k \<longleftrightarrow> k = 13"

text \<open>
  \<open>autocomplete(input, latInput, lngInput)\<close> (lines 1--15) over the events of the
  address field. With no field (\<open>if (!input) return\<close>) no listener is attached and
  the field sends no events. A chosen place goes through \<open>place_input\<close>; an Enter
  keypress whose default is not prevented submits the form as it stands (the browser's
  default for a text field), and any other key leaves it. The result is the form and the
  contents submitted, if any.
\<close>

datatype address_event = KeyDown nat | PlaceChanged "real \<times> real"

fun address_events :: "store_input \<Rightarrow> address_event list \<Rightarrow> store_input \<times> store_input option" where
  "address_events b [] = (b, None)"
| "address_events b (KeyDown k # es) =
     (if k = 13 \<and> \<not> address_keydown k then (b, Some b) else address_events b es)"
| "address_events b (PlaceChanged p # es) = address_events (place_input b p) es"

definition autocomplete ::
  "bool \<Rightarrow> store_input \<Rightarrow> address_event list \<Rightarrow> store_input \<times> store_input option" where
  "autocomplete input b es = (if \<not> input then (b, None) else address_events b es)"

subsection \<open>Following the list page's redirect\<close>

text \<open>
  A browser follows the redirect of \<open>getStores\<close> (\<open>storeController.js\<close> line 91) to
  \<^verbatim>\<open>/stores/page/<pages>\<close>, which runs \<open>getStores\<close> again. Nothing in the code bounds
  the number of hops, so the walk is a partial function: \<open>None\<close> would be a redirect loop.
\<close>

datatype browse_result = Page "store list" int nat nat | Failed query_error

partial_function (option) browse :: "catalog \<Rightarrow> int option \<Rightarrow> browse_result option" where
  "browse c p =
     (case get_stores c p of
        Inl e \<Rightarrow> Some (Failed e)
      | Inr (Render ss pg n cnt) \<Rightarrow> Some (Page ss pg n cnt)
      | Inr (Redirect k) \<Rightarrow> browse c (Some k))"

subsection \<open>Lemmas\<close>

text \<open>Typing in the address field never submits the form; it holds the last place chosen.\<close>

lemma autocomplete_never_submits:
  "autocomplete True b es =
     (fold (\<lambda>e b. case e of PlaceChanged p \<Rightarrow> place_input b p | KeyDown _ \<Rightarrow> b) es b, None)"
  unfolding autocomplete_def
  by (induction b es rule: address_events.induct) (simp_all add: address_keydown_def)

lemma browse_no_redirect:
  "(\<forall>r. get_stores c p \<noteq> Inr (Redirect r)) \<Longrightarrow> \<exists>x. browse c p = Some x"
  by (subst browse.simps) (auto split: sum.splits page_result.splits)

text \<open>A store near the queried point is a marker when the catalog holds at most ten stores.\<close>

lemma near_query_small:
  assumes "length (stores c) \<le> 10" and "near_entry distance q s = Some (s, d)" and "s \<in> set (stores c)"
  shows "(s, d) \<in> set (near_query distance c q)"
proof -
  have "length (List.map_filter (near_entry distance q) (stores c)) \<le> 10"
    using assms(1) length_map_filter_le [of "near_entry distance q" "stores c"] by linarith
  moreover have "(s, d) \<in> set (List.map_filter (near_entry distance q) (stores c))"
    using assms(2,3) by (auto simp: in_set_map_filter)
  ultimately show ?thesis
    by (simp add: near_query_def)
qed

lemma heart_store_Some:
  "find_user db uid = Some u \<Longrightarrow> \<exists>db' u'. heart_store db uid sid = Inr (db', u')"
  by (simp add: heart_store_def Let_def)

lemma set_near_query:
  "(s, d) \<in> set (near_query distance c q) \<Longrightarrow>
   s \<in> set (stores c) \<and> (\<exists>pt. store_point s = Some pt \<and> d = distance q pt) \<and> d \<le> 10000"
  unfolding near_query_def by (auto dest: in_set_takeD simp: set_near_candidates)

lemma make_marker_point:
  "store_point s = Some (lng, lat) \<Longrightarrow> mk_position (make_marker (project_map s)) = Some (lat, lng)"
  by (auto simp: store_point_def make_marker_def project_map_def
           split: list.splits option.splits)

text \<open>Every marker stands on the point of a store of the catalog within 10 km of the centre.\<close>

lemma load_places_marker:
  assumes "load_places distance c lat lng = Markers ms" and "m \<in> set ms"
  shows "\<exists>s\<in>set (stores c). \<exists>la lo. mk_place m = project_map s \<and> store_point s = Some (lo, la) \<and>
           mk_position m = Some (la, lo) \<and> distance (lng, lat) (lo, la) \<le> 10000"
proof -
  from assms(1) have ms: "ms = map (make_marker \<circ> project_map \<circ> fst) (near_query distance c (lng, lat))"
    by (auto simp: load_places_def map_stores_def split: list.splits)
  with assms(2) obtain s d where sd: "(s, d) \<in> set (near_query distance c (lng, lat))"
    and m: "m = make_marker (project_map s)"
    by auto
  from set_near_query [OF sd] obtain lo la where "s \<in> set (stores c)"
    and pt: "store_point s = Some (lo, la)" and "distance (lng, lat) (lo, la) \<le> 10000"
    by auto
  moreover have "mk_position m = Some (la, lo)"
    unfolding m using pt by (rule make_marker_point)
  moreover have "mk_place m = project_map s"
    by (simp add: m make_marker_def)
  ultimately show ?thesis by blast
qed

subsection \<open>Properties of the pages\<close>

text \<open>
  C18. A store created from a place chosen in the address autocomplete shows up on the
  map at that place: after \<open>createStore\<close> succeeds with the coordinates the
  autocomplete wrote, choosing the same place on the map draws a marker for the new
  store at the place's latitude and longitude, unless the limit of ten markers is
  already taken by stores standing at that very place (distance 0). The distance of the
  point to itself is taken to be 0.
\<close>

theorem autocomplete_store_on_map:
  assumes cr: "create_store c uid t (place_input b (lat, lng)) = Inr (c', p)"
    and d0: "distance (lng, lat) (lng, lat) = 0"
  shows "\<exists>ms. map_place_changed distance c' (lat, lng) = Markers ms \<and>
           ((\<exists>m\<in>set ms. mk_place m = project_map (last (stores c')) \<and> mk_position m = Some (lat, lng)) \<or>
            (length ms = 10 \<and> (\<forall>(s, d)\<in>set (near_query distance c' (lng, lat)). d \<le> 0)))"
proof -
  from cr obtain s' where st: "stores c' = stores c @ [s']"
    and co: "coordinates (location s') = [Some lng, Some lat]"
    by (elim create_store_Inr) (simp add: place_input_def)
  have pt: "store_point s' = Some (lng, lat)"
    using co by (simp add: store_point_def)
  then have ne: "near_entry distance (lng, lat) s' = Some (s', 0)"
    using d0 by (simp add: near_entry_def)
  let ?l = "sort_key snd (List.map_filter (near_entry distance (lng, lat)) (stores c'))"
  have nq: "near_query distance c' (lng, lat) = take 10 ?l"
    by (simp add: near_query_def)
  have inl: "(s', 0) \<in> set ?l"
    using ne st by (auto simp: in_set_map_filter)
  let ?ms = "map (make_marker \<circ> project_map \<circ> fst) (near_query distance c' (lng, lat))"
  have "near_query distance c' (lng, lat) \<noteq> []"
    using inl unfolding nq by (cases ?l) simp_all
  then have mp: "map_place_changed distance c' (lat, lng) = Markers ?ms"
    by (cases "near_query distance c' (lng, lat)")
      (auto simp: map_place_changed_def load_places_def map_stores_def)
  show ?thesis
  proof (cases "(s', 0) \<in> set (near_query distance c' (lng, lat))")
    case True
    then have "make_marker (project_map s') \<in> set ?ms"
      by force
    moreover have "mk_position (make_marker (project_map s')) = Some (lat, lng)"
      using pt by (rule make_marker_point)
    moreover have "mk_place (make_marker (project_map s')) = project_map (last (stores c'))"
      by (simp add: st make_marker_def)
    ultimately show ?thesis
      using mp by blast
  next
    case False
    have "sorted_wrt (\<lambda>x y. snd x \<le> snd y) ?l"
      using sorted_sort_key [of snd] by (simp add: sorted_map)
    from top_k_excluded [OF this inl False [unfolded nq]]
    have "length (take 10 ?l) = 10 \<and> (\<forall>x\<in>set (take 10 ?l). snd x \<le> 0)"
      by simp
    then show ?thesis
      using mp unfolding nq by auto
  qed
qed

theorem autocomplete_store_on_map_witness:
  "case create_store empty_catalog 7 0 (place_input (form_input ''Joe'') (43, -79)) of
     Inr (c', p) \<Rightarrow>
       (case map_place_changed (\<lambda>_ _. 0) c' (43, -79) of
          Markers ms \<Rightarrow> \<exists>m\<in>set ms. mk_position m = Some (43, -79) \<and> mk_place m = project_map (last (stores c'))
        | _ \<Rightarrow> False)
   | Inl _ \<Rightarrow> False"
proof -
  have ex: "create_store empty_catalog 7 0 (place_input (form_input ''Joe'') (43, -79)) =
      Inr (projr (create_store empty_catalog 7 0 (place_input (form_input ''Joe'') (43, -79))))"
    by code_simp
  obtain c' p where cr: "create_store empty_catalog 7 0 (place_input (form_input ''Joe'') (43, -79)) = Inr (c', p)"
    using ex by (metis prod.collapse)
  have d0: "(\<lambda>_ _. 0::real) (-79, 43) (-79, 43) = 0"
    by simp
  obtain ms where mp: "map_place_changed (\<lambda>_ _. 0) c' (43, -79) = Markers ms"
    and alt: "(\<exists>m\<in>set ms. mk_place m = project_map (last (stores c')) \<and> mk_position m = Some (43, -79)) \<or>
      (length ms = 10 \<and> (\<forall>(s, d)\<in>set (near_query (\<lambda>_ _. 0) c' (-79, 43)). d \<le> 0))"
    using autocomplete_store_on_map [OF cr d0] by blast
  have c': "c' = fst (projr (create_store empty_catalog 7 0 (place_input (form_input ''Joe'') (43, -79))))"
    using cr by simp
  have "(case map_place_changed (\<lambda>_ _. 0) (fst (projr (create_store empty_catalog 7 0
            (place_input (form_input ''Joe'') (43, -79))))) (43, -79) of Markers ms \<Rightarrow> length ms | _ \<Rightarrow> 0) = 1"
    by code_simp
  then have "length ms = 1"
    using mp unfolding c' by simp
  with alt mp show ?thesis
    unfolding cr by (auto split: map_view.split)
qed

text \<open>
  C37. Following the list page's redirects always ends: any page request reaches a
  rendered page or a query error after at most one redirect, because the redirect
  target, the last page, never redirects again.
\<close>

theorem browse_terminates: "\<exists>r. browse c p = Some r"
proof (cases "\<exists>k. get_stores c p = Inr (Redirect k)")
  case True
  then obtain k where red: "get_stores c p = Inr (Redirect k)" by blast
  then have "k = int (page_count (length (stores c)))"
    by (rule get_stores_Redirect)
  then have "\<exists>x. browse c (Some k) = Some x"
    using get_stores_last_page by (blast intro: browse_no_redirect)
  then show ?thesis
    by (subst browse.simps) (simp add: red)
next
  case False
  then show ?thesis by (blast intro: browse_no_redirect)
qed

text \<open>
  C33. After a click on the heart of a store, the count shows the length of the user's
  stored hearts, and the button shows the store as hearted exactly when the server has
  it among the hearts if and only if it did so before the click: a page that agreed
  with the server keeps agreeing, and a stale page (hearted in another tab) stays
  wrong, because the page toggles its class instead of reading the response.
\<close>

theorem heart_click_agreement:
  assumes u: "find_user db uid = Some u" and run: "heart_click db uid sid v = (db', v')"
  shows "\<exists>u'. find_user db' uid = Some u' \<and> heart_count v' = length (hearts u') \<and>
           ((hearted v' \<longleftrightarrow> sid \<in> set (hearts u')) \<longleftrightarrow> (hearted v \<longleftrightarrow> sid \<in> set (hearts u)))"
proof -
  obtain db1 u' where hs: "heart_store db uid sid = Inr (db1, u')"
    using heart_store_Some [OF u] by blast
  with run have db': "db' = db1" and v': "v' = ajax_heart v (UserJson u')"
    by (simp_all add: heart_click_def)
  have "find_user db' uid = Some u'"
    using hs unfolding db' by (rule heart_store_find)
  moreover have "sid \<in> set (hearts u') \<longleftrightarrow> sid \<notin> set (hearts u)"
    using heart_store_set [OF hs u] by auto
  ultimately show ?thesis
    by (auto simp: v' ajax_heart_def Let_def)
qed

theorem heart_click_agreement_witness:
  "case heart_click \<lparr>users = [sample_user 1 [5]], next_uid = 2\<rparr> 1 5
          \<lparr>hearted = False, heart_count = 1, floating = False\<rparr> of
     (db', v') \<Rightarrow> hearted v' \<and>
       (\<exists>u'. find_user db' 1 = Some u' \<and> 5 \<notin> set (hearts u') \<and> heart_count v' = length (hearts u'))"
proof -
  let ?db = "\<lparr>users = [sample_user 1 [5]], next_uid = 2\<rparr>"
  let ?v = "\<lparr>hearted = False, heart_count = 1, floating = False\<rparr>"
  obtain db' v' where run: "heart_click ?db 1 5 ?v = (db', v')"
    by (metis prod.collapse)
  have u: "find_user ?db 1 = Some (sample_user 1 [5])"
    by code_simp
  have "hearted (snd (heart_click ?db 1 5 ?v))"
    and "find_user (fst (heart_click ?db 1 5 ?v)) 1 = Some (sample_user 1 [])"
    by code_simp+
  then have hv: "hearted v'" and fu: "find_user db' 1 = Some (sample_user 1 [])"
    unfolding run by simp_all
  obtain u' where "find_user db' 1 = Some u'" and "heart_count v' = length (hearts u')"
    using heart_click_agreement [OF u run] by blast
  with fu have "heart_count v' = length (hearts (sample_user 1 []))"
    by simp
  with hv fu show ?thesis
    unfolding run by (simp add: sample_user_def)
qed

text \<open>
  C34. When the map draws markers, there are at most ten, and each stands on the point
  of a store of the catalog, latitude and longitude in the right order, within 10 km of
  the centre the page asked about.
\<close>

theorem load_places_markers:
  assumes "load_places distance c lat lng = Markers ms"
  shows "ms \<noteq> [] \<and> length ms \<le> 10 \<and>
    (\<forall>m\<in>set ms. \<exists>s\<in>set (stores c). \<exists>la lo. mk_place m = project_map s \<and>
       store_point s = Some (lo, la) \<and> mk_position m = Some (la, lo) \<and> distance (lng, lat) (lo, la) \<le> 10000)"
proof (intro conjI ballI)
  from assms have ms: "ms = map (make_marker \<circ> project_map \<circ> fst) (near_query distance c (lng, lat))"
    and ne: "near_query distance c (lng, lat) \<noteq> []"
    by (auto simp: load_places_def map_stores_def split: list.splits)
  from ne show "ms \<noteq> []" by (simp add: ms)
  show "length ms \<le> 10" by (simp add: ms near_query_def)
  fix m assume "m \<in> set ms"
  with assms show "\<exists>s\<in>set (stores c). \<exists>la lo. mk_place m = project_map s \<and>
       store_point s = Some (lo, la) \<and> mk_position m = Some (la, lo) \<and> distance (lng, lat) (lo, la) \<le> 10000"
    by (rule load_places_marker)
qed

theorem load_places_markers_witness:
  "case load_places (\<lambda>p q. \<bar>fst p - fst q\<bar> + \<bar>snd p - snd q\<bar>)
          (fst (projr (create_store empty_catalog 7 0 (form_input ''Joe'')))) 43 (-79) of
     Markers ms \<Rightarrow> length ms = 1 \<and> mk_position (hd ms) = Some (43, -79)
   | _ \<Rightarrow> False"
proof -
  define c where "c = fst (projr (create_store empty_catalog 7 0 (form_input ''Joe'')))"
  define dist where "dist = (\<lambda>p q. \<bar>fst p - fst q\<bar> + \<bar>snd p - snd q\<bar> :: real)"
  have ex: "load_places dist c 43 (-79) = Markers [make_marker (project_map (hd (stores c)))]"
    and st: "stores c = [hd (stores c)]" and pt: "store_point (hd (stores c)) = Some (-79, 43)"
    unfolding c_def dist_def by code_simp+
  let ?m = "make_marker (project_map (hd (stores c)))"
  obtain s la lo where "s \<in> set (stores c)" and "store_point s = Some (lo, la)"
    and pos: "mk_position ?m = Some (la, lo)"
    using load_places_markers [OF ex] by auto
  moreover from \<open>s \<in> set (stores c)\<close> st have "s = hd (stores c)"
    by (metis empty_iff list.set(1) set_ConsD)
  ultimately have "mk_position ?m = Some (43, -79)"
    using pt by simp
  then show ?thesis
    using ex unfolding c_def [symmetric] dist_def [symmetric] by simp
qed

text \<open>
  C35. In a catalog reachable with updates whose body has no \<open>slug\<close> field (as the edit
  form posts them), the popup of every marker links to
  \<^verbatim>\<open>/store/<slug>\<close>, and that page shows the marker's own store: slugs are unique,
  so \<open>getStoreBySlug\<close> finds no other.
\<close>

theorem popup_link_opens_store:
  assumes reach: "reachable_catalog no_slug_field c" and run: "load_places distance c lat lng = Markers ms"
    and m: "m \<in> set ms"
  shows "\<exists>sl s rs. popup_link m = ''/store/'' @ sl \<and> get_store_by_slug c sl = Some (s, rs) \<and>
           project_map s = mk_place m"
proof -
  obtain s where s: "s \<in> set (stores c)" and pm: "mk_place m = project_map s"
    using load_places_marker [OF run m] by blast
  have inv: "catalog_slug_inv c"
    using reach by (simp add: reachable_catalog_invs)
  then obtain ss where "map slug (stores c) = map Some ss"
    by (auto simp: catalog_slug_inv_def)
  with s obtain sl where sl: "slug s = Some sl"
    by (metis (no_types, lifting) ex_map_conv imageI list.set_map option.exhaust option.simps(3) set_map)
  have "find (\<lambda>t. slug t = slug s) (stores c) = Some s"
    using catalog_slug_inv_distinct [OF inv] s by (rule find_distinct_key)
  then have "get_store_by_slug c sl = Some (s, reviews_of (reviews c) (store_id s))"
    using sl by (simp add: get_store_by_slug_def)
  moreover have "popup_link m = ''/store/'' @ sl"
    using sl pm by (simp add: popup_link_def project_map_def slug_text_def)
  ultimately show ?thesis
    using pm by auto
qed

theorem popup_link_opens_store_witness:
  "let c = fst (projr (create_store empty_catalog 7 0 (form_input ''Joe''))) in
   case load_places (\<lambda>_ _. 0) c 43 (-79) of
     Markers ms \<Rightarrow> popup_link (hd ms) = ''/store/joe'' \<and>
       (\<exists>s rs. get_store_by_slug c ''joe'' = Some (s, rs) \<and> project_map s = mk_place (hd ms))
   | _ \<Rightarrow> False"
proof -
  define c where "c = fst (projr (create_store empty_catalog 7 0 (form_input ''Joe'')))"
  have ex: "create_store empty_catalog 7 0 (form_input ''Joe'') =
              Inr (projr (create_store empty_catalog 7 0 (form_input ''Joe'')))"
    by code_simp
  obtain c0 p where cr: "create_store empty_catalog 7 0 (form_input ''Joe'') = Inr (c0, p)"
    using ex by (metis prod.collapse)
  have plain: "plain_base (base_slug (form_input ''Joe''))"
    by code_simp
  have "reachable_catalog no_slug_field c0"
    by (rule reachable_catalog.step [OF reachable_catalog.init catalog_step.create [OF cr plain]])
  moreover have "c0 = c"
    unfolding c_def cr by simp
  ultimately have reach: "reachable_catalog no_slug_field c" by simp
  let ?m = "make_marker (project_map (hd (stores c)))"
  have run: "load_places (\<lambda>_ _. 0) c 43 (-79) = Markers [?m]"
    and link: "popup_link ?m = ''/store/joe''"
    unfolding c_def by code_simp+
  have "?m \<in> set [?m]" by simp
  from popup_link_opens_store [OF reach run this] link
  have "\<exists>s rs. get_store_by_slug c ''joe'' = Some (s, rs) \<and> project_map s = mk_place ?m"
    by auto
  with link show ?thesis
    unfolding c_def [symmetric] Let_def run by simp
qed

end
