(* ===== verification/Upload.thy ===== *)
theory Upload
  imports StoreModel
begin

text \<open>
  The photo upload in front of \<open>createStore\<close> and \<open>updateStore\<close>
  (\<open>src/controllers/storeController.js\<close> lines 14--58): \<open>multer\<close> keeps the file in
  memory after its \<open>fileFilter\<close> accepted the MIME type, and \<open>resize\<close> names the photo
  from a fresh uuid (a parameter) and the MIME subtype, records the name in the request
  body and writes the resized image under \<^verbatim>\<open>./public/uploads/\<close>. Decoding and
  resizing the image (\<open>jimp\<close>) are not modelled; the write is its path.
\<close>

text \<open>\<^verbatim>\<open>String.prototype.split\<close> on one character.\<close>

fun js_split :: "char \<Rightarrow> string \<Rightarrow> string list" where
  "js_split d [] = [[]]"
| "js_split d (c # cs) = (if c = d then [] # js_split d cs else (let r = js_split d cs in (c # hd r) # tl r))"

text \<open>\<open>fileFilter\<close> (lines 17--24): only a MIME type starting with \<^verbatim>\<open>image/\<close> passes.\<close>

definition is_photo :: "string \<Rightarrow> bool" where
  "is_photo mt \<longleftrightarrow> take 6 mt = ''image/''"

definition file_filter :: "string \<Rightarrow> string + bool" where
  "file_filter mt = (if is_photo mt then Inr True else Inl ''That filetype isn't allowed'')"

text \<open>
  \<open>resize\<close> (lines 39--58): without a file the request goes on unchanged; with one,
  the photo is named \<^verbatim>\<open>${uuid}.${mimetype.split("/")[1]}\<close> and written under
  \<^verbatim>\<open>./public/uploads/\<close>.
\<close>

definition photo_name :: "string \<Rightarrow> string \<Rightarrow> string" where
  "photo_name uuid mt = uuid @ ''.'' @ js_split CHR ''/'' mt ! 1"

definition resize :: "string option \<Rightarrow> string \<Rightarrow> store_input \<Rightarrow> store_input \<times> string option" where
  "resize file uuid b =
     (case file of
        None \<Rightarrow> (b, None)
      | Some mt \<Rightarrow> (b\<lparr>in_photo := Some (photo_name uuid mt)\<rparr>, Some (''./public/uploads/'' @ photo_name uuid mt)))"

text \<open>\<open>upload\<close> then \<open>resize\<close> (lines 36--58), as the route chains them.\<close>

definition upload :: "string option \<Rightarrow> string \<Rightarrow> store_input \<Rightarrow> string + store_input \<times> string option" where
  "upload file uuid b =
     (case file of
        None \<Rightarrow> Inr (resize None uuid b)
      | Some mt \<Rightarrow> (case file_filter mt of Inl e \<Rightarrow> Inl e | Inr _ \<Rightarrow> Inr (resize file uuid b)))"

lemma js_split_append:
  "d \<notin> set w \<Longrightarrow> js_split d (w @ d # r) = w # js_split d r"
  by (induction w) (auto simp: Let_def)

lemma hd_js_split: "hd (js_split d r) = takeWhile (\<lambda>c. c \<noteq> d) r"
  by (induction r) (auto simp: Let_def)

lemma photo_name_image:
  "photo_name uuid (''image/'' @ r) = uuid @ ''.'' @ takeWhile (\<lambda>c. c \<noteq> CHR ''/'') r"
proof -
  have "js_split CHR ''/'' (''image/'' @ r) = ''image'' # js_split CHR ''/'' r"
    using js_split_append [of "CHR ''/''" "''image''" r] by simp
  moreover have "js_split CHR ''/'' r \<noteq> []"
    by (cases r) (auto simp: Let_def)
  ultimately show ?thesis
    by (simp add: photo_name_def hd_js_split hd_conv_nth [symmetric])
qed

lemma upload_Some:
  assumes "upload (Some mt) uuid b = Inr (b', path)"
  shows "\<exists>r. mt = ''image/'' @ r \<and> b' = b\<lparr>in_photo := Some (photo_name uuid mt)\<rparr> \<and>
           path = Some (''./public/uploads/'' @ photo_name uuid mt)"
proof -
  from assms have "is_photo mt"
    by (auto simp: upload_def file_filter_def split: if_splits)
  then have "mt = ''image/'' @ drop 6 mt"
    unfolding is_photo_def by (metis append_take_drop_id)
  with assms show ?thesis
    by (auto simp: upload_def file_filter_def resize_def split: if_splits)
qed

end
