(* ===== verification/Session.thy ===== *)
theory Session
  imports Users
begin

text \<open>
  The login session (\<open>src/handlers/passport.js\<close>, \<open>login\<close>, \<open>logout\<close> and
  \<open>isLoggedIn\<close> of \<open>src/controllers/authController.js\<close>, \<open>loginForm\<close> and
  \<open>registerForm\<close> of \<open>src/controllers/userController.js\<close>). Passport keeps in the
  session what \<open>serializeUser\<close> returns, and rebuilds \<open>req.user\<close> from it on every
  request with \<open>deserializeUser\<close>. The plugin \<open>passport-local-mongoose\<close> (configured
  with \<open>usernameField: "email"\<close> in \<open>User.js\<close>) serialises a user by its username,
  the e-mail address, and deserialises by looking that address up again. The session
  is a record of that one value; password hashing is not modelled (a password matches
  when it equals the stored one).
\<close>

record session =
  sess_user :: "string option"

text \<open>\<open>User.serializeUser()\<close> (line 7 of \<open>passport.js\<close>): the username field.\<close>

definition serialize_user :: "user \<Rightarrow> string" where
  "serialize_user u = email u"

text \<open>\<open>User.deserializeUser()\<close> (line 8): \<open>findByUsername\<close>; no user means no \<open>req.user\<close>.\<close>

definition deserialize_user :: "user_db \<Rightarrow> session \<Rightarrow> user option" where
  "deserialize_user db s = (case sess_user s of None \<Rightarrow> None | Some e \<Rightarrow> find (\<lambda>u. email u = e) (users db))"

text \<open>
  What \<open>passport.session()\<close> does at the start of every request with the registered
  \<open>deserializeUser\<close> (lines 7--8): when the session names a user, it is looked up; if
  the lookup finds none, passport deletes the user from the session, which is then
  logged out.
\<close>

definition restore_session :: "user_db \<Rightarrow> session \<Rightarrow> user option \<times> session" where
  "restore_session db s =
     (case sess_user s of
        None \<Rightarrow> (None, s)
      | Some e \<Rightarrow> (case deserialize_user db s of
                    None \<Rightarrow> (None, s\<lparr>sess_user := None\<rparr>)
                  | Some u \<Rightarrow> (Some u, s)))"

text \<open>
  \<open>User.createStrategy()\<close> (line 5): the local strategy finds the user by the posted
  e-mail and checks the password.
\<close>

definition authenticate :: "user_db \<Rightarrow> string \<Rightarrow> string \<Rightarrow> user option" where
  "authenticate db em pw =
     (case find (\<lambda>u. email u = em) (users db) of
        None \<Rightarrow> None
      | Some u \<Rightarrow> if password u = Some pw then Some u else None)"

text \<open>
  \<open>login\<close> (\<open>authController.js\<close> lines 15--20): on success the session holds the
  serialised user and the response redirects to \<^verbatim>\<open>/\<close>; on failure to \<^verbatim>\<open>/login\<close>.
\<close>

definition login :: "user_db \<Rightarrow> session \<Rightarrow> string \<Rightarrow> string \<Rightarrow> session \<times> string" where
  "login db s em pw =
     (case authenticate db em pw of
        None \<Rightarrow> (s, ''/login'')
      | Some u \<Rightarrow> (s\<lparr>sess_user := Some (serialize_user u)\<rparr>, ''/''))"

text \<open>\<open>logout\<close> (lines 22--26).\<close>

definition logout :: "session \<Rightarrow> session \<times> string" where
  "logout s = (s\<lparr>sess_user := None\<rparr>, ''/'')"

text \<open>\<open>isLoggedIn\<close> (lines 28--37): go on with \<open>req.user\<close>, or redirect to \<^verbatim>\<open>/login\<close>.\<close>

datatype guard_result = Next user | ToLogin

definition is_logged_in :: "user_db \<Rightarrow> session \<Rightarrow> guard_result" where
  "is_logged_in db s = (case deserialize_user db s of None \<Rightarrow> ToLogin | Some u \<Rightarrow> Next u)"

text \<open>
  \<open>loginForm\<close> and \<open>registerForm\<close> (\<open>userController.js\<close> lines 6--18): a logged-in
  user is redirected back, and with no \<open>return\<close> the form is rendered as well; the
  list holds the responses the handler writes, of which only the first can be sent.
\<close>

datatype response = RedirectBack | Render string

definition login_form :: "user_db \<Rightarrow> session \<Rightarrow> response list" where
  "login_form db s = (case deserialize_user db s of None \<Rightarrow> [] | Some _ \<Rightarrow> [RedirectBack]) @ [Render ''login'']"

definition register_form :: "user_db \<Rightarrow> session \<Rightarrow> response list" where
  "register_form db s = (case deserialize_user db s of None \<Rightarrow> [] | Some _ \<Rightarrow> [RedirectBack]) @ [Render ''register'']"

subsection \<open>Lemmas\<close>

lemma authenticate_Some:
  "authenticate db em pw = Some u \<Longrightarrow> find (\<lambda>v. email v = em) (users db) = Some u \<and> password u = Some pw"
  by (auto simp: authenticate_def split: option.splits if_splits)

subsection \<open>Properties of the session\<close>

text \<open>
  C14. Registering logs the new user in: \<open>register\<close> hands on to \<open>login\<close> with the
  sanitized e-mail (\<open>req.body.email\<close> after \<open>normalizeEmail\<close>) and the password, the login succeeds, and the session then stands
  for the user just registered; a login with any other password is refused and leaves
  the session as it was.
\<close>

theorem register_then_login:
  assumes run: "register ve db nm em pw pc = Inr db'"
    and blank: "trim (sanitize_email em) = sanitize_email em"
  shows "\<exists>u. login db' s (sanitize_email em) pw = (s\<lparr>sess_user := Some (sanitize_email em)\<rparr>, ''/'') \<and>
    deserialize_user db' (s\<lparr>sess_user := Some (sanitize_email em)\<rparr>) = Some u \<and>
    email u = sanitize_email em \<and> user_name u = trim nm \<and> user_id u = next_uid db \<and>
    (\<forall>pw'. pw' \<noteq> pw \<longrightarrow> login db' s (sanitize_email em) pw' = (s, ''/login''))"
proof -
  let ?u = "\<lparr>user_id = next_uid db, email = normalize_email em, user_name = trim nm,
      password = Some pw, reset_token = None, reset_expires = None, hearts = []\<rparr>"
  have e: "normalize_email em = sanitize_email em"
    using blank by (simp add: normalize_email_def email_setters_def lower_sanitize_email)
  from register_Inr [OF run] have fresh: "normalize_email em \<notin> set (map email (users db))"
    and us: "users db' = users db @ [?u]"
    by blast+
  have f: "find (\<lambda>v. email v = sanitize_email em) (users db') = Some ?u"
    unfolding us using fresh e by (simp add: find_append_unique)
  then have "authenticate db' (sanitize_email em) pw = Some ?u"
    and wrong: "\<forall>pw'. pw' \<noteq> pw \<longrightarrow> login db' s (sanitize_email em) pw' = (s, ''/login'')"
    by (simp_all add: authenticate_def login_def)
  then have "login db' s (sanitize_email em) pw = (s\<lparr>sess_user := Some (sanitize_email em)\<rparr>, ''/'')"
    using e by (simp add: login_def serialize_user_def)
  moreover have "deserialize_user db' (s\<lparr>sess_user := Some (sanitize_email em)\<rparr>) = Some ?u"
    using f by (simp add: deserialize_user_def)
  ultimately show ?thesis
    using e wrong by auto
qed

theorem register_then_login_witness:
  "case register sample_valid_email empty_users ''Ann'' ''Ann@X.io'' ''pw'' ''pw'' of
     Inr db' \<Rightarrow> snd (login db' \<lparr>sess_user = None\<rparr> ''ann@x.io'' ''pw'') = ''/'' \<and>
       map_option user_name (deserialize_user db' (fst (login db' \<lparr>sess_user = None\<rparr> ''ann@x.io'' ''pw''))) = Some ''Ann''
   | Inl _ \<Rightarrow> False"
proof -
  have ex: "register sample_valid_email empty_users ''Ann'' ''Ann@X.io'' ''pw'' ''pw'' =
      Inr (projr (register sample_valid_email empty_users ''Ann'' ''Ann@X.io'' ''pw'' ''pw''))"
    by code_simp
  obtain db' where run: "register sample_valid_email empty_users ''Ann'' ''Ann@X.io'' ''pw'' ''pw'' = Inr db'"
    using ex by blast
  have low: "sanitize_email ''Ann@X.io'' = ''ann@x.io''" and blank: "trim (sanitize_email ''Ann@X.io'') = sanitize_email ''Ann@X.io''"
    by code_simp+
  obtain u where "login db' \<lparr>sess_user = None\<rparr> (sanitize_email ''Ann@X.io'') ''pw'' =
      (\<lparr>sess_user = Some (sanitize_email ''Ann@X.io'')\<rparr>, ''/'')"
    and "deserialize_user db' \<lparr>sess_user = Some (sanitize_email ''Ann@X.io'')\<rparr> = Some u"
    and "user_name u = trim ''Ann''"
    using register_then_login [OF run blank, of "\<lparr>sess_user = None\<rparr>"] by auto
  moreover have "trim ''Ann'' = ''Ann''"
    by code_simp
  ultimately show ?thesis
    unfolding run low by simp
qed

text \<open>
  C27. The session holds the e-mail address, not the account. After a logged-in user
  changes the address, the next request of the session finds no user under the old
  address and passport logs the session out; but if another user has registered the old
  address in the meantime, the session resolves to that other user.
\<close>

theorem session_follows_old_email:
  assumes inv: "users_inv db" and logged: "deserialize_user db s = Some u"
    and upd: "update_account ve db (user_id u) nm em = Inr db'" and changed: "email_setters em \<noteq> email u"
  shows "restore_session db' s = (None, s\<lparr>sess_user := None\<rparr>) \<and>
         (\<forall>db'' nm' em' pw pc. register ve db' nm' em' pw pc = Inr db'' \<longrightarrow> normalize_email em' = email u \<longrightarrow>
            (\<exists>v. restore_session db'' s = (Some v, s) \<and> user_id v \<noteq> user_id u \<and> email v = email u))"
proof -
  from logged have se: "sess_user s = Some (email u)" and fu: "find (\<lambda>v. email v = email u) (users db) = Some u"
    by (auto simp: deserialize_user_def split: option.splits dest: find_Some_iff [THEN iffD1])
  have u: "u \<in> set (users db)"
    using find_Some_mem [OF fu] by blast
  have ids: "distinct (map user_id (users db))" and below: "user_id u < next_uid db"
    and ems: "distinct (map email (users db))"
    using inv u by (auto simp: users_inv_def)
  let ?f = "\<lambda>v. v\<lparr>user_name := trim nm, email := email_setters em\<rparr>"
  have us: "users db' = update_first (\<lambda>v. user_id v = user_id u) ?f (users db)"
    and nx: "next_uid db' = next_uid db"
    using update_account_Inr [OF upd] by blast+
  have "find (\<lambda>v. user_id v = user_id u) (users db) = Some u"
    using ids u by (rule find_distinct_key)
  from find_id_split [OF ids this] obtain ys zs where xs: "users db = ys @ u # zs"
    and upd': "update_first (\<lambda>v. user_id v = user_id u) ?f (users db) = ys @ ?f u # zs" .
  have "\<forall>v\<in>set ys \<union> set zs. email v \<noteq> email u"
  proof
    fix v assume "v \<in> set ys \<union> set zs"
    then have "email v \<in> email ` (set ys \<union> set zs)" by blast
    moreover have "email u \<notin> email ` (set ys \<union> set zs)"
      using ems unfolding xs by auto
    ultimately show "email v \<noteq> email u" by auto
  qed
  then have gone: "\<forall>v\<in>set (users db'). email v \<noteq> email u"
    using changed unfolding us upd' by auto
  then have none: "find (\<lambda>v. email v = email u) (users db') = None"
    by (simp add: find_None_iff)
  then have out: "restore_session db' s = (None, s\<lparr>sess_user := None\<rparr>)"
    using se by (simp add: restore_session_def deserialize_user_def)
  have "\<exists>v. restore_session db'' s = (Some v, s) \<and> user_id v \<noteq> user_id u \<and> email v = email u"
    if reg: "register ve db' nm' em' pw pc = Inr db''" and em': "normalize_email em' = email u"
    for db'' nm' em' pw pc
  proof -
    let ?v = "\<lparr>user_id = next_uid db', email = normalize_email em', user_name = trim nm',
               password = Some pw, reset_token = None, reset_expires = None, hearts = []\<rparr>"
    have "users db'' = users db' @ [?v]"
      using register_Inr [OF reg] by blast
    then have "find (\<lambda>v. email v = email u) (users db'') = Some ?v"
      using none em' by (simp add: find_append)
    then have "restore_session db'' s = (Some ?v, s)"
      using se by (simp add: restore_session_def deserialize_user_def)
    with below nx em' show ?thesis by auto
  qed
  with out show ?thesis by blast
qed

theorem session_follows_old_email_witness:
  "case register sample_valid_email empty_users ''Ann'' ''a@x.io'' ''pa'' ''pa'' of
     Inr db1 \<Rightarrow>
       (case login db1 \<lparr>sess_user = None\<rparr> ''a@x.io'' ''pa'' of
          (s, path) \<Rightarrow> path = ''/'' \<and>
            (case update_account sample_valid_email db1 1 ''Ann'' ''b@x.io'' of
               Inr db2 \<Rightarrow> restore_session db2 s = (None, s\<lparr>sess_user := None\<rparr>) \<and>
                 (case register sample_valid_email db2 ''Cy'' ''a@x.io'' ''pc'' ''pc'' of
                    Inr db3 \<Rightarrow> (case restore_session db3 s of
                                  (Some v, s') \<Rightarrow> s' = s \<and> user_id v = 2 \<and> email v = ''a@x.io''
                                | (None, _) \<Rightarrow> False)
                  | Inl _ \<Rightarrow> False)
             | Inl _ \<Rightarrow> False))
   | Inl _ \<Rightarrow> False"
proof -
  define db1 where "db1 = projr (register sample_valid_email empty_users ''Ann'' ''a@x.io'' ''pa'' ''pa'')"
  define s where "s = fst (login db1 \<lparr>sess_user = None\<rparr> ''a@x.io'' ''pa'')"
  define db2 where "db2 = projr (update_account sample_valid_email db1 1 ''Ann'' ''b@x.io'')"
  define db3 where "db3 = projr (register sample_valid_email db2 ''Cy'' ''a@x.io'' ''pc'' ''pc'')"
  have r1: "register sample_valid_email empty_users ''Ann'' ''a@x.io'' ''pa'' ''pa'' = Inr db1"
    and l1: "login db1 \<lparr>sess_user = None\<rparr> ''a@x.io'' ''pa'' = (s, ''/'')"
    and u2: "update_account sample_valid_email db1 1 ''Ann'' ''b@x.io'' = Inr db2"
    and r3: "register sample_valid_email db2 ''Cy'' ''a@x.io'' ''pc'' ''pc'' = Inr db3"
    unfolding db1_def s_def db2_def db3_def by code_simp+
  have inv: "users_inv db1" and ann: "deserialize_user db1 s = Some (hd (users db1))"
    and id1: "user_id (hd (users db1)) = 1" and em1: "email (hd (users db1)) = ''a@x.io''"
    and ch: "email_setters ''b@x.io'' \<noteq> ''a@x.io''" and n3: "normalize_email ''a@x.io'' = ''a@x.io''"
    unfolding db1_def s_def by code_simp+
  have u2': "update_account sample_valid_email db1 (user_id (hd (users db1))) ''Ann'' ''b@x.io'' = Inr db2"
    using u2 id1 by simp
  have ch': "email_setters ''b@x.io'' \<noteq> email (hd (users db1))"
    using ch em1 by simp
  have n3': "normalize_email ''a@x.io'' = email (hd (users db1))"
    using n3 em1 by simp
  note th = session_follows_old_email [OF inv ann u2' ch']
  have out: "restore_session db2 s = (None, s\<lparr>sess_user := None\<rparr>)"
    using th by blast
  obtain v where "restore_session db3 s = (Some v, s)" and "email v = email (hd (users db1))"
    using th [THEN conjunct2, rule_format, OF r3 n3'] by blast
  moreover have "map_option user_id (fst (restore_session db3 s)) = Some 2"
    unfolding db3_def db2_def s_def db1_def by code_simp
  ultimately show ?thesis
    using r1 l1 u2 r3 out em1 by simp
qed

text \<open>
  Registration stores the address sanitized (\<open>normalizeEmail\<close>, then the schema's
  setters), but \<open>login\<close> looks up the address as posted, with no sanitizer. An address
  that normalisation changes, such as a Gmail address with a dot in its local part
  (\<open>remove_dots: false\<close> is not an option of the package, so the dots are removed),
  cannot be used to log in as typed at registration, whatever the password.
\<close>

theorem login_as_typed_fails:
  assumes reg: "register ve db nm em pw pc = Inr db'" and typed: "em \<notin> set (map email (users db))"
    and changed: "normalize_email em \<noteq> em"
  shows "login db' s em pw' = (s, ''/login'')"
proof -
  have us: "users db' = users db @ [\<lparr>user_id = next_uid db, email = normalize_email em, user_name = trim nm,
      password = Some pw, reset_token = None, reset_expires = None, hearts = []\<rparr>]"
    using register_Inr [OF reg] by blast
  have "find (\<lambda>u. email u = em) (users db) = None"
    using typed by (auto simp: find_None_iff)
  then have "find (\<lambda>u. email u = em) (users db') = None"
    using changed unfolding us by (simp add: find_append)
  then show ?thesis
    by (simp add: login_def authenticate_def)
qed

theorem login_as_typed_fails_witness:
  "normalize_email ''a.b@gmail.com'' = ''ab@gmail.com'' \<and>
   (case register sample_valid_email empty_users ''Ann'' ''a.b@gmail.com'' ''pw'' ''pw'' of
      Inr db' \<Rightarrow> login db' \<lparr>sess_user = None\<rparr> ''a.b@gmail.com'' ''pw'' = (\<lparr>sess_user = None\<rparr>, ''/login'')
    | Inl _ \<Rightarrow> False)"
proof -
  have n: "normalize_email ''a.b@gmail.com'' = ''ab@gmail.com''"
    by code_simp
  have ex: "register sample_valid_email empty_users ''Ann'' ''a.b@gmail.com'' ''pw'' ''pw'' =
      Inr (projr (register sample_valid_email empty_users ''Ann'' ''a.b@gmail.com'' ''pw'' ''pw''))"
    by code_simp
  obtain db' where run: "register sample_valid_email empty_users ''Ann'' ''a.b@gmail.com'' ''pw'' ''pw'' = Inr db'"
    using ex by blast
  have "login db' \<lparr>sess_user = None\<rparr> ''a.b@gmail.com'' ''pw'' = (\<lparr>sess_user = None\<rparr>, ''/login'')"
    by (rule login_as_typed_fails [OF run]) (simp_all add: empty_users_def n)
  with n show ?thesis
    unfolding run by simp
qed

end
