(* ===== verification/Populate.thy ===== *)
theory Populate
  imports Users
begin

text \<open>
  Mongoose population, which joins the two collections to the users: the
  \<open>autopopulate\<close> hooks of \<open>src/models/Review.js\<close> (a found review carries its author's
  user document) and \<open>src/models/Store.js\<close> (a found store carries its reviews, whose own
  \<open>find\<close> hook populates their authors), and the store page of \<open>getStoreBySlug\<close>, which
  also populates the store's \<open>author\<close>. A reference whose document does not exist is
  populated as \<open>null\<close> (\<open>None\<close>).
\<close>

type_synonym populated_review = "review \<times> user option"

text \<open>\<open>populate\<close> of a reference to the users collection.\<close>

definition populate_user :: "user_db \<Rightarrow> object_id option \<Rightarrow> user option" where
  "populate_user db a = (case a of None \<Rightarrow> None | Some i \<Rightarrow> find_user db i)"

text \<open>\<open>autopopulate\<close> of \<open>Review.js\<close> (lines 32--39), run before \<open>find\<close> and \<open>findOne\<close>.\<close>

definition review_autopopulate :: "user_db \<Rightarrow> review \<Rightarrow> populated_review" where
  "review_autopopulate db r = (r, populate_user db (r_author r))"

text \<open>
  \<open>autopopulate\<close> of \<open>Store.js\<close> (lines 144--150): the virtual \<open>reviews\<close>, fetched by a
  \<open>find\<close> on the reviews collection, so that each review is populated in turn.
\<close>

definition store_autopopulate :: "user_db \<Rightarrow> catalog \<Rightarrow> store \<Rightarrow> populated_review list" where
  "store_autopopulate db c s = map (review_autopopulate db) (reviews_of (reviews c) (store_id s))"

text \<open>
  The store page of \<open>getStoreBySlug\<close> (\<open>storeController.js\<close> lines 133--139):
  \<^verbatim>\<open>findOne({ slug }).populate("author reviews")\<close>, rendered with the store's name as
  title, or \<open>None\<close> (\<open>next()\<close>).
\<close>

record store_view =
  sv_store :: store
  sv_author :: "user option"
  sv_reviews :: "populated_review list"
  sv_title :: string

definition store_page :: "user_db \<Rightarrow> catalog \<Rightarrow> string \<Rightarrow> store_view option" where
  "store_page db c sl =
     (case find (\<lambda>s. slug s = Some sl) (stores c) of
        None \<Rightarrow> None
      | Some s \<Rightarrow> Some \<lparr>sv_store = s, sv_author = populate_user db (author s),
                       sv_reviews = store_autopopulate db c s, sv_title = name s\<rparr>)"

text \<open>
  Every author reference of the catalog names an id the users collection has already
  issued, so that a later registration cannot be populated into an older document.
\<close>

definition author_refs_below :: "catalog \<Rightarrow> object_id \<Rightarrow> bool" where
  "author_refs_below c n \<longleftrightarrow>
     (\<forall>s\<in>set (stores c). pred_option (\<lambda>i. i < n) (author s)) \<and>
     (\<forall>r\<in>set (reviews c). pred_option (\<lambda>i. i < n) (r_author r))"

subsection \<open>Lemmas\<close>

text \<open>The page refines \<open>get_store_by_slug\<close>: the same store, and its reviews populated.\<close>

lemma store_page_get_store_by_slug:
  "store_page db c sl =
     (case get_store_by_slug c sl of
        None \<Rightarrow> None
      | Some (s, rs) \<Rightarrow> Some \<lparr>sv_store = s, sv_author = populate_user db (author s),
                             sv_reviews = map (review_autopopulate db) rs, sv_title = name s\<rparr>)"
  by (simp add: store_page_def get_store_by_slug_def store_autopopulate_def split: option.split)

lemma populate_user_Some:
  "populate_user db a = Some u \<longleftrightarrow> (\<exists>i. a = Some i \<and> find_user db i = Some u)"
  by (simp add: populate_user_def split: option.split)

text \<open>A registration adds the new user and leaves every earlier population unchanged.\<close>

lemma register_find_user:
  assumes reg: "register ve db nm em pw pc = Inr db'" and inv: "users_inv db"
  shows "\<exists>u. find_user db' (next_uid db) = Some u \<and> user_id u = next_uid db \<and>
           email u = normalize_email em \<and> user_name u = trim nm"
proof -
  have "find (\<lambda>u. user_id u = next_uid db) (users db) = None"
    using inv by (auto simp: users_inv_def find_None_iff)
  then show ?thesis
    using register_Inr [OF reg] by (simp add: find_user_def find_append)
qed

lemma register_populate_user:
  assumes reg: "register ve db nm em pw pc = Inr db'" and inv: "users_inv db"
    and old: "pred_option (\<lambda>i. i < next_uid db) a"
  shows "populate_user db' a = populate_user db a"
proof (cases a)
  case (Some i)
  with old have "i \<noteq> next_uid db" by simp
  with Some show ?thesis
    using register_Inr [OF reg] by (auto simp: populate_user_def find_user_def find_append split: option.split)
qed (simp add: populate_user_def)

lemma reviews_of_add_review:
  "add_review rs r = Inr rs' \<Longrightarrow> r_store r = Some sid \<Longrightarrow> reviews_of rs' sid = reviews_of rs sid @ [r]"
  by (auto simp: reviews_of_def dest: add_review_valid)

subsection \<open>Properties of population\<close>

text \<open>
  C9. A review written by a user who has just registered appears on the store's page
  after the store's earlier reviews, carrying the new user's document (its id, e-mail
  and name) as author; the rest of the page is as it was before the registration.
\<close>

theorem review_on_store_page:
  assumes reg: "register ve db nm em pw pc = Inr db'" and inv: "users_inv db"
    and page: "store_page db c sl = Some v"
    and rv: "add_review (reviews c) r = Inr rs"
    and by_new: "r_author r = Some (next_uid db)" and on: "r_store r = Some (store_id (sv_store v))"
    and refs: "author_refs_below c (next_uid db)"
  shows "\<exists>u. user_id u = next_uid db \<and> email u = normalize_email em \<and> user_name u = trim nm \<and>
           store_page db' (c\<lparr>reviews := rs\<rparr>) sl = Some (v\<lparr>sv_reviews := sv_reviews v @ [(r, Some u)]\<rparr>)"
proof -
  obtain u where u: "find_user db' (next_uid db) = Some u" "user_id u = next_uid db"
    "email u = normalize_email em" "user_name u = trim nm"
    using register_find_user [OF reg inv] by blast
  obtain s where s: "find (\<lambda>s. slug s = Some sl) (stores c) = Some s"
    and v: "v = \<lparr>sv_store = s, sv_author = populate_user db (author s),
                 sv_reviews = store_autopopulate db c s, sv_title = name s\<rparr>"
    using page by (auto simp: store_page_def split: option.splits)
  have keep: "populate_user db' a = populate_user db a" if "pred_option (\<lambda>i. i < next_uid db) a" for a
    using register_populate_user [OF reg inv that] .
  have "author s \<in> author ` set (stores c)"
    using find_Some_mem [OF s] by blast
  then have sa: "populate_user db' (author s) = populate_user db (author s)"
    using refs by (intro keep) (auto simp: author_refs_below_def)
  have old: "map (review_autopopulate db') (reviews_of (reviews c) (store_id s)) =
             store_autopopulate db c s"
    unfolding store_autopopulate_def
  proof (rule map_cong [OF refl])
    fix x assume "x \<in> set (reviews_of (reviews c) (store_id s))"
    then have "x \<in> set (reviews c)" by (simp add: reviews_of_def)
    with refs show "review_autopopulate db' x = review_autopopulate db x"
      by (simp add: review_autopopulate_def keep author_refs_below_def)
  qed
  have "reviews_of rs (store_id s) = reviews_of (reviews c) (store_id s) @ [r]"
    using reviews_of_add_review [OF rv] on v by simp
  then have "store_page db' (c\<lparr>reviews := rs\<rparr>) sl = Some (v\<lparr>sv_reviews := sv_reviews v @ [(r, Some u)]\<rparr>)"
    using s v sa old u(1) by (simp add: store_page_def store_autopopulate_def review_autopopulate_def
                                  populate_user_def by_new)
  with u show ?thesis by blast
qed

theorem review_on_store_page_witness:
  "\<exists>u. user_id u = 2 \<and> email u = ''b@x.io'' \<and> user_name u = ''Bea'' \<and>
     store_page (projr (register sample_valid_email \<lparr>users = [sample_user 1 []], next_uid = 2\<rparr>
                          ''Bea'' ''B@x.io'' ''pw'' ''pw''))
       ((fst (projr (create_store empty_catalog 1 0 (form_input ''Joe''))))\<lparr>reviews :=
          [\<lparr>review_id = 5, r_created = 1, r_author = Some 2, r_store = Some 1, r_text = ''Nice'', rating = Some 4\<rparr>]\<rparr>)
       ''joe'' =
     Some ((the (store_page \<lparr>users = [sample_user 1 []], next_uid = 2\<rparr>
                   (fst (projr (create_store empty_catalog 1 0 (form_input ''Joe'')))) ''joe''))
           \<lparr>sv_reviews := [(\<lparr>review_id = 5, r_created = 1, r_author = Some 2, r_store = Some 1,
                             r_text = ''Nice'', rating = Some 4\<rparr>, Some u)]\<rparr>)"
proof -
  let ?db = "\<lparr>users = [sample_user 1 []], next_uid = 2\<rparr>"
  let ?c = "fst (projr (create_store empty_catalog 1 0 (form_input ''Joe'')))"
  let ?r = "\<lparr>review_id = 5, r_created = 1, r_author = Some 2, r_store = Some 1, r_text = ''Nice'', rating = Some (4::real)\<rparr>"
  have reg: "register sample_valid_email ?db ''Bea'' ''B@x.io'' ''pw'' ''pw'' =
             Inr (projr (register sample_valid_email ?db ''Bea'' ''B@x.io'' ''pw'' ''pw''))"
    by code_simp
  have inv: "users_inv ?db" by code_simp
  have page: "store_page ?db ?c ''joe'' = Some (the (store_page ?db ?c ''joe''))" by code_simp
  have rv: "add_review (reviews ?c) ?r = Inr [?r]" by code_simp
  have sid: "store_id (sv_store (the (store_page ?db ?c ''joe''))) = 1" by code_simp
  have refs: "author_refs_below ?c (next_uid ?db)" by code_simp simp
  have nm: "trim ''Bea'' = ''Bea''" and em: "normalize_email ''B@x.io'' = ''b@x.io''" by code_simp+
  have "sv_reviews (the (store_page ?db ?c ''joe'')) = []" by code_simp
  with review_on_store_page [OF reg inv page rv _ _ refs] sid nm em show ?thesis by simp
qed
end
