(* ===== verification/App.thy ===== *)
theory App
  imports Session Populate
begin

text \<open>
  The application as a whole: the store catalog and the users collection side by side,
  changed by the user handlers and by the store handlers a session user calls. A store
  or review gets its author from \<open>req.user._id\<close> (\<open>createStore\<close>, line 61 of
  \<open>storeController.js\<close>), which passport's \<open>deserializeUser\<close> resolved; an update
  carries what the edit form posts, which has no \<open>author\<close> field. The pages then show
  every author as a user document: no reference dangles.
\<close>

record app =
  app_catalog :: catalog
  app_users :: user_db

definition empty_app :: app where
  "empty_app = \<lparr>app_catalog = empty_catalog, app_users = empty_users\<rparr>"

inductive app_step :: "(string \<Rightarrow> bool) \<Rightarrow> app \<Rightarrow> app \<Rightarrow> bool" for ve where
  users: "user_step ve (app_users a) db' \<Longrightarrow> app_step ve a (a\<lparr>app_users := db'\<rparr>)"
| create: "deserialize_user (app_users a) s = Some u \<Longrightarrow>
           create_store (app_catalog a) (user_id u) t b = Inr (c', p) \<Longrightarrow>
           app_step ve a (a\<lparr>app_catalog := c'\<rparr>)"
| update: "in_author b = None \<Longrightarrow> update_store (app_catalog a) sid b = Inr (c', p) \<Longrightarrow>
           app_step ve a (a\<lparr>app_catalog := c'\<rparr>)"
| review: "deserialize_user (app_users a) s = Some u \<Longrightarrow> r_author r = Some (user_id u) \<Longrightarrow>
           add_review (reviews (app_catalog a)) r = Inr rs \<Longrightarrow>
           app_step ve a (a\<lparr>app_catalog := (app_catalog a)\<lparr>reviews := rs\<rparr>\<rparr>)"

inductive reachable_app :: "(string \<Rightarrow> bool) \<Rightarrow> app \<Rightarrow> bool" for ve where
  init: "reachable_app ve empty_app"
| step: "reachable_app ve a \<Longrightarrow> app_step ve a a' \<Longrightarrow> reachable_app ve a'"

text \<open>Every store and review has an author, and it names a user of the collection.\<close>

definition known_ref :: "user_db \<Rightarrow> object_id option \<Rightarrow> bool" where
  "known_ref db a \<longleftrightarrow> a \<in> set (map (\<lambda>u. Some (user_id u)) (users db))"

definition authors_known :: "app \<Rightarrow> bool" where
  "authors_known a \<longleftrightarrow>
     (\<forall>s\<in>set (stores (app_catalog a)). known_ref (app_users a) (author s)) \<and>
     (\<forall>r\<in>set (reviews (app_catalog a)). known_ref (app_users a) (r_author r))"

subsection \<open>Lemmas\<close>

text \<open>No user handler removes a user or changes an id.\<close>

lemma user_step_ids:
  assumes "user_step ve db db'"
  shows "set (map user_id (users db)) \<subseteq> set (map user_id (users db'))"
  using assms
proof cases
  case (register nm em pw pc)
  then show ?thesis by (auto dest!: register_Inr)
next
  case (account uid nm em)
  then show ?thesis by (simp add: update_account_Inr(2) map_update_first)
next
  case (heart uid sid u')
  then show ?thesis by (elim heart_store_Inr) (simp add: map_update_first)
next
  case (forgot em now tok host m)
  then show ?thesis by (elim forgot_Inr) (simp add: map_update_first)
next
  case (update t now pw)
  then show ?thesis by (elim update_password_Inr) (simp add: map_update_first)
qed

lemma deserialize_user_id:
  "deserialize_user db s = Some u \<Longrightarrow> known_ref db (Some (user_id u))"
  by (auto simp: deserialize_user_def known_ref_def split: option.splits dest: find_Some_mem)

lemma find_user_known:
  assumes "i \<in> set (map user_id (users db))"
  shows "\<exists>u. find_user db i = Some u \<and> user_id u = i"
proof (cases "find_user db i")
  case None
  with assms show ?thesis by (auto simp: find_user_def find_None_iff)
next
  case (Some u)
  then show ?thesis by (auto dest: find_user_Some)
qed

lemma known_ref_mono:
  "known_ref db a \<Longrightarrow> set (map user_id (users db)) \<subseteq> set (map user_id (users db')) \<Longrightarrow>
   known_ref db' a"
  by (auto simp: known_ref_def)

lemma populate_user_known:
  assumes "known_ref db a"
  shows "\<exists>u. populate_user db a = Some u \<and> a = Some (user_id u)"
proof -
  from assms obtain i where a: "a = Some i" and i: "i \<in> set (map user_id (users db))"
    by (auto simp: known_ref_def)
  from find_user_known [OF i] a show ?thesis
    by (auto simp: populate_user_def)
qed

lemma app_step_authors_known:
  "app_step ve a a' \<Longrightarrow> authors_known a \<Longrightarrow> authors_known a'"
proof (induction rule: app_step.induct)
  case (users a db')
  have "known_ref db' x" if "known_ref (app_users a) x" for x
    using known_ref_mono [OF that user_step_ids [OF users.hyps]] .
  with users.prems show ?case
    by (simp add: authors_known_def)
next
  case (create a s u t b c' p)
  from create.hyps(2) obtain s' where "stores c' = stores (app_catalog a) @ [s']"
    and "author s' = Some (user_id u)" and "reviews c' = reviews (app_catalog a)"
    by (elim create_store_Inr)
  with create.prems deserialize_user_id [OF create.hyps(1)] show ?case
    by (simp add: authors_known_def)
next
  case (update b a sid c' p)
  from update.hyps(2) obtain st: "stores c' = update_first (\<lambda>t. store_id t = sid)
      (apply_update (striptags (in_name b) default_store) b) (stores (app_catalog a))"
    and rv: "reviews c' = reviews (app_catalog a)"
    by (elim update_store_Inr)
  have "author x \<in> author ` set (stores (app_catalog a))" if "x \<in> set (stores c')" for x
    using set_update_first [OF that [unfolded st]] update.hyps(1)
    by (auto simp: apply_update_def)
  with update.prems rv show ?case
    unfolding authors_known_def by fastforce
next
  case (review a s u r rs)
  have "rs = reviews (app_catalog a) @ [r]"
    using add_review_valid [OF review.hyps(3)] by blast
  with review.prems review.hyps(2) deserialize_user_id [OF review.hyps(1)] show ?case
    by (simp add: authors_known_def)
qed

lemma reachable_app_authors_known: "reachable_app ve a \<Longrightarrow> authors_known a"
proof (induction rule: reachable_app.induct)
  case init
  then show ?case by (simp add: authors_known_def empty_app_def empty_catalog_def)
next
  case (step a a')
  show ?case by (rule app_step_authors_known [OF step.hyps(2) step.IH])
qed

subsection \<open>Properties of the application\<close>

text \<open>
  C11. In every state the application reaches, each store page shows the store's
  author as the user document with the store's author id, and each review on it shows
  its author the same way: no author of a page is \<open>null\<close>.
\<close>

theorem reachable_app_pages_show_authors:
  assumes reach: "reachable_app ve a" and page: "store_page (app_users a) (app_catalog a) sl = Some v"
  shows "(\<exists>u. sv_author v = Some u \<and> author (sv_store v) = Some (user_id u)) \<and>
         (\<forall>(r, au)\<in>set (sv_reviews v). \<exists>u. au = Some u \<and> r_author r = Some (user_id u))"
proof -
  have known: "authors_known a"
    using reach by (rule reachable_app_authors_known)
  from page obtain s where s: "find (\<lambda>s. slug s = Some sl) (stores (app_catalog a)) = Some s"
    and v: "v = \<lparr>sv_store = s, sv_author = populate_user (app_users a) (author s),
                 sv_reviews = store_autopopulate (app_users a) (app_catalog a) s, sv_title = name s\<rparr>"
    by (auto simp: store_page_def split: option.splits)
  have "known_ref (app_users a) (author s)"
    using known find_Some_mem [OF s] by (simp add: authors_known_def)
  then have "\<exists>u. sv_author v = Some u \<and> author (sv_store v) = Some (user_id u)"
    using populate_user_known v by simp
  moreover have "\<exists>u. au = Some u \<and> r_author r = Some (user_id u)"
    if "(r, au) \<in> set (sv_reviews v)" for r au
  proof -
    from that v have r: "r \<in> set (reviews (app_catalog a))"
      and au: "au = populate_user (app_users a) (r_author r)"
      by (auto simp: store_autopopulate_def review_autopopulate_def reviews_of_def)
    from r known have "known_ref (app_users a) (r_author r)"
      by (simp add: authors_known_def)
    with au show ?thesis
      using populate_user_known by simp
  qed
  ultimately show ?thesis by blast
qed


theorem reachable_app_pages_show_authors_witness:
  "(\<exists>u. sv_author (the (store_page (projr (register sample_valid_email empty_users ''Ann'' ''ann@x.io'' ''pw'' ''pw''))
                      ((fst (projr (create_store empty_catalog 1 0 (form_input ''Joe''))))\<lparr>reviews :=
                         [\<lparr>review_id = 1, r_created = 1, r_author = Some 1, r_store = Some 1, r_text = ''Nice'', rating = Some 4\<rparr>]\<rparr>)
                      ''joe'')) = Some u \<and> user_name u = ''Ann'') \<and>
   list_all (\<lambda>(r, au). \<exists>u. au = Some u \<and> r_author r = Some (user_id u)) (sv_reviews (the (store_page (projr (register sample_valid_email empty_users ''Ann'' ''ann@x.io'' ''pw'' ''pw''))
                      ((fst (projr (create_store empty_catalog 1 0 (form_input ''Joe''))))\<lparr>reviews :=
                         [\<lparr>review_id = 1, r_created = 1, r_author = Some 1, r_store = Some 1, r_text = ''Nice'', rating = Some 4\<rparr>]\<rparr>)
                      ''joe'')))"
proof -
  let ?db = "projr (register sample_valid_email empty_users ''Ann'' ''ann@x.io'' ''pw'' ''pw'')"
  let ?c = "fst (projr (create_store empty_catalog 1 0 (form_input ''Joe'')))"
  let ?r = "\<lparr>review_id = 1, r_created = 1, r_author = Some 1, r_store = Some 1, r_text = ''Nice'', rating = Some (4::real)\<rparr>"
  let ?s = "\<lparr>sess_user = Some ''ann@x.io''\<rparr>"
  let ?a1 = "empty_app\<lparr>app_users := ?db\<rparr>"
  let ?a2 = "?a1\<lparr>app_catalog := ?c\<rparr>"
  let ?a3 = "?a2\<lparr>app_catalog := (app_catalog ?a2)\<lparr>reviews := [?r]\<rparr>\<rparr>"
  have reg: "register sample_valid_email (app_users empty_app) ''Ann'' ''ann@x.io'' ''pw'' ''pw'' = Inr ?db"
    by code_simp
  have des: "deserialize_user (app_users ?a1) ?s = Some (the (deserialize_user ?db ?s))" by code_simp
  have uid: "user_id (the (deserialize_user ?db ?s)) = 1" by code_simp
  have cr: "create_store (app_catalog ?a1) 1 0 (form_input ''Joe'') = Inr (projr (create_store empty_catalog 1 0 (form_input ''Joe'')))"
    by code_simp
  have rv: "add_review (reviews (app_catalog ?a2)) ?r = Inr [?r]" by code_simp
  have r1: "reachable_app sample_valid_email ?a1"
    by (rule reachable_app.step [OF reachable_app.init app_step.users [OF user_step.register [OF reg]]])
  have r2: "reachable_app sample_valid_email ?a2"
    using reachable_app.step [OF r1 app_step.create [OF des, of 0 "form_input ''Joe''" ?c "snd (projr (create_store empty_catalog 1 0 (form_input ''Joe'')))"]]
    using cr uid by simp
  have des2: "deserialize_user (app_users ?a2) ?s = Some (the (deserialize_user ?db ?s))" by code_simp
  have ra: "r_author ?r = Some (user_id (the (deserialize_user ?db ?s)))" using uid by simp
  have r3: "reachable_app sample_valid_email ?a3"
    by (rule reachable_app.step [OF r2 app_step.review [OF des2 ra rv]])
  have page: "store_page (app_users ?a3) (app_catalog ?a3) ''joe'' = Some (the (store_page ?db (?c\<lparr>reviews := [?r]\<rparr>) ''joe''))"
    by code_simp
  have nm: "case sv_author (the (store_page ?db (?c\<lparr>reviews := [?r]\<rparr>) ''joe'')) of None \<Rightarrow> False | Some u \<Rightarrow> user_name u = ''Ann''"
    by code_simp
  from reachable_app_pages_show_authors [OF r3 page] nm show ?thesis
    by (auto simp: list_all_iff split: option.splits)
qed
end
