(* ===== verification/Pages.thy ===== *)
theory Pages
  imports Aggregates
begin

text \<open>
  The handlers that only render a template: \<open>homePage\<close>, \<open>addStore\<close>, \<open>mapPage\<close> and
  \<open>getTopStores\<close> of \<open>src/controllers/storeController.js\<close>, and \<open>account\<close> of
  \<open>src/controllers/userController.js\<close>. A rendering is the template's name, the page
  title it is given (none for the home page) and, for the leaderboard, the entries
  \<open>Store.getTopStores\<close> returns; the pug templates themselves are not under \<open>src/\<close>.
\<close>

record view =
  template :: string
  view_title :: "string option"

definition home_page :: view where
  "home_page = \<lparr>template = ''index'', view_title = None\<rparr>"

definition add_store :: view where
  "add_store = \<lparr>template = ''editStore'', view_title = Some ''Add Store''\<rparr>"

definition map_page :: view where
  "map_page = \<lparr>template = ''map'', view_title = Some ''Map''\<rparr>"

definition account :: view where
  "account = \<lparr>template = ''account'', view_title = Some ''Edit your account''\<rparr>"

text \<open>\<open>getTopStores\<close> (lines 222--225): the aggregation's result, rendered as it is.\<close>

definition get_top_stores_page :: "catalog \<Rightarrow> view \<times> top_store list" where
  "get_top_stores_page c = (\<lparr>template = ''topStores'', view_title = Some ''Top Stores''\<rparr>, get_top_stores c)"

end
