(* ===== verification/Spec2Isabelle.thy ===== *)
theory Spec2Isabelle
  imports Client Upload App Pages
begin

text \<open>
  \<^bold>\<open>A verification development of Full-stack-Restaurant-App.\<close>

  The application is an Express/Mongoose web service. Its core is the store catalog:
  the Mongoose schemas of \<open>src/models/Store.js\<close> and \<open>src/models/Review.js\<close> with
  their pre-save hooks and aggregation pipelines, and the handlers of
  \<open>src/controllers/storeController.js\<close> that create, update, look up, list, search and
  aggregate stores. Around it sit the users (\<open>src/models/User.js\<close>): registration and
  account update in \<open>src/controllers/userController.js\<close>, favourites (\<open>heartStore\<close>,
  \<open>hearts\<close> of \<open>storeController.js\<close>) and the password-reset flow of
  \<open>src/controllers/authController.js\<close>, which mails a link through
  \<open>src/handlers/mail.js\<close>. In front of \<open>createStore\<close> and \<open>updateStore\<close> the photo
  upload (\<open>upload\<close>, \<open>resize\<close>) names and writes an image; in the browser,
  \<open>public/javascripts/modules/heart.js\<close> posts hearts and \<open>map.js\<close> draws the
  proximity query. The handlers call the models; the models keep the only shared
  state, the MongoDB collections of stores, reviews and users. Stores and users meet in
  two places: a store's author is a user id, and a user's hearts are store ids.

  \<^bold>\<open>Theories.\<close>
  \<^item> \<open>Prelude\<close>: object ids (\<open>nat\<close>), timestamps (\<open>int\<close>), ASCII character classes,
    decimal printing of a number in a template literal (\<open>show_nat\<close>, with
    \<open>read_nat\<close> as its inverse), \<open>update_first\<close> (what \<open>findOneAndUpdate\<close> does to a
    collection) and \<open>sort_desc\<close> (a \<open>$sort\<close> stage with key \<open>-1\<close>), with the shared
    lemmas on lists, sorting, top-k selection and paging.
  \<^item> \<open>Sanitize\<close>: \<open>trim\<close> (the schema's \<open>trim: true\<close> setter), \<open>striptags\<close> (the
    \<open>striptags\<close> package, called as \<^verbatim>\<open>striptags(name, null, "Default Store")\<close>) and
    \<open>slugify\<close> (the \<open>slugs\<close> package). The packages are not in the repository; they
    are modelled from the specification (section 4.1) and the packages' documentation.
  \<^item> \<open>Slug\<close>: the slug assigner of \<open>Store.js\<close> lines 75--89: the regular expression
    \<^verbatim>\<open>^(base)((-[0-9]*$)?)$\<close> with flag \<open>i\<close> (\<open>slug_regex\<close>), the query
    (\<open>stores_with_slug\<close>) and the counting step (\<open>next_slug\<close>). Its invariant
    \<open>slug_inv\<close> says that every stored slug is in the family of a plain base
    (\<open>plain_base\<close>: not ending in \<open>-digits\<close>) and that each family is exactly
    \<open>base, base-2, ..., base-n\<close>; \<open>slug_inv_next_slug\<close> proves that the counting step
    keeps it, \<open>slug_inv_distinct\<close> that it implies distinct slugs.
  \<^item> \<open>Review\<close>: the review document, its validators and the reviews of a store
    (\<open>reviews_of\<close>, the virtual \<open>reviews\<close> of \<open>Store.js\<close>).
  \<^item> \<open>StoreModel\<close>: the store document (\<open>store\<close>, \<open>location\<close>), the collections
    (\<open>catalog\<close>), the schema's validators (\<open>store_errors\<close>) and geo index
    (\<open>geo_point_ok\<close>), the two pre-save hooks (\<open>strip_name_hook\<close>, \<open>slug_hook\<close>),
    \<open>save_new\<close>, and the handlers \<open>createStore\<close> (\<open>create_store\<close>), \<open>editStore\<close> with
    \<open>confirmOwner\<close> (\<open>edit_store\<close>, \<open>confirm_owner\<close>), \<open>updateStore\<close>
    (\<open>update_store\<close>) and \<open>getStoreBySlug\<close> (\<open>get_store_by_slug\<close>). Every handler
    returns \<open>store_error + _\<close>: a failed validator, the geo index refusing a point, a
    \<open>TypeError\<close> where the code reads a field of \<open>null\<close>, or the ownership error.
    A request body carries the form's fields and any other schema path a client posts
    (\<open>slug\<close>, \<open>created\<close>, \<open>author\<close>), all of which \<open>updateStore\<close> writes. The
    catalog is also a state machine (\<open>catalog_step\<close>, \<open>reachable_catalog\<close>),
    parametrised by the update bodies it admits: any body, or bodies without a
    \<open>slug\<close> field as the edit form posts them (\<open>no_slug_field\<close>). Its invariants are
    proved by rule induction: \<open>catalog_slug_inv\<close> (slug families, for edit-form updates),
    \<open>ids_inv\<close> (object ids), \<open>schema_inv\<close> (what the schema and the geo index require
    of a stored document) and \<open>ratings_inv\<close> (ratings between 1 and 5).
  \<^item> \<open>Aggregates\<close>: the pipelines \<open>getTagsList\<close> (\<open>get_tags_list\<close>, with the
    \<open>$group\<close> stage as an incremental fold) and
    \<open>getTopStores\<close> (\<open>get_top_stores\<close>, stage by stage, with its top-10 selection
    proved against the whole candidate set), and \<open>getStoresByTag\<close>.
  \<^item> \<open>Queries\<close>: \<open>getStores\<close> with its page window and past-the-end redirect,
    \<open>searchStores\<close> over an abstract relevance score of the text index's fields
    (\<open>text_index\<close>) and \<open>mapStores\<close> over an abstract
    distance, with MongoDB's query failures as \<open>query_error\<close>.
  \<^item> \<open>Accounts\<close>: the user document and collection, \<open>validateRegister\<close>/\<open>register\<close>,
    \<open>updateAccount\<close> and the \<open>gravatar\<close> virtual (with the MD5 hash a parameter); the
    e-mail pipeline of \<open>sanitizeEmail\<close> (\<open>normalize_email_lib\<close>, \<open>gmail_dots\<close>) and the
    schema's setters and validators (\<open>email_setters\<close>, \<open>user_errors\<close>), which
    \<open>register\<close> re-checks on the sanitized input.
  \<^item> \<open>Favourites\<close>: \<open>heartStore\<close> (the operator choice and its effect on the stored
    array) and \<open>hearts\<close>.
  \<^item> \<open>PasswordReset\<close>: \<open>forgot\<close>/\<open>reset\<close>/\<open>update\<close> with the token lookup
    (\<open>token_user\<close>); the reset mail is the record \<open>mail\<close> that \<open>send\<close> of
    \<open>mail.js\<close> builds (\<open>send_mail\<close>), and its bodies are \<open>generateHTML\<close> followed by
    the text conversion (\<open>generate_html\<close>, \<open>mail_bodies\<close>, with pug, juice and
    html-to-text as parameters).
  \<^item> \<open>Users\<close>: the users collection as a state machine (\<open>user_step\<close>,
    \<open>reachable_users\<close>) over the handlers of the three theories above, with the
    invariant \<open>users_inv\<close> (unique ids and e-mails, duplicate-free hearts, token stored
    with its expiry) and the properties of the user side.
  \<^item> \<open>Session\<close>: passport's session as the value \<open>serializeUser\<close> stores (the
    e-mail address), \<open>deserializeUser\<close>, the local strategy (\<open>authenticate\<close>),
    \<open>login\<close>, \<open>logout\<close>, \<open>isLoggedIn\<close>, \<open>loginForm\<close>/\<open>registerForm\<close>, and
    what \<open>passport.session()\<close> does on each request (\<open>restore_session\<close>: a user no
    longer found is logged out).
  \<^item> \<open>Upload\<close>: \<open>fileFilter\<close> of multer (\<open>file_filter\<close>), \<open>resize\<close> naming the photo
    from a uuid and the MIME subtype (\<open>photo_name\<close>, with JavaScript's \<open>split\<close> as
    \<open>js_split\<close>), and their chain (\<open>upload\<close>).
  \<^item> \<open>Client\<close>: the browser side. \<open>heart.js\<close> as a page record and the click that
    runs \<open>heartStore\<close> and handles its response (\<open>heart_click\<close>); \<open>loadPlaces\<close> of
    \<open>map.js\<close> over \<open>mapStores\<close> (\<open>load_places\<close>, \<open>make_marker\<close>, the popup's
    \<open>popup_link\<close> and \<open>popup_photo\<close>); and a browser following the list page's
    redirects (\<open>browse\<close>, a \<^theory_text>\<open>partial_function (option)\<close>: \<open>None\<close> would be a
    redirect loop); \<open>makeMap\<close> and \<open>autocomplete.js\<close> over the events of the
    address field (\<open>autocomplete\<close>, \<open>address_events\<close>): a chosen place is written into
    the store form (\<open>place_input\<close>) and Enter never submits it.
  \<^item> \<open>Populate\<close>: Mongoose population. The \<open>autopopulate\<close> hooks of \<open>Review.js\<close>
    (\<open>review_autopopulate\<close>) and \<open>Store.js\<close> (\<open>store_autopopulate\<close>) join the
    reviews to the users, and \<open>store_page\<close> is the page \<open>getStoreBySlug\<close> renders,
    with the store's author populated as well; it refines \<open>get_store_by_slug\<close>
    (\<open>store_page_get_store_by_slug\<close>).
  \<^item> \<open>App\<close>: the application as a state machine over both collections
    (\<open>app_step\<close>, \<open>reachable_app\<close>): the user handlers, and store creations,
    edit-form updates and reviews made by the session's user (\<open>deserializeUser\<close>). Its
    invariant \<open>authors_known\<close> (every author reference names a user) is proved by rule
    induction, with \<open>user_step_ids\<close> showing that no user handler removes an id.
  \<^item> \<open>Pages\<close>: the handlers that only render a template (\<open>homePage\<close>,
    \<open>addStore\<close>, \<open>mapPage\<close>, \<open>getTopStores\<close>, \<open>account\<close>) as the template
    and title they render.
  \<^item> \<open>Spec2Isabelle\<close> (this theory): properties that span the components.

  \<^bold>\<open>Main results.\<close> Sequential creation gives distinct slugs when no name's base
  slug ends in \<open>-digits\<close> (\<open>create_all_distinct_slugs\<close>, \<open>reachable_catalog_unique\<close>),
  and, with edit-form updates, the redirect after a creation shows the created store
  (\<open>create_then_get_by_slug\<close>). Without that condition the counting scheme repeats a
  slug whenever the counted number is already taken (\<open>create_duplicate_slug\<close>), and the
  redirect then shows an older store (\<open>redirect_shows_older_store\<close>). \<open>updateStore\<close>
  never recomputes the slug (\<open>update_store_stale_slug\<close>), performs no ownership check,
  and writes the body whole: a posted author replaces the author
  (\<open>update_store_sets_author\<close>) and a posted slug can duplicate another store's
  (\<open>update_store_sets_slug\<close>). The tag facet counts each tag
  (\<open>get_tags_list_correct\<close>), the leaderboard is the top ten of the stores with two
  reviews (\<open>get_top_stores_top_k\<close>), with distinct creation times the pages of the list
  partition the catalog (\<open>get_stores_pages\<close>), and with no store every page past the
  first redirects to page 0, which fails (\<open>get_stores_empty_redirect_error\<close>). On the user side the invariant
  holds in every reachable state (\<open>reachable_users_inv\<close>), hearting toggles
  (\<open>heart_store_hearted\<close>, \<open>heart_store_twice\<close>), a reset token works for one hour
  and once (\<open>forgot_reset_window\<close>, \<open>reset_token_single_use\<close>), and an expired
  token makes both reset handlers fail after redirecting
  (\<open>expired_token_handlers_fail\<close>); the reset link's host is the request's
  \<open>Host\<close> header, so whoever forges it receives a link with which to set the owner's
  password (\<open>forgot_link_host_forged\<close>). Stored documents satisfy the schema
  (\<open>reachable_catalog_schema\<close>) except for the name, which an unclosed tag empties
  after validation (\<open>create_store_empty_name\<close>); leaderboard averages stay within 1..5
  (\<open>top_stores_rating_bounds\<close>); following the list redirects always ends
  (\<open>browse_terminates\<close>); map markers sit on their stores' points and link to their
  stores (\<open>load_places_markers\<close>, \<open>popup_link_opens_store\<close>), an uploaded photo is
  shown from the file \<open>resize\<close> wrote (\<open>upload_photo_shown\<close>), and the heart button
  keeps whatever (dis)agreement with the server it had (\<open>heart_click_agreement\<close>).
  Registering logs the user in (\<open>register_then_login\<close>), but the session holds the
  e-mail address, so an address change logs the session out, or hands it to whoever
  registered the old address (\<open>session_follows_old_email\<close>); login compares the
  address as typed with the sanitized one registration stored, so a dotted Gmail
  address cannot log in as typed (\<open>login_as_typed_fails\<close>). A store created from an
  autocompleted place is drawn at that place on the map unless ten stores already
  stand there (\<open>autocomplete_store_on_map\<close>). A review by a new
  user appears on the store's page with that user as author
  (\<open>review_on_store_page\<close>), and in every state the application reaches each page
  shows its store's and its reviews' authors (\<open>reachable_app_pages_show_authors\<close>);
  an update whose body names an author, which no form sends, is what would break this
  (\<open>update_store_sets_author\<close>).

  \<^bold>\<open>Modelling choices.\<close> A collection is a list in insertion order and \<open>findOne\<close>
  returns its first match. Object ids come from a counter in each collection.
  Coordinates and ratings are \<open>real\<close> (JavaScript numbers without rounding), times are
  \<open>int\<close> milliseconds. Strings are byte strings. Validation runs before the pre-save
  hooks, as in Mongoose; query filters are compared as given, without the schema's
  setters (Mongoose 4, which the code's \<open>mongoose.Promise = global.Promise\<close> is
  written for). MongoDB's text score and spherical distance, and the e-mail syntax check
  of \<open>validator\<close>, are parameters; \<open>normalizeEmail\<close> is modelled from the package's
  documentation for Gmail and the generic case (\<open>normalize_email_lib\<close>); random reset tokens, uuids and the
  \<open>Host\<close> header are inputs. A form field the browser does not send (no tag checked,
  no photo) is absent from the request body. No bound or fuel is needed: every function
  is structurally recursive and every loop of the code is over a finite list; the one
  unbounded iteration, a browser following redirects, is a partial function whose
  termination is proved.

  \<^bold>\<open>Not modelled.\<close> The pug templates (not under \<open>src/\<close>) and flash messages: a
  rendering is the template's name, its title and the data handed to it; the libraries
  pug, juice, html-to-text and MD5 are parameters; the SMTP transport of \<open>mail.js\<close>
  (lines 9--16, configured from the environment); decoding, resizing and writing the
  image (\<open>jimp\<close>, \<open>multer.memoryStorage\<close>); password hashing
  (\<open>passport-local-mongoose\<close>; a password matches when it equals the stored one); the
  Google Maps and Places widgets themselves; the routes, which are not under
  \<open>src/\<close> (the specification leaves routing to the transport layer) and appear only as
  the session user a handler reads. A posted \<open>_id\<close> in a store body; the sub-address
  rules of \<open>normalizeEmail\<close> for Outlook, Yahoo and iCloud domains. The \<open>require\<close> lines and model registrations are
  module wiring. These are I/O or library code around the collections.
\<close>

section \<open>Round trips across the handlers\<close>

text \<open>
  C10. After a successful \<open>createStore\<close> in a catalog reachable with updates whose
  body has no \<open>slug\<close> field (as the edit form posts them), following the redirect
  (\<open>getStoreBySlug\<close> on the slug in the path) shows the store just created, with its
  reviews.
\<close>

theorem create_then_get_by_slug:
  assumes "reachable_catalog no_slug_field c" and "plain_base (base_slug b)"
    and "create_store c u t b = Inr (c', p)"
  shows "\<exists>s' sl. stores c' = stores c @ [s'] \<and> slug s' = Some sl \<and> p = ''/store/'' @ sl \<and>
           get_store_by_slug c' sl = Some (s', reviews_of (reviews c') (store_id s'))"
proof -
  from assms(3) obtain s' where s': "stores c' = stores c @ [s']"
    and sl: "slug s' = Some (next_slug (map slug (stores c)) (base_slug b))"
    and p: "p = ''/store/'' @ next_slug (map slug (stores c)) (base_slug b)"
    by (rule create_store_Inr)
  have "catalog_slug_inv c"
    using assms(1) by (simp add: reachable_catalog_invs)
  then have "catalog_slug_inv c'"
    using assms(2,3) by (rule create_store_slug_inv)
  then have "distinct (map slug (stores c'))"
    by (rule catalog_slug_inv_distinct)
  with s' sl have "slug s' \<notin> set (map slug (stores c))"
    by simp
  with s' sl have "find (\<lambda>s. slug s = slug s') (stores c') = Some s'"
    by (simp add: find_append_unique)
  with s' sl p show ?thesis
    by (auto simp: get_store_by_slug_def)
qed

theorem create_then_get_by_slug_witness:
  "case create_store empty_catalog 7 0 (form_input ''Joe'') of
     Inr (c', p) \<Rightarrow> p = ''/store/joe'' \<and>
       (\<exists>s'. get_store_by_slug c' ''joe'' = Some (s', []) \<and> name s' = ''Joe'')
   | Inl _ \<Rightarrow> False"
proof -
  have ex: "create_store empty_catalog 7 0 (form_input ''Joe'') =
              Inr (projr (create_store empty_catalog 7 0 (form_input ''Joe'')))"
    by code_simp
  obtain c' p where run: "create_store empty_catalog 7 0 (form_input ''Joe'') = Inr (c', p)"
    using ex by (metis prod.collapse)
  have plain: "plain_base (base_slug (form_input ''Joe''))"
    by code_simp
  have nm: "stored_name (form_input ''Joe'') = ''Joe''"
    by code_simp
  have sl: "next_slug [] (base_slug (form_input ''Joe'')) = ''joe''"
    by code_simp
  obtain s' sl' where "stores c' = stores empty_catalog @ [s']" "slug s' = Some sl'"
    "p = ''/store/'' @ sl'"
    "get_store_by_slug c' sl' = Some (s', reviews_of (reviews c') (store_id s'))"
    using create_then_get_by_slug [OF reachable_catalog.init plain run] by blast
  moreover from run have "reviews c' = []" and "name s' = ''Joe''" and "sl' = ''joe''"
    using calculation nm sl by (auto elim!: create_store_Inr simp: empty_catalog_def)
  ultimately show ?thesis
    unfolding run by (auto simp: reviews_of_def)
qed

text \<open>
  After a store named \<^verbatim>\<open>Joe 2\<close> (by user 7), creating one named \<^verbatim>\<open>Joe\<close>
  (by user 8) redirects to \<^verbatim>\<open>/store/joe-2\<close>, and that page shows the older store:
  the creator of the new store cannot reach it by its slug.
\<close>

theorem redirect_shows_older_store:
  "let c1 = fst (projr (create_store empty_catalog 7 0 (form_input ''Joe 2''))) in
   case create_store c1 8 1 (form_input ''Joe'') of
     Inr (c2, p) \<Rightarrow> p = ''/store/joe-2'' \<and>
       (case get_store_by_slug c2 ''joe-2'' of
          Some (s, rs) \<Rightarrow> name s = ''Joe 2'' \<and> author s = Some 7
        | None \<Rightarrow> False)
   | Inl _ \<Rightarrow> False"
  by code_simp

section \<open>Updates and the tag page\<close>

text \<open>
  C32. The edit form cannot clear a store's tags: with no tag checked the body carries
  no \<open>tags\<close> field, \<open>findOneAndUpdate\<close> leaves the stored tags, and the store stays on
  the page of each of its old tags.
\<close>

theorem update_cannot_clear_tags:
  assumes run: "update_store c sid b = Inr (c', p)" and found: "find_store c sid = Some s"
    and none: "in_tags b = []" and t: "t \<in> set (tags s)"
  shows "\<exists>s'. find_store c' sid = Some s' \<and> tags s' = tags s \<and>
           s' \<in> set (snd (get_stores_by_tag c' (Some t)))"
proof -
  let ?s' = "apply_update (striptags (in_name b) default_store) b s"
  have f: "find_store c' sid = Some ?s'"
    using run found by (rule update_store_found)
  have tg: "tags ?s' = tags s"
    using none by (simp add: apply_update_def)
  have "?s' \<in> set (stores c')"
    using f unfolding find_store_def by (blast dest: find_Some_mem)
  with tg t have "?s' \<in> set (snd (get_stores_by_tag c' (Some t)))"
    by (simp add: get_stores_by_tag_def tag_query_def)
  with f tg show ?thesis by blast
qed

theorem update_cannot_clear_tags_witness:
  "let c = fst (projr (create_store empty_catalog 7 0 ((form_input ''Joe'')\<lparr>in_tags := [''Wifi'']\<rparr>))) in
   case update_store c 1 (form_input ''Joe'') of
     Inr (c', p) \<Rightarrow> \<exists>s'. find_store c' 1 = Some s' \<and> tags s' = [''Wifi''] \<and>
                     s' \<in> set (snd (get_stores_by_tag c' (Some ''Wifi'')))
   | Inl _ \<Rightarrow> False"
proof -
  define c where "c = fst (projr (create_store empty_catalog 7 0 ((form_input ''Joe'')\<lparr>in_tags := [''Wifi'']\<rparr>)))"
  have ex: "update_store c 1 (form_input ''Joe'') = Inr (projr (update_store c 1 (form_input ''Joe'')))"
    unfolding c_def by code_simp
  obtain c' p where run: "update_store c 1 (form_input ''Joe'') = Inr (c', p)"
    using ex by (metis prod.collapse)
  have found: "find_store c 1 = Some (hd (stores c))"
    unfolding c_def by code_simp
  have old: "tags (hd (stores c)) = [''Wifi'']"
    unfolding c_def by code_simp
  have none: "in_tags (form_input ''Joe'') = []"
    by (simp add: form_input_def)
  have "\<exists>s'. find_store c' 1 = Some s' \<and> tags s' = [''Wifi''] \<and>
          s' \<in> set (snd (get_stores_by_tag c' (Some ''Wifi'')))"
    using update_cannot_clear_tags [OF run found none, of "''Wifi''"] old by simp
  then show ?thesis
    unfolding c_def [symmetric] Let_def run by simp
qed

section \<open>Photos\<close>

text \<open>
  C21. An uploaded photo is shown where it was written: after \<open>upload\<close> accepted an
  image and \<open>resize\<close> wrote it to \<^verbatim>\<open>./public/uploads/<name>\<close>, a successful
  \<open>createStore\<close> stores the name \<^verbatim>\<open><uuid>.<subtype>\<close>, and the map popup of the new
  store requests \<^verbatim>\<open>/uploads/<name>\<close>, the same file under the \<open>public\<close> directory.
\<close>

theorem upload_photo_shown:
  assumes up: "upload (Some mt) uuid b = Inr (b', path)"
    and cr: "create_store c uid t b' = Inr (c', p)"
  shows "\<exists>s' nm r. stores c' = stores c @ [s'] \<and> mt = ''image/'' @ r \<and>
           nm = uuid @ ''.'' @ takeWhile (\<lambda>ch. ch \<noteq> CHR ''/'') r \<and>
           photo s' = Some nm \<and> path = Some (''./public/uploads/'' @ nm) \<and>
           popup_photo (make_marker (project_map s')) = ''/uploads/'' @ nm"
proof -
  from upload_Some [OF up] obtain r where mt: "mt = ''image/'' @ r"
    and b': "b' = b\<lparr>in_photo := Some (photo_name uuid mt)\<rparr>"
    and path: "path = Some (''./public/uploads/'' @ photo_name uuid mt)"
    by blast
  from cr obtain s' where st: "stores c' = stores c @ [s']" and ph: "photo s' = in_photo b'"
    by (rule create_store_Inr)
  let ?nm = "uuid @ ''.'' @ takeWhile (\<lambda>ch. ch \<noteq> CHR ''/'') r"
  have nm: "photo_name uuid mt = ?nm"
    unfolding mt by (rule photo_name_image)
  have "popup_photo (make_marker (project_map s')) = ''/uploads/'' @ ?nm"
    using ph b' nm by (simp add: popup_photo_def make_marker_def project_map_def)
  with st mt ph b' path nm show ?thesis
    by auto
qed

theorem upload_photo_shown_witness:
  "case upload (Some ''image/jpeg'') ''u1'' (form_input ''Joe'') of
     Inr (b', path) \<Rightarrow>
       path = Some ''./public/uploads/u1.jpeg'' \<and>
       (case create_store empty_catalog 7 0 b' of
          Inr (c', p) \<Rightarrow> popup_photo (make_marker (project_map (last (stores c')))) = ''/uploads/u1.jpeg''
        | Inl _ \<Rightarrow> False)
   | Inl _ \<Rightarrow> False"
proof -
  have ex: "upload (Some ''image/jpeg'') ''u1'' (form_input ''Joe'') =
              Inr (projr (upload (Some ''image/jpeg'') ''u1'' (form_input ''Joe'')))"
    by code_simp
  obtain b' path where up: "upload (Some ''image/jpeg'') ''u1'' (form_input ''Joe'') = Inr (b', path)"
    using ex by (metis prod.collapse)
  have ex2: "create_store empty_catalog 7 0 (fst (projr (upload (Some ''image/jpeg'') ''u1'' (form_input ''Joe'')))) =
      Inr (projr (create_store empty_catalog 7 0 (fst (projr (upload (Some ''image/jpeg'') ''u1'' (form_input ''Joe''))))))"
    by code_simp
  obtain c' p where cr: "create_store empty_catalog 7 0 b' = Inr (c', p)"
    using ex2 unfolding up by (metis fst_conv sum.sel(2) prod.collapse)
  obtain s' nm r where "stores c' = stores empty_catalog @ [s']" and "''image/jpeg'' = ''image/'' @ r"
    and "nm = ''u1'' @ ''.'' @ takeWhile (\<lambda>ch. ch \<noteq> CHR ''/'') r"
    and "path = Some (''./public/uploads/'' @ nm)"
    and "popup_photo (make_marker (project_map s')) = ''/uploads/'' @ nm"
    using upload_photo_shown [OF up cr] by blast
  moreover from \<open>''image/jpeg'' = ''image/'' @ r\<close> have "r = ''jpeg''"
    by simp
  ultimately have "path = Some ''./public/uploads/u1.jpeg''"
    and "popup_photo (make_marker (project_map (last (stores c')))) = ''/uploads/u1.jpeg''"
    by (simp_all add: empty_catalog_def)
  then show ?thesis
    by (simp add: up cr)
qed

end
